(* ===== verification/Prelude.thy ===== *)
theory Prelude
  imports Main "HOL-Library.Word" "HOL-Library.Multiset" "HOL-Library.State_Monad" "HOL-Library.Signed_Division"
begin

unbundle bit_operations_syntax

section \<open>Shared types, buffers and automation\<close>

text \<open>
  The types the components share, and the two C idioms that every one of them uses: a byte
  buffer that is read and written by offset and length (\<open>memcpy\<close>, \<open>sprintf\<close>,
  \<open>copy_from_user\<close>; of length 0 it touches nothing), and a NUL-terminated string inside a buffer (\<open>strlen\<close>, \<open>%s\<close>).
  A buffer is a list of bytes. An access outside it is not given a value: the operations
  return \<open>None\<close> there, and the components turn that into an explicit fault.

  The collections \<open>kmonad\<close> (running the state monad), \<open>buf_simps\<close> (buffers) and
  \<open>errno_defs\<close> (error codes) carry the component proofs.
\<close>

named_theorems kmonad \<open>running state-monad programs\<close>
named_theorems kelim \<open>taking a run of a state-monad program apart\<close>
named_theorems buf_simps \<open>reading and writing byte buffers\<close>
named_theorems errno_defs \<open>values of the error codes\<close>

subsection \<open>Machine types\<close>

type_synonym byte = "8 word"
type_synonym u8 = "8 word"
type_synonym u16 = "16 word"
type_synonym u32 = "32 word"
type_synonym u64 = "64 word"
type_synonym ptr = "64 word"
type_synonym bytes = "8 word list"

abbreviation NULL :: ptr where
  "NULL \<equiv> 0"

text \<open>What a bad memory access of kernel code does: the kernel oopses, the function never returns.\<close>

datatype kfault = Bad_access

text \<open>
  Error codes of \<^verbatim>\<open><errno.h>\<close>; the functions return them negated.
\<close>

definition EPERM :: int where [errno_defs]: "EPERM = 1"
definition EIO :: int where [errno_defs]: "EIO = 5"
definition ENXIO :: int where [errno_defs]: "ENXIO = 6"
definition ENOMEM :: int where [errno_defs]: "ENOMEM = 12"
definition EACCES :: int where [errno_defs]: "EACCES = 13"
definition EFAULT :: int where [errno_defs]: "EFAULT = 14"
definition EINVAL :: int where [errno_defs]: "EINVAL = 22"
definition ENOTTY :: int where [errno_defs]: "ENOTTY = 25"

subsection \<open>Byte buffers\<close>

definition mem_read :: "'a list \<Rightarrow> nat \<Rightarrow> nat \<Rightarrow> 'a list option" where
  "mem_read m off n = (if n = 0 \<or> off + n \<le> length m then Some (take n (drop off m)) else None)"

definition mem_write :: "'a list \<Rightarrow> nat \<Rightarrow> 'a list \<Rightarrow> 'a list option" where
  "mem_write m off xs =
     (if xs = [] \<or> off + length xs \<le> length m
      then Some (take off m @ xs @ drop (off + length xs) m) else None)"

text \<open>\<open>strlen\<close>: the bytes before the first NUL, if the buffer has one.\<close>

fun strlen :: "bytes \<Rightarrow> nat option" where
  "strlen [] = None"
| "strlen (b # bs) = (if b = 0 then Some 0 else map_option Suc (strlen bs))"

text \<open>The bytes of a string literal, without and with its terminating NUL.\<close>

definition bytes_of :: "string \<Rightarrow> bytes" where
  "bytes_of s = map (\<lambda>c. of_nat (of_char c)) s"

definition cstring :: "string \<Rightarrow> bytes" where
  "cstring s = bytes_of s @ [0]"

text \<open>The decimal digits \<^verbatim>\<open>%d\<close> prints for a number that is not negative.\<close>

fun decimal :: "nat \<Rightarrow> string" where
  "decimal n = (if n < 10 then [char_of (48 + n)] else decimal (n div 10) @ [char_of (48 + n mod 10)])"

declare decimal.simps [simp del]

text \<open>Reading and changing a component of a monadic state.\<close>

definition gets :: "('s \<Rightarrow> 'a) \<Rightarrow> ('s, 'a) state" where
  "gets f = State (\<lambda>s. (f s, s))"

definition modify :: "('s \<Rightarrow> 's) \<Rightarrow> ('s, unit) state" where
  "modify f = State (\<lambda>s. ((), f s))"

subsection \<open>Lemmas on buffers\<close>

lemma mem_read_Some [buf_simps]:
  "mem_read m off n = Some ys \<longleftrightarrow> (n = 0 \<or> off + n \<le> length m) \<and> ys = take n (drop off m)"
  by (auto simp: mem_read_def)

lemma mem_read_None [buf_simps]: "mem_read m off n = None \<longleftrightarrow> n \<noteq> 0 \<and> length m < off + n"
  by (auto simp: mem_read_def)

lemma mem_write_Some [buf_simps]:
  "mem_write m off xs = Some m' \<longleftrightarrow>
     (xs = [] \<or> off + length xs \<le> length m) \<and> m' = take off m @ xs @ drop (off + length xs) m"
  by (auto simp: mem_write_def)

lemma mem_write_None [buf_simps]: "mem_write m off xs = None \<longleftrightarrow> xs \<noteq> [] \<and> length m < off + length xs"
  by (auto simp: mem_write_def)

lemma mem_write_length: "mem_write m off xs = Some m' \<Longrightarrow> length m' = length m"
  by (auto simp: buf_simps)

lemma mem_read_write_same:
  "mem_write m off xs = Some m' \<Longrightarrow> mem_read m' off (length xs) = Some xs"
  by (auto simp: buf_simps)

lemma mem_write_nth:
  assumes "mem_write m off xs = Some m'" and "i < length m"
  shows "m' ! i = (if off \<le> i \<and> i < off + length xs then xs ! (i - off) else m ! i)"
  using assms by (auto simp: buf_simps nth_append)

lemma mem_read_write_other:
  assumes w: "mem_write m off xs = Some m'" and disj: "o2 + n \<le> off \<or> off + length xs \<le> o2"
  shows "mem_read m' o2 n = mem_read m o2 n"
proof (cases "o2 + n \<le> length m")
  case True
  have len: "length m' = length m" using w by (rule mem_write_length)
  have "take n (drop o2 m') = take n (drop o2 m)"
  proof (rule nth_equalityI)
    show "length (take n (drop o2 m')) = length (take n (drop o2 m))" by (simp add: len)
    fix i assume "i < length (take n (drop o2 m'))"
    then have "i < n" "o2 + i < length m" by (auto simp: len)
    with disj show "take n (drop o2 m') ! i = take n (drop o2 m) ! i"
      using mem_write_nth [OF w, of "o2 + i"] by (auto simp: len)
  qed
  with True show ?thesis by (simp add: mem_read_def len)
next
  case False
  with mem_write_length [OF w] show ?thesis by (simp add: mem_read_def)
qed

lemma strlen_Some_nth: "strlen bs = Some n \<Longrightarrow> n < length bs \<and> bs ! n = 0 \<and> (\<forall>i<n. bs ! i \<noteq> 0)"
  by (induction bs arbitrary: n) (auto split: if_splits simp: less_Suc_eq_0_disj)

lemma strlen_exists: "0 \<in> set bs \<Longrightarrow> \<exists>n. strlen bs = Some n"
  by (induction bs) auto

lemma strlen_append: "0 \<notin> set xs \<Longrightarrow> strlen (xs @ 0 # ys) = Some (length xs)"
  by (induction xs) auto

lemma strlen_nth_bound: "i < length bs \<Longrightarrow> bs ! i = 0 \<Longrightarrow> \<exists>n \<le> i. strlen bs = Some n"
proof (induction bs arbitrary: i)
  case (Cons b bs)
  show ?case
  proof (cases "b = 0")
    case False
    with Cons.prems obtain j where "i = Suc j" "j < length bs" "bs ! j = 0" by (cases i) auto
    with Cons.IH [of j] False show ?thesis by auto
  qed simp
qed simp

lemma length_bytes_of [simp]: "length (bytes_of s) = length s"
  by (simp add: bytes_of_def)

lemma unat_of_char: "unat (of_nat (of_char c) :: byte) = of_char c"
  using nat_of_char_less_256 [of c] by (simp add: unsigned_of_nat take_bit_nat_eq_self)

lemma string_of_bytes: "map (\<lambda>b. char_of (unat b)) (bytes_of s) = s"
  by (induction s) (simp_all add: bytes_of_def unat_of_char)

lemma nul_in_bytes_of: "0 \<in> set (bytes_of s) \<longleftrightarrow> CHR 0x00 \<in> set s"
proof -
  have "of_nat (of_char c) = (0 :: byte) \<longleftrightarrow> c = CHR 0x00" for c
  proof
    assume "of_nat (of_char c) = (0 :: byte)"
    then have "of_char c = (of_char (CHR 0x00) :: nat)" using unat_of_char [of c] by simp
    then show "c = CHR 0x00" by (simp only: of_char_eq_iff)
  qed simp
  then show ?thesis by (auto simp: bytes_of_def image_iff)
qed

lemma length_cstring [simp]: "length (cstring s) = Suc (length s)"
  by (simp add: cstring_def)

subsection \<open>Lemmas on machine words\<close>

lemma unat_ucast_widen: "unat (ucast (x :: u32) :: u64) = unat x"
proof -
  have "unat x < 2 ^ 64" using unsigned_less [of x, where ?'a = nat] by simp
  then show ?thesis by (simp add: unsigned_ucast_eq take_bit_nat_eq_self)
qed

lemma sint_nonneg:
  assumes "unat (x :: u32) < 2 ^ 31"
  shows "sint x = int (unat x)"
proof -
  have "uint x < 2 ^ 31" using assms by (metis of_nat_less_iff uint_nat of_nat_numeral of_nat_power)
  moreover have "- (2 ^ 31) \<le> uint x" by (rule order_trans [of _ 0]) simp_all
  ultimately have "sint x = uint x"
    by (simp add: sint_uint signed_take_bit_int_eq_self_iff)
  then show ?thesis by simp
qed

lemma unat_scast_widen:
  assumes "unat (x :: u32) < 2 ^ 31"
  shows "unat (scast x :: u64) = unat x"
proof -
  have "(scast x :: u64) = ucast x" using sint_nonneg [OF assms] by (simp add: scast_eq)
  then show ?thesis by (simp add: unat_ucast_widen)
qed

lemma sdiv_nonneg: "0 \<le> a \<Longrightarrow> 0 < b \<Longrightarrow> a sdiv b = a div (b :: int)"
  by (cases "a = 0") (simp_all add: signed_divide_int_def)

lemma unat_add_no_wrap: "unat a + unat x < 2 ^ 64 \<Longrightarrow> unat (a + x) = unat a + unat (x :: u64)"
  using unat_add_lem [of a x] by simp

lemma less_offset_iff:
  fixes a x y :: u64
  assumes "unat a + unat x < 2 ^ 64" "unat a + unat y < 2 ^ 64"
  shows "a + x < a + y \<longleftrightarrow> unat x < unat y"
  using assms by (simp add: word_less_nat_alt unat_add_no_wrap)

subsection \<open>The state monad\<close>

lemma run_gets [kmonad]: "run_state (gets f) s = (f s, s)"
  by (simp add: gets_def)

lemma run_modify [kmonad]: "run_state (modify f) s = ((), f s)"
  by (simp add: modify_def)

lemma run_state_if [kmonad]: "run_state (if b then m else n) s = (if b then run_state m s else run_state n s)"
  by simp

lemma run_state_case_sum [kmonad]:
  "run_state (case x of Inl a \<Rightarrow> f a | Inr b \<Rightarrow> g b) s =
     (case x of Inl a \<Rightarrow> run_state (f a) s | Inr b \<Rightarrow> run_state (g b) s)"
  by (cases x) simp_all

lemma run_state_case_option [kmonad]:
  "run_state (case x of None \<Rightarrow> m | Some b \<Rightarrow> g b) s =
     (case x of None \<Rightarrow> run_state m s | Some b \<Rightarrow> run_state (g b) s)"
  by (cases x) simp_all

declare run_state_bind [kmonad] run_state_return [kmonad]

declare run_state_bind [simp del]

text \<open>
  The same facts as elimination rules: a run of a sequence is taken apart into the runs of its
  parts, with a name for every intermediate result and state. The answers of the environment
  stay variables instead of growing terms.
\<close>

lemma run_bindE [kelim]:
  assumes "run_state (State_Monad.bind m f) s = (r, s')"
  obtains a s1 where "run_state m s = (a, s1)" and "run_state (f a) s1 = (r, s')"
  using assms by (cases "run_state m s") (simp add: run_state_bind)

lemma run_getsE [kelim]:
  assumes "run_state (gets f) s = (r, s')"
  obtains "r = f s" and "s' = s"
  using assms that unfolding run_gets prod.inject by blast

lemma run_modifyE [kelim]:
  assumes "run_state (modify f) s = (r, s')"
  obtains "s' = f s"
  using assms that unfolding run_modify prod.inject by blast

lemma run_returnE [kelim]:
  assumes "run_state (State_Monad.return x) s = (r, s')"
  obtains "r = x" and "s' = s"
  using assms that unfolding run_state_return prod.inject by blast

lemma run_ifE [kelim]:
  assumes "run_state (if b then m else n) s = (r, s')"
  obtains "b" and "run_state m s = (r, s')" | "\<not> b" and "run_state n s = (r, s')"
  using assms by (cases b) simp_all

subsection \<open>What a program does to its state\<close>

text \<open>
  A program keeps a relation if every run of it relates the state before to the state after. For a
  reflexive and transitive relation this can be read off the program's text, statement by statement.
\<close>

definition keeps :: "('s \<Rightarrow> 's \<Rightarrow> bool) \<Rightarrow> ('s, 'a) state \<Rightarrow> bool" where
  "keeps R m \<longleftrightarrow> (\<forall>s. R s (snd (run_state m s)))"

lemma keepsD: "keeps R m \<Longrightarrow> run_state m s = (r, s') \<Longrightarrow> R s s'"
  unfolding keeps_def by (metis snd_conv)

locale state_order =
  fixes R :: "'s \<Rightarrow> 's \<Rightarrow> bool"
  assumes refl: "R s s"
    and trans: "R s t \<Longrightarrow> R t u \<Longrightarrow> R s u"
begin

lemma keeps_bind: "keeps R m \<Longrightarrow> (\<And>a. keeps R (f a)) \<Longrightarrow> keeps R (State_Monad.bind m f)"
  unfolding keeps_def run_state_bind by (auto split: prod.split intro: trans)

lemma keeps_return: "keeps R (State_Monad.return x)"
  and keeps_gets: "keeps R (gets g)"
  by (simp_all add: keeps_def kmonad refl)

lemma keeps_if: "(b \<Longrightarrow> keeps R m) \<Longrightarrow> (\<not> b \<Longrightarrow> keeps R n) \<Longrightarrow> keeps R (if b then m else n)"
  by simp

lemma keeps_case_sum:
  "(\<And>a. keeps R (k a)) \<Longrightarrow> (\<And>c. keeps R (l c)) \<Longrightarrow> keeps R (case x of Inl a \<Rightarrow> k a | Inr c \<Rightarrow> l c)"
  by (cases x) simp_all

lemmas keeps_rules = keeps_bind keeps_return keeps_gets keeps_if keeps_case_sum

end

end
