(* ===== verification/Kernel.thy ===== *)
theory Kernel
  imports Prelude
begin

unbundle bit_operations_syntax

section \<open>The kernel as the modules see it\<close>

text \<open>
  The kernel modules under \<^verbatim>\<open>src/\<close> call functions of the Linux kernel that are not part of
  the repository. They are parameters of the model: a record \<open>kernel\<close> has one field per
  kernel function whose \<^emph>\<open>answer\<close> a module uses, and every field is given the whole log of
  calls so far, so the answers may depend on anything that happened before. Nothing is assumed
  about them in the definitions.

  Every call a module makes is appended to the log \<open>klog\<close> with its arguments and answer, in
  program order. The log is what the lifecycle theorems speak about: \<open>held\<close> reads off the log
  which kernel resources have been acquired and not yet released, by the documented pairing of
  the calls (\<open>vmalloc\<close>/\<open>vfree\<close>, \<open>register_blkdev\<close>/\<open>unregister_blkdev\<close>, and so on).

  A module's state is a record that extends \<open>kctx\<close>, so that the calls below run in the state
  of any module. The last part of the theory is the contract of a loadable module as a locale.
\<close>

subsection \<open>Calls, the log and the kernel's answers\<close>

text \<open>The arguments of a \<open>printk\<close> are kept as they are passed, beside its format string.\<close>

datatype karg = KInt int | KStr string | KPtr ptr

datatype (plugins only: code size) kevent =
    Printk string "karg list"
  | Vmalloc u64 ptr
  | Vfree ptr
  | Kmalloc u64 ptr
  | Kfree ptr
  | Spin_lock_init string
  | Spin_lock string
  | Spin_unlock string
  | Register_blkdev int string int
  | Unregister_blkdev int string
  | Blk_init_queue ptr
  | Blk_put_queue ptr
  | Blk_mq_init_queue "int + ptr"
  | Blk_cleanup_queue "int + ptr"
  | Blk_get_request ptr
  | Blk_mq_start_request ptr
  | Blk_mq_end_request ptr int
  | Kmap ptr
  | Kunmap ptr
  | Blk_queue_logical_block_size ptr u32
  | Alloc_disk int ptr
  | Set_capacity ptr u64
  | Add_disk ptr
  | Del_gendisk ptr
  | Put_disk ptr
  | Register_chrdev int string int
  | Unregister_chrdev int string
  | Alloc_chrdev_region u32 int string int
  | Unregister_chrdev_region u32 int
  | Cdev_alloc ptr
  | Cdev_init ptr
  | Cdev_add ptr u32 int int
  | Cdev_del ptr
  | Proc_mkdir string ptr ptr
  | Proc_create string int ptr ptr
  | Remove_proc_entry string ptr
  | Set_page_reserved ptr
  | Clear_page_reserved ptr
  | Get_page ptr
  | Copy_from_user u64 nat
  | Copy_to_user u64 nat
  | Inode_lock ptr
  | Inode_unlock ptr
  | Register_filesystem string int
  | Unregister_filesystem string
  | Kern_mount string "int + ptr"
  | Simple_release_fs "int + ptr"

type_synonym klog = "kevent list"

text \<open>The calls of a log without its messages.\<close>

definition is_message :: "kevent \<Rightarrow> bool" where
  "is_message e = (case e of Printk _ _ \<Rightarrow> True | _ \<Rightarrow> False)"

definition calls :: "klog \<Rightarrow> kevent list" where
  "calls l = filter (\<lambda>e. \<not> is_message e) l"

text \<open>
  A pointer that may be an error pointer (\<open>IS_ERR\<close>, \<open>PTR_ERR\<close>) is \<open>Inl e\<close> for
  \<open>ERR_PTR(e)\<close> and \<open>Inr p\<close> otherwise. \<open>copy_from_user\<close> and \<open>copy_to_user\<close> answer
  the number of bytes they could not copy.
\<close>

record kernel =
  vmalloc_ans :: "klog \<Rightarrow> u64 \<Rightarrow> ptr"
  vmalloc_bytes :: "klog \<Rightarrow> nat \<Rightarrow> byte"
  kmalloc_ans :: "klog \<Rightarrow> u64 \<Rightarrow> ptr"
  register_blkdev_ans :: "klog \<Rightarrow> int \<Rightarrow> string \<Rightarrow> int"
  blk_init_queue_ans :: "klog \<Rightarrow> ptr"
  blk_put_queue_ans :: "klog \<Rightarrow> ptr"
  blk_mq_init_queue_ans :: "klog \<Rightarrow> int + ptr"
  alloc_disk_ans :: "klog \<Rightarrow> int \<Rightarrow> ptr"
  register_chrdev_ans :: "klog \<Rightarrow> int \<Rightarrow> string \<Rightarrow> int"
  alloc_chrdev_region_ans :: "klog \<Rightarrow> int \<Rightarrow> string \<Rightarrow> int \<times> u32"
  cdev_alloc_ans :: "klog \<Rightarrow> ptr"
  cdev_add_ans :: "klog \<Rightarrow> ptr \<Rightarrow> u32 \<Rightarrow> int \<Rightarrow> int"
  dev_major :: "u32 \<Rightarrow> u32"
  dev_minor :: "u32 \<Rightarrow> u32"
  proc_mkdir_ans :: "klog \<Rightarrow> string \<Rightarrow> ptr \<Rightarrow> ptr"
  proc_create_ans :: "klog \<Rightarrow> string \<Rightarrow> ptr \<Rightarrow> ptr"
  vmalloc_to_page_ans :: "klog \<Rightarrow> ptr \<Rightarrow> ptr"
  vmalloc_to_pfn_ans :: "klog \<Rightarrow> ptr \<Rightarrow> u64"
  copy_from_user_ans :: "klog \<Rightarrow> u64 \<Rightarrow> nat"
  copy_from_user_tail :: "klog \<Rightarrow> nat \<Rightarrow> byte"
  copy_to_user_ans :: "klog \<Rightarrow> u64 \<Rightarrow> nat"
  blk_get_request_ans :: "klog \<Rightarrow> ptr"
  mq_rq_data_dir :: "ptr \<Rightarrow> int"
  mq_rq_pos :: "ptr \<Rightarrow> u64"
  mq_rq_sectors :: "ptr \<Rightarrow> u32"
  register_filesystem_ans :: "klog \<Rightarrow> string \<Rightarrow> int"
  current_pid :: "klog \<Rightarrow> int"
  current_comm :: "klog \<Rightarrow> string"
  current_uid_val :: "klog \<Rightarrow> u32"

record kctx =
  klog :: klog

subsection \<open>Making a call\<close>

definition log_event :: "kevent \<Rightarrow> ('a kctx_scheme, unit) state" where
  "log_event e = modify (\<lambda>s. s\<lparr>klog := klog s @ [e]\<rparr>)"

text \<open>\<open>kcall ans mk\<close>: the kernel answers from the log so far, and the call is recorded.\<close>

definition kcall :: "(klog \<Rightarrow> 'r) \<Rightarrow> ('r \<Rightarrow> kevent) \<Rightarrow> ('a kctx_scheme, 'r) state" where
  "kcall ans mk = do { r \<leftarrow> gets (\<lambda>s. ans (klog s)); log_event (mk r); State_Monad.return r }"

definition printk :: "string \<Rightarrow> karg list \<Rightarrow> ('a kctx_scheme, unit) state" where
  "printk fmt args = log_event (Printk fmt args)"

text \<open>The calls, as the source writes them. The kernel \<open>K\<close> is an argument where it answers.\<close>

abbreviation vmalloc :: "kernel \<Rightarrow> u64 \<Rightarrow> ('a kctx_scheme, ptr) state" where
  "vmalloc K n \<equiv> kcall (\<lambda>l. vmalloc_ans K l n) (Vmalloc n)"

abbreviation vfree :: "ptr \<Rightarrow> ('a kctx_scheme, unit) state" where
  "vfree p \<equiv> log_event (Vfree p)"

abbreviation kmalloc :: "kernel \<Rightarrow> u64 \<Rightarrow> ('a kctx_scheme, ptr) state" where
  "kmalloc K n \<equiv> kcall (\<lambda>l. kmalloc_ans K l n) (Kmalloc n)"

abbreviation kfree :: "ptr \<Rightarrow> ('a kctx_scheme, unit) state" where
  "kfree p \<equiv> log_event (Kfree p)"

abbreviation spin_lock_init :: "string \<Rightarrow> ('a kctx_scheme, unit) state" where
  "spin_lock_init x \<equiv> log_event (Spin_lock_init x)"

abbreviation spin_lock :: "string \<Rightarrow> ('a kctx_scheme, unit) state" where
  "spin_lock x \<equiv> log_event (Spin_lock x)"

abbreviation spin_unlock :: "string \<Rightarrow> ('a kctx_scheme, unit) state" where
  "spin_unlock x \<equiv> log_event (Spin_unlock x)"

abbreviation register_blkdev :: "kernel \<Rightarrow> int \<Rightarrow> string \<Rightarrow> ('a kctx_scheme, int) state" where
  "register_blkdev K m name \<equiv> kcall (\<lambda>l. register_blkdev_ans K l m name) (Register_blkdev m name)"

abbreviation unregister_blkdev :: "int \<Rightarrow> string \<Rightarrow> ('a kctx_scheme, unit) state" where
  "unregister_blkdev m name \<equiv> log_event (Unregister_blkdev m name)"

abbreviation blk_init_queue :: "kernel \<Rightarrow> ('a kctx_scheme, ptr) state" where
  "blk_init_queue K \<equiv> kcall (blk_init_queue_ans K) Blk_init_queue"

abbreviation blk_put_queue :: "kernel \<Rightarrow> ('a kctx_scheme, ptr) state" where
  "blk_put_queue K \<equiv> kcall (blk_put_queue_ans K) Blk_put_queue"

abbreviation blk_mq_init_queue :: "kernel \<Rightarrow> ('a kctx_scheme, int + ptr) state" where
  "blk_mq_init_queue K \<equiv> kcall (blk_mq_init_queue_ans K) Blk_mq_init_queue"

abbreviation blk_cleanup_queue :: "int + ptr \<Rightarrow> ('a kctx_scheme, unit) state" where
  "blk_cleanup_queue q \<equiv> log_event (Blk_cleanup_queue q)"

abbreviation blk_queue_logical_block_size :: "ptr \<Rightarrow> u32 \<Rightarrow> ('a kctx_scheme, unit) state" where
  "blk_queue_logical_block_size q n \<equiv> log_event (Blk_queue_logical_block_size q n)"

abbreviation alloc_disk :: "kernel \<Rightarrow> int \<Rightarrow> ('a kctx_scheme, ptr) state" where
  "alloc_disk K minors \<equiv> kcall (\<lambda>l. alloc_disk_ans K l minors) (Alloc_disk minors)"

abbreviation set_capacity :: "ptr \<Rightarrow> u64 \<Rightarrow> ('a kctx_scheme, unit) state" where
  "set_capacity p n \<equiv> log_event (Set_capacity p n)"

abbreviation add_disk :: "ptr \<Rightarrow> ('a kctx_scheme, unit) state" where
  "add_disk p \<equiv> log_event (Add_disk p)"

abbreviation del_gendisk :: "ptr \<Rightarrow> ('a kctx_scheme, unit) state" where
  "del_gendisk p \<equiv> log_event (Del_gendisk p)"

abbreviation put_disk :: "ptr \<Rightarrow> ('a kctx_scheme, unit) state" where
  "put_disk p \<equiv> log_event (Put_disk p)"

text \<open>
  The bytes that end up in the destination of \<open>copy_from_user\<close>: the source up to the part the
  call reports as not copied; what is left there is not specified.
\<close>

definition user_bytes :: "kernel \<Rightarrow> klog \<Rightarrow> bytes \<Rightarrow> bytes" where
  "user_bytes K l src =
     (let n = length src; left = min n (copy_from_user_ans K l (of_nat n))
      in take (n - left) src @ map (copy_from_user_tail K l) [n - left..<n])"

text \<open>The fields of \<^verbatim>\<open>struct gendisk\<close> that the two block drivers fill in.\<close>

record gendisk =
  gd_major :: int
  gd_first_minor :: int
  gd_fops :: string
  gd_private_data :: ptr
  gd_disk_name :: string
  gd_queue :: ptr

definition empty_gendisk :: gendisk where
  "empty_gendisk = \<lparr>gd_major = 0, gd_first_minor = 0, gd_fops = [], gd_private_data = NULL,
     gd_disk_name = [], gd_queue = NULL\<rparr>"

text \<open>The size of a page on the machines the modules run on.\<close>

definition PAGE_SIZE :: nat where
  "PAGE_SIZE = 4096"

text \<open>A newline, and the log-level prefixes of \<^verbatim>\<open><linux/kern_levels.h>\<close>.\<close>

abbreviation nl :: string where
  "nl \<equiv> [CHR 0x0A]"

definition KERN_ALERT :: string where "KERN_ALERT = [CHR 0x01, CHR ''1'']"
definition KERN_ERR :: string where "KERN_ERR = [CHR 0x01, CHR ''3'']"
definition KERN_WARNING :: string where "KERN_WARNING = [CHR 0x01, CHR ''4'']"
definition KERN_INFO :: string where "KERN_INFO = [CHR 0x01, CHR ''6'']"

definition pr_err :: "string \<Rightarrow> karg list \<Rightarrow> ('a kctx_scheme, unit) state" where
  "pr_err fmt args = printk (KERN_ERR @ fmt) args"

definition pr_warn :: "string \<Rightarrow> karg list \<Rightarrow> ('a kctx_scheme, unit) state" where
  "pr_warn fmt args = printk (KERN_WARNING @ fmt) args"

definition pr_info :: "string \<Rightarrow> karg list \<Rightarrow> ('a kctx_scheme, unit) state" where
  "pr_info fmt args = printk (KERN_INFO @ fmt) args"

subsection \<open>Resources\<close>

datatype resource =
    RMem ptr
  | RBlkdev int string
  | RQueue ptr
  | RDisk ptr
  | RAddedDisk ptr
  | RChrdev int string
  | RRegion u32 int
  | RCdev ptr
  | RAddedCdev ptr
  | RProc string ptr
  | RReservedPage ptr
  | RFilesystem string
  | RMount ptr

text \<open>
  What a call acquires when it succeeds. \<open>register_blkdev(0, name)\<close> answers the major number
  it allocated; with a major number given, that number is registered.
\<close>

fun acquires :: "kevent \<Rightarrow> resource multiset" where
  "acquires (Vmalloc _ p) = (if p = NULL then {#} else {#RMem p#})"
| "acquires (Kmalloc _ p) = (if p = NULL then {#} else {#RMem p#})"
| "acquires (Register_blkdev m name r) =
     (if r < 0 then {#} else {#RBlkdev (if m = 0 then r else m) name#})"
| "acquires (Blk_init_queue q) = (if q = NULL then {#} else {#RQueue q#})"
| "acquires (Blk_put_queue q) = (if q = NULL then {#} else {#RQueue q#})"
| "acquires (Blk_mq_init_queue r) = 
     (case r of Inl _ \<Rightarrow> {#} | Inr q \<Rightarrow> if q = NULL then {#} else {#RQueue q#})"
| "acquires (Alloc_disk _ p) = (if p = NULL then {#} else {#RDisk p#})"
| "acquires (Add_disk p) = {#RAddedDisk p#}"
| "acquires (Register_chrdev m name r) =
     (if r < 0 then {#} else {#RChrdev (if m = 0 then r else m) name#})"
| "acquires (Alloc_chrdev_region d n _ r) = (if r = 0 then {#RRegion d n#} else {#})"
| "acquires (Cdev_alloc p) = (if p = NULL then {#} else {#RCdev p#})"
| "acquires (Cdev_add p _ _ r) = (if r = 0 then {#RAddedCdev p#} else {#})"
| "acquires (Proc_mkdir name parent p) = (if p = NULL then {#} else {#RProc name parent#})"
| "acquires (Proc_create name _ parent p) = (if p = NULL then {#} else {#RProc name parent#})"
| "acquires (Set_page_reserved p) = {#RReservedPage p#}"
| "acquires (Register_filesystem name r) = (if r = 0 then {#RFilesystem name#} else {#})"
| "acquires (Kern_mount _ r) = (case r of Inl _ \<Rightarrow> {#} | Inr p \<Rightarrow> {#RMount p#})"
| "acquires _ = {#}"

fun releases :: "kevent \<Rightarrow> resource multiset" where
  "releases (Vfree p) = (if p = NULL then {#} else {#RMem p#})"
| "releases (Kfree p) = (if p = NULL then {#} else {#RMem p#})"
| "releases (Unregister_blkdev m name) = {#RBlkdev m name#}"
| "releases (Blk_cleanup_queue r) = (case r of Inl _ \<Rightarrow> {#} | Inr q \<Rightarrow> {#RQueue q#})"
| "releases (Del_gendisk p) = {#RAddedDisk p#}"
| "releases (Put_disk p) = {#RDisk p#}"
| "releases (Unregister_chrdev m name) = {#RChrdev m name#}"
| "releases (Unregister_chrdev_region d n) = {#RRegion d n#}"
| "releases (Cdev_del p) = {#RCdev p, RAddedCdev p#}"
| "releases (Remove_proc_entry name parent) = {#RProc name parent#}"
| "releases (Clear_page_reserved p) = {#RReservedPage p#}"
| "releases (Unregister_filesystem name) = {#RFilesystem name#}"
| "releases (Simple_release_fs r) = (case r of Inl _ \<Rightarrow> {#} | Inr p \<Rightarrow> {#RMount p#})"
| "releases _ = {#}"

definition held_step :: "resource multiset \<Rightarrow> kevent \<Rightarrow> resource multiset" where
  "held_step R e = R - releases e + acquires e"

definition held :: "klog \<Rightarrow> resource multiset" where
  "held l = foldl held_step {#} l"

subsection \<open>A concrete kernel for the witnesses\<close>

text \<open>
  A kernel that grants every request; its pointers are non-null, device 254 is the first dynamic
  major number.
\<close>

definition granting_kernel :: kernel where
  "granting_kernel = \<lparr>
     vmalloc_ans = (\<lambda>_ _. 0x10000), vmalloc_bytes = (\<lambda>_ _. 0),
     kmalloc_ans = (\<lambda>_ _. 0x20000),
     register_blkdev_ans = (\<lambda>_ _ _. 254),
     blk_init_queue_ans = (\<lambda>_. 0x30000), blk_put_queue_ans = (\<lambda>_. 0x30000),
     blk_mq_init_queue_ans = (\<lambda>_. Inr 0x30000),
     alloc_disk_ans = (\<lambda>_ _. 0x40000),
     register_chrdev_ans = (\<lambda>_ _ _. 0),
     alloc_chrdev_region_ans = (\<lambda>_ _ _. (0, 0xF000000)),
     cdev_alloc_ans = (\<lambda>_. 0x50000), cdev_add_ans = (\<lambda>_ _ _ _. 0),
     dev_major = drop_bit 20, dev_minor = take_bit 20,
     proc_mkdir_ans = (\<lambda>_ _ _. 0x60000), proc_create_ans = (\<lambda>_ _ _. 0x70000),
     vmalloc_to_page_ans = (\<lambda>_ a. a), vmalloc_to_pfn_ans = (\<lambda>_ a. drop_bit 12 a),
     copy_from_user_ans = (\<lambda>_ _. 0), copy_from_user_tail = (\<lambda>_ _. 0), copy_to_user_ans = (\<lambda>_ _. 0),
     blk_get_request_ans = (\<lambda>_. 0x90000), mq_rq_data_dir = (\<lambda>_. 0), mq_rq_pos = (\<lambda>_. 0),
     mq_rq_sectors = (\<lambda>_. 8),
     register_filesystem_ans = (\<lambda>_ _. 0),
     current_pid = (\<lambda>_. 1), current_comm = (\<lambda>_. ''init''), current_uid_val = (\<lambda>_. 0)\<rparr>"

subsection \<open>Lemmas\<close>

lemma run_log_event [kmonad]: "run_state (log_event e) s = ((), s\<lparr>klog := klog s @ [e]\<rparr>)"
  by (simp add: log_event_def kmonad)

lemma run_kcall [kmonad]:
  "run_state (kcall ans mk) s = (ans (klog s), s\<lparr>klog := klog s @ [mk (ans (klog s))]\<rparr>)"
  by (simp add: kcall_def kmonad)

lemma run_printk [kmonad]:
  "run_state (printk fmt args) s = ((), s\<lparr>klog := klog s @ [Printk fmt args]\<rparr>)"
  by (simp add: printk_def kmonad)

lemma run_pr_err [kmonad]:
  "run_state (pr_err fmt args) s = ((), s\<lparr>klog := klog s @ [Printk (KERN_ERR @ fmt) args]\<rparr>)"
  by (simp add: pr_err_def kmonad)

lemma run_pr_warn [kmonad]:
  "run_state (pr_warn fmt args) s = ((), s\<lparr>klog := klog s @ [Printk (KERN_WARNING @ fmt) args]\<rparr>)"
  by (simp add: pr_warn_def kmonad)

lemma run_pr_info [kmonad]:
  "run_state (pr_info fmt args) s = ((), s\<lparr>klog := klog s @ [Printk (KERN_INFO @ fmt) args]\<rparr>)"
  by (simp add: pr_info_def kmonad)

lemma run_log_eventE [kelim]:
  assumes "run_state (log_event e) s = (r, s')"
  obtains "s' = s\<lparr>klog := klog s @ [e]\<rparr>"
  using assms that unfolding run_log_event prod.inject by blast

text \<open>The answer of a call keeps its name; that it comes from the kernel is remembered beside it.\<close>

lemma run_kcallE [kelim]:
  assumes "run_state (kcall ans mk) s = (r, s')"
  obtains "ans (klog s) = r" and "s' = s\<lparr>klog := klog s @ [mk r]\<rparr>"
  using assms that unfolding run_kcall prod.inject by blast

lemma run_printkE [kelim]:
  assumes "run_state (printk fmt args) s = (r, s')"
  obtains "s' = s\<lparr>klog := klog s @ [Printk fmt args]\<rparr>"
  using assms that unfolding run_printk prod.inject by blast

lemmas pr_defs = pr_err_def pr_warn_def pr_info_def

lemma length_user_bytes [simp]: "length (user_bytes K l src) = length src"
  by (simp add: user_bytes_def Let_def)

lemma user_bytes_complete: "copy_from_user_ans K l (of_nat (length src)) = 0 \<Longrightarrow> user_bytes K l src = src"
  by (simp add: user_bytes_def)

lemma run_case_sumE [kelim]:
  assumes "run_state (case x of Inl a \<Rightarrow> f a | Inr b \<Rightarrow> g b) s = (r, s')"
  obtains a where "x = Inl a" and "run_state (f a) s = (r, s')"
  | b where "x = Inr b" and "run_state (g b) s = (r, s')"
  using assms by (cases x) simp_all

lemma calls_simps [simp]:
  "calls [] = []" "calls (l @ l') = calls l @ calls l'"
  "calls (e # l) = (if is_message e then calls l else e # calls l)"
  by (simp_all add: calls_def)

declare is_message_def [simp]

lemma held_Nil [simp]: "held [] = {#}"
  by (simp add: held_def)

lemma held_append [simp]: "held (l @ es) = foldl held_step (held l) es"
  by (simp add: held_def)

declare held_step_def [simp]

subsection \<open>The contract of a loadable module\<close>

text \<open>
  What \<open>insmod\<close> and \<open>rmmod\<close> rely on: when \<open>init\<close> returns 0 the module holds, beyond what
  was held before, exactly the resources its state records, and \<open>exit\<close> gives exactly those
  back. \<open>fresh\<close> says in which states the module may be loaded (its static variables as the
  loader sets them), \<open>ok\<close> which answers of the kernel the promise covers.
\<close>

locale kmodule =
  fixes init :: "kernel \<Rightarrow> ('a kctx_scheme, int) state"
    and exit_fn :: "kernel \<Rightarrow> ('a kctx_scheme, unit) state"
    and owned :: "'a kctx_scheme \<Rightarrow> resource multiset"
    and fresh :: "'a kctx_scheme \<Rightarrow> bool"
    and ok :: "kernel \<Rightarrow> bool"
  assumes init_acquires:
      "ok K \<Longrightarrow> fresh s \<Longrightarrow> run_state (init K) s = (0, s') \<Longrightarrow>
         held (klog s') = held (klog s) + owned s'"
    and exit_releases:
      "ok K \<Longrightarrow> fresh s \<Longrightarrow> run_state (init K) s = (0, s') \<Longrightarrow>
         run_state (exit_fn K) (s'\<lparr>klog := l\<rparr>) = ((), s'') \<Longrightarrow>
         held (klog s'') = held l - owned s'"
begin

lemma load_unload_balanced:
  assumes "ok K" "fresh s" "run_state (init K) s = (0, s')" "run_state (exit_fn K) s' = ((), s'')"
  shows "held (klog s'') = held (klog s)"
proof -
  have "held (klog s'') = held (klog s') - owned s'"
    using exit_releases [OF assms(1-3), of "klog s'"] assms(4) by simp
  then show ?thesis using init_acquires [OF assms(1-3)] by simp
qed

text \<open>
  Other modules may call the kernel between loading and unloading. As long as they leave the
  module's resources alone, unloading takes away exactly these.
\<close>

lemma unload_later:
  assumes "ok K" "fresh s" "run_state (init K) s = (0, s')"
    and "held l = R + owned s'"
    and "run_state (exit_fn K) (s'\<lparr>klog := l\<rparr>) = ((), s'')"
  shows "held (klog s'') = R"
  using exit_releases [OF assms(1-3) assms(5)] assms(4) by simp

end

text \<open>A module that also leaves nothing behind when its \<open>init\<close> fails.\<close>

locale kmodule_clean = kmodule +
  assumes init_fails_clean:
      "ok K \<Longrightarrow> fresh s \<Longrightarrow> run_state (init K) s = (r, s') \<Longrightarrow> r \<noteq> 0 \<Longrightarrow>
         held (klog s') = held (klog s)"
begin

text \<open>Whatever happens, loading (and unloading again if it succeeded) is balanced.\<close>

lemma insmod_rmmod_balanced:
  assumes "ok K" "fresh s" "run_state (init K) s = (r, s')"
    and "run_state (exit_fn K) s' = ((), s'')"
  shows "held (klog (if r = 0 then s'' else s')) = held (klog s)"
  using assms load_unload_balanced init_fails_clean by (cases "r = 0") auto

end

text \<open>
  Two modules in one kernel: they share nothing but the log. Whatever the order in which they are
  unloaded, both give their own resources back and leave the other's alone.
\<close>

locale module_pair =
  a: kmodule init_a exit_a owned_a fresh_a ok_a + b: kmodule init_b exit_b owned_b fresh_b ok_b
  for init_a :: "kernel \<Rightarrow> ('a kctx_scheme, int) state" and exit_a owned_a fresh_a ok_a
    and init_b :: "kernel \<Rightarrow> ('b kctx_scheme, int) state" and exit_b owned_b fresh_b ok_b
begin

lemma loaded_together:
  assumes "ok_a K" "ok_b K" "fresh_a s" "run_state (init_a K) s = (0, s1)"
    and "fresh_b t" "klog t = klog s1" "run_state (init_b K) t = (0, t1)"
  shows "held (klog t1) = held (klog s) + owned_a s1 + owned_b t1"
  using a.init_acquires [OF assms(1,3,4)] b.init_acquires [OF assms(2,5,7)] assms(6) by simp

lemma unload_in_loading_order:
  assumes "ok_a K" "ok_b K" "fresh_a s" "run_state (init_a K) s = (0, s1)"
    and "fresh_b t" "klog t = klog s1" "run_state (init_b K) t = (0, t1)"
    and "run_state (exit_a K) (s1\<lparr>klog := klog t1\<rparr>) = ((), s2)"
    and "run_state (exit_b K) (t1\<lparr>klog := klog s2\<rparr>) = ((), t2)"
  shows "held (klog t2) = held (klog s)"
  using a.exit_releases [OF assms(1,3,4,8)] b.exit_releases [OF assms(2,5,7,9)] loaded_together [OF assms(1-7)]
  by simp

lemma unload_in_reverse_order:
  assumes "ok_a K" "ok_b K" "fresh_a s" "run_state (init_a K) s = (0, s1)"
    and "fresh_b t" "klog t = klog s1" "run_state (init_b K) t = (0, t1)"
    and "run_state (exit_b K) t1 = ((), t2)"
    and "run_state (exit_a K) (s1\<lparr>klog := klog t2\<rparr>) = ((), s2)"
  shows "held (klog s2) = held (klog s)"
  using a.exit_releases [OF assms(1,3,4,9)] b.exit_releases [OF assms(2,5,7), of "klog t1" t2] assms(8)
    loaded_together [OF assms(1-7)]
  by simp

end

end
