(* ===== verification/Block_Store.thy ===== *)
theory Block_Store
  imports Prelude
begin

section \<open>The contract of a random-access store\<close>

text \<open>
  What the readers and writers of a disk rely on, whatever the disk is made of: a fixed size,
  accesses in multiples of a granule that succeed inside it, a read that returns what was last
  written, and writes that leave every other range alone. The clients' lemmas are proved once
  in the locale: a sequence of writes inside the store succeeds and keeps it well formed, it
  changes no range it does not touch, and a list of writes to pairwise disjoint ranges is read
  back range by range. The plain byte buffer of \<open>Prelude\<close> is the first interpretation; the
  block drivers interpret the locale on their own handlers.
\<close>

text \<open>A sequence of writes, each a pair of an offset and the data; it stops at a failed one.\<close>

primrec write_all :: "('s \<Rightarrow> nat \<Rightarrow> 'b list \<Rightarrow> 's option) \<Rightarrow> 's \<Rightarrow> (nat \<times> 'b list) list \<Rightarrow> 's option" where
  "write_all wr s [] = Some s"
| "write_all wr s (w # ws) =
     (case wr s (fst w) (snd w) of None \<Rightarrow> None | Some s' \<Rightarrow> write_all wr s' ws)"

definition disjoint_range :: "nat \<Rightarrow> nat \<Rightarrow> nat \<times> 'b list \<Rightarrow> bool" where
  "disjoint_range off n w \<longleftrightarrow> off + n \<le> fst w \<or> fst w + length (snd w) \<le> off"

fun disjoint_writes :: "(nat \<times> 'b list) list \<Rightarrow> bool" where
  "disjoint_writes [] = True"
| "disjoint_writes (w # ws) =
     (list_all (disjoint_range (fst w) (length (snd w))) ws \<and> disjoint_writes ws)"

definition fits :: "nat \<Rightarrow> nat \<Rightarrow> nat \<Rightarrow> nat \<Rightarrow> bool" where
  "fits granule sz off n \<longleftrightarrow> granule dvd off \<and> granule dvd n \<and> off + n \<le> sz"

locale block_store =
  fixes wf :: "'s \<Rightarrow> bool"
    and size_of :: "'s \<Rightarrow> nat"
    and granule :: nat
    and rd :: "'s \<Rightarrow> nat \<Rightarrow> nat \<Rightarrow> 'b list option"
    and wr :: "'s \<Rightarrow> nat \<Rightarrow> 'b list \<Rightarrow> 's option"
  assumes rd_inside:
      "wf s \<Longrightarrow> fits granule (size_of s) off n \<Longrightarrow> \<exists>ys. rd s off n = Some ys \<and> length ys = n"
    and wr_inside:
      "wf s \<Longrightarrow> fits granule (size_of s) off (length xs) \<Longrightarrow>
         \<exists>s'. wr s off xs = Some s' \<and> wf s' \<and> size_of s' = size_of s"
    and rd_wr_same:
      "wf s \<Longrightarrow> fits granule (size_of s) off (length xs) \<Longrightarrow> wr s off xs = Some s' \<Longrightarrow>
         rd s' off (length xs) = Some xs"
    and rd_wr_other:
      "wf s \<Longrightarrow> fits granule (size_of s) off (length xs) \<Longrightarrow> wr s off xs = Some s' \<Longrightarrow>
         fits granule (size_of s) o2 n \<Longrightarrow> disjoint_range o2 n (off, xs) \<Longrightarrow>
         rd s' o2 n = rd s o2 n"
begin

lemma wr_keeps:
  "wf s \<Longrightarrow> fits granule (size_of s) off (length xs) \<Longrightarrow> wr s off xs = Some s' \<Longrightarrow>
     wf s' \<and> size_of s' = size_of s"
  using wr_inside by fastforce

lemma write_all_inside:
  assumes "wf s" and "\<forall>w \<in> set ws. fits granule (size_of s) (fst w) (length (snd w))"
  shows "\<exists>s'. write_all wr s ws = Some s' \<and> wf s' \<and> size_of s' = size_of s"
  using assms
proof (induction ws arbitrary: s)
  case (Cons w ws)
  then obtain s1 where s1: "wr s (fst w) (snd w) = Some s1" "wf s1" "size_of s1 = size_of s"
    using wr_inside [of s "fst w" "snd w"] by auto
  then show ?case using Cons.IH [of s1] Cons.prems by simp
qed simp

lemma write_all_other:
  assumes "wf s" and "\<forall>w \<in> set ws. fits granule (size_of s) (fst w) (length (snd w))"
    and "fits granule (size_of s) off n" and "list_all (disjoint_range off n) ws"
    and "write_all wr s ws = Some s'"
  shows "rd s' off n = rd s off n"
  using assms
proof (induction ws arbitrary: s)
  case (Cons w ws)
  then obtain s1 where s1: "wr s (fst w) (snd w) = Some s1" "write_all wr s1 ws = Some s'"
    by (auto split: option.splits)
  with Cons.prems have "wf s1 \<and> size_of s1 = size_of s"
    using wr_keeps [of s "fst w" "snd w" s1] by simp
  moreover have "rd s1 off n = rd s off n"
    using rd_wr_other [of s "fst w" "snd w" s1 off n] Cons.prems s1 by simp
  ultimately show ?case using Cons.IH [of s1] Cons.prems s1 by simp
qed simp

lemma write_all_read_back:
  assumes "wf s" and "\<forall>w \<in> set ws. fits granule (size_of s) (fst w) (length (snd w))"
    and "disjoint_writes ws" and "write_all wr s ws = Some s'" and "w \<in> set ws"
  shows "rd s' (fst w) (length (snd w)) = Some (snd w)"
  using assms
proof (induction ws arbitrary: s)
  case (Cons v ws)
  then obtain s1 where s1: "wr s (fst v) (snd v) = Some s1" "write_all wr s1 ws = Some s'"
    by (auto split: option.splits)
  with Cons.prems have keep: "wf s1 \<and> size_of s1 = size_of s"
    using wr_keeps [of s "fst v" "snd v" s1] by simp
  show ?case
  proof (cases "w \<in> set ws")
    case True
    with keep Cons.prems s1 show ?thesis using Cons.IH [of s1] by simp
  next
    case False
    with Cons.prems have "w = v" by simp
    moreover have "rd s1 (fst v) (length (snd v)) = Some (snd v)"
      using rd_wr_same [of s "fst v" "snd v" s1] Cons.prems s1 by simp
    ultimately show ?thesis
      using write_all_other [of s1 ws "fst v" "length (snd v)" s'] keep Cons.prems s1 by simp
  qed
qed simp

end

text \<open>A store that also refuses every access that reaches past its end, up to some bound.\<close>

locale checked_store = block_store +
  fixes bound :: nat
  assumes rd_outside:
      "wf s \<Longrightarrow> granule dvd off \<Longrightarrow> granule dvd n \<Longrightarrow> 0 < n \<Longrightarrow> size_of s < off + n \<Longrightarrow>
         off + n < bound \<Longrightarrow> rd s off n = None"
    and wr_outside:
      "wf s \<Longrightarrow> granule dvd off \<Longrightarrow> off \<le> size_of s \<Longrightarrow> size_of s < off + length xs \<Longrightarrow>
         off + length xs < bound \<Longrightarrow> wr s off xs = None"
begin

lemma rd_iff_inside:
  assumes "wf s" "granule dvd off" "granule dvd n" "0 < n" "off + n < bound"
  shows "(\<exists>ys. rd s off n = Some ys) \<longleftrightarrow> off + n \<le> size_of s"
  using assms rd_inside [of s off n] rd_outside [of s off n]
  by (cases "off + n \<le> size_of s") (auto simp: fits_def)

lemma wr_iff_inside:
  assumes "wf s" "granule dvd off" "granule dvd length xs" "off \<le> size_of s" "off + length xs < bound"
  shows "(\<exists>s'. wr s off xs = Some s') \<longleftrightarrow> off + length xs \<le> size_of s"
  using assms wr_inside [of s off xs] wr_outside [of s off xs]
  by (cases "off + length xs \<le> size_of s") (auto simp: fits_def)

end

interpretation buffer: block_store "\<lambda>_. True" "length :: 'b list \<Rightarrow> nat" 1 mem_read mem_write
proof
  fix s :: "'b list" and off n and xs :: "'b list"
  assume "fits 1 (length s) off n"
  then show "\<exists>ys. mem_read s off n = Some ys \<and> length ys = n"
    by (auto simp: fits_def mem_read_def)
next
  fix s :: "'b list" and off and xs :: "'b list"
  assume "fits 1 (length s) off (length xs)"
  then show "\<exists>s'. mem_write s off xs = Some s' \<and> True \<and> length s' = length s"
    by (auto simp: fits_def mem_write_def)
next
  fix s s' :: "'b list" and off and xs :: "'b list"
  assume "mem_write s off xs = Some s'"
  then show "mem_read s' off (length xs) = Some xs" by (rule mem_read_write_same)
next
  fix s s' :: "'b list" and off o2 n and xs :: "'b list"
  assume "mem_write s off xs = Some s'" "disjoint_range o2 n (off, xs)"
  then show "mem_read s' o2 n = mem_read s o2 n"
    by (auto simp: disjoint_range_def intro: mem_read_write_other)
qed

end
