(* ===== verification/Ramdisk.thy ===== *)
theory Ramdisk
  imports Kernel Block_Store
begin

unbundle bit_operations_syntax

section \<open>The RAM-disk block driver\<close>

text \<open>
  \<^verbatim>\<open>src/exp4/exp_4_2_original.c\<close> and \<^verbatim>\<open>src/exp4/exp_4_2_ramdisk_driver.c\<close>, two versions of one
  driver: the second calls \<open>blk_put_queue\<close> where the first calls \<open>blk_init_queue\<close>, and
  \<open>blk_get_request\<close> where the first calls \<open>blk_fetch_request\<close>. The static variables are the
  record \<open>ramdisk_st\<close>; C's \<open>int\<close>, \<open>unsigned\<close> and \<open>unsigned short\<close> are words of their
  widths (the kernel is compiled with wrapping signed arithmetic), a pointer is a 64-bit word, and
  the bytes behind \<open>ramdisk\<close> are the list \<open>ramdisk_mem\<close>. A \<open>memcpy\<close> outside that list is a
  \<open>kfault\<close>.

  The block layer (the request queue and its requests) is a parameter, the record \<open>blk_layer\<close>
  over its own state \<open>'q\<close>; \<open>blk_layer_laws\<close> states what its documentation promises.
\<close>

subsection \<open>State\<close>

record ramdisk_st = kctx +
  mybdrv_ma_no :: int
  diskmb :: u32
  disk_size :: u32
  ramdisk :: ptr
  ramdisk_mem :: bytes
  my_gd :: ptr
  my_gendisk :: gendisk
  sector_size :: u16
  my_request_queue :: ptr

definition MY_DEVICE_NAME :: string where
  "MY_DEVICE_NAME = ''myramdisk''"

text \<open>The static variables when the module is loaded; \<open>mb\<close> is the module parameter \<open>size\<close>.\<close>

definition ramdisk_start :: "klog \<Rightarrow> u32 \<Rightarrow> ramdisk_st" where
  "ramdisk_start l mb = \<lparr>klog = l, mybdrv_ma_no = 0, diskmb = mb, disk_size = 0, ramdisk = NULL,
     ramdisk_mem = [], my_gd = NULL, my_gendisk = empty_gendisk, sector_size = 512,
     my_request_queue = NULL\<rparr>"

definition default_diskmb :: u32 where
  "default_diskmb = 256"

subsection \<open>The request handler\<close>

record ('q, 'r) blk_layer =
  blk_get_request :: "'q \<Rightarrow> 'r option \<times> 'q"
  blk_fetch_request :: "'q \<Rightarrow> 'r option \<times> 'q"
  blk_rq_cur_sectors :: "'q \<Rightarrow> 'r \<Rightarrow> u32"
  blk_rq_pos :: "'q \<Rightarrow> 'r \<Rightarrow> u64"
  rq_data_dir :: "'q \<Rightarrow> 'r \<Rightarrow> bool"
  bio_data_bytes :: "'q \<Rightarrow> 'r \<Rightarrow> nat \<Rightarrow> bytes"
  bio_data_store :: "'q \<Rightarrow> 'r \<Rightarrow> bytes \<Rightarrow> 'q"
  blk_end_request_cur :: "'q \<Rightarrow> 'r \<Rightarrow> int \<Rightarrow> bool \<times> 'q"

text \<open>
  The body of the loop up to the label \<open>done\<close>: the pointer is computed from a 32-bit product,
  the size is a 32-bit product read as \<open>int\<close>, the test compares pointers.
\<close>

definition rq_ptr :: "ramdisk_st \<Rightarrow> u32 \<Rightarrow> ptr" where
  "rq_ptr s sector = ramdisk s + ucast (sector * ucast (sector_size s))"

definition rq_size :: "ramdisk_st \<Rightarrow> u32 \<Rightarrow> u32" where
  "rq_size s nr_sectors = nr_sectors * ucast (sector_size s)"

definition my_request_body ::
  "('q, 'r) blk_layer \<Rightarrow> ramdisk_st \<Rightarrow> 'q \<Rightarrow> 'r \<Rightarrow> kfault + ramdisk_st \<times> 'q" where
  "my_request_body B s q rq =
     (let nr_sectors = blk_rq_cur_sectors B q rq;
          sector = ucast (blk_rq_pos B q rq);
          ptr = rq_ptr s sector;
          size = scast (rq_size s nr_sectors) :: u64
      in if ptr + size > ramdisk s + scast (disk_size s)
         then Inr (snd (run_state (pr_err (''end of device'' @ nl) []) s), q)
         else if rq_data_dir B q rq
         then let s1 = snd (run_state (pr_info (''writing at sector %d, %u sectors'' @ nl)
                         [KInt (uint sector), KInt (uint nr_sectors)]) s)
              in case mem_write (ramdisk_mem s1) (unat (ptr - ramdisk s))
                        (bio_data_bytes B q rq (unat size)) of
                   None \<Rightarrow> Inl Bad_access
                 | Some m \<Rightarrow> Inr (s1\<lparr>ramdisk_mem := m\<rparr>, q)
         else let s1 = snd (run_state (pr_info (''reading at sector %d, %u sectors'' @ nl)
                         [KInt (uint sector), KInt (uint nr_sectors)]) s)
              in case mem_read (ramdisk_mem s1) (unat (ptr - ramdisk s)) (unat size) of
                   None \<Rightarrow> Inl Bad_access
                 | Some xs \<Rightarrow> Inr (s1, bio_data_store B q rq xs))"

text \<open>
  The loop. \<open>res\<close> is never assigned after its initialisation, so every request is ended with 0.
  Whether the loop ends is up to the block layer: not returning is the value \<open>None\<close>.
\<close>

partial_function (option) my_request_loop ::
  "('q, 'r) blk_layer \<Rightarrow> ramdisk_st \<Rightarrow> 'q \<Rightarrow> 'r option \<Rightarrow> (kfault + ramdisk_st \<times> 'q) option" where
  "my_request_loop B s q rq =
     (case rq of
        None \<Rightarrow> Some (Inr (snd (run_state (pr_info (''handle request done'' @ nl) []) s), q))
      | Some r \<Rightarrow>
          (case my_request_body B s q r of
             Inl f \<Rightarrow> Some (Inl f)
           | Inr sq \<Rightarrow>
               (if fst (blk_end_request_cur B (snd sq) r 0)
                then my_request_loop B (fst sq) (snd (blk_end_request_cur B (snd sq) r 0)) (Some r)
                else my_request_loop B (fst sq)
                       (snd (blk_fetch_request B (snd (blk_end_request_cur B (snd sq) r 0))))
                       (fst (blk_fetch_request B (snd (blk_end_request_cur B (snd sq) r 0)))))))"

definition my_request_original ::
  "('q, 'r) blk_layer \<Rightarrow> ramdisk_st \<Rightarrow> 'q \<Rightarrow> (kfault + ramdisk_st \<times> 'q) option" where
  "my_request_original B s q =
     (let s1 = snd (run_state (pr_info (''start handle request'' @ nl) []) s);
          (rq, q1) = blk_fetch_request B q
      in my_request_loop B s1 q1 rq)"

definition my_request ::
  "('q, 'r) blk_layer \<Rightarrow> ramdisk_st \<Rightarrow> 'q \<Rightarrow> (kfault + ramdisk_st \<times> 'q) option" where
  "my_request B s q =
     (let s1 = snd (run_state (pr_info (''start handle request'' @ nl) []) s);
          (rq, q1) = blk_get_request B q
      in my_request_loop B s1 q1 rq)"

subsection \<open>The ioctl handler\<close>

definition HDIO_GETGEO :: u32 where
  "HDIO_GETGEO = 0x0301"

record hd_geometry =
  heads :: u8
  sectors :: u8
  cylinders :: u16
  start :: u64

definition fake_geometry :: "u32 \<Rightarrow> hd_geometry" where
  "fake_geometry dsize =
     (let size = (scast dsize :: u64) AND NOT 0x3f
      in \<lparr>heads = 2, sectors = 16, cylinders = ucast (signed_drop_bit 6 size), start = 4\<rparr>)"

text \<open>The result is the return value and the geometry that reached the caller's buffer, if it did.\<close>

definition my_ioctl :: "kernel \<Rightarrow> u32 \<Rightarrow> (ramdisk_st, int \<times> hd_geometry option) state" where
  "my_ioctl K cmd = do {
     pr_info (''cmd=%d'' @ nl) [KInt (uint cmd)];
     if cmd = HDIO_GETGEO then do {
       pr_info (''HIT HDIO_GETGEO'' @ nl) [];
       geo \<leftarrow> gets (\<lambda>s. fake_geometry (disk_size s));
       left \<leftarrow> kcall (\<lambda>l. copy_to_user_ans K l 16) (Copy_to_user 16);
       if left \<noteq> 0 then State_Monad.return (- EFAULT, None)
       else State_Monad.return (0, Some geo)
     } else do {
       pr_warn (''return -ENOTTY'' @ nl) [];
       State_Monad.return (- ENOTTY, None)
     }
   }"

text \<open>The statements of the other version are the same.\<close>

definition my_ioctl_original :: "kernel \<Rightarrow> u32 \<Rightarrow> (ramdisk_st, int \<times> hd_geometry option) state" where
  "my_ioctl_original = my_ioctl"

subsection \<open>Loading and unloading\<close>

definition vfree_ramdisk :: "(ramdisk_st, unit) state" where
  "vfree_ramdisk = do {
     p \<leftarrow> gets ramdisk;
     vfree p;
     modify (\<lambda>s. s\<lparr>ramdisk_mem := []\<rparr>)
   }"

text \<open>
  \<open>my_init\<close> of either version, over the call that makes the request queue and the
  message at the end. A C division of
  \<open>int\<close> by \<open>unsigned short\<close> is a signed 32-bit division.
\<close>

definition my_init_with ::
  "(ramdisk_st, ptr) state \<Rightarrow> string \<Rightarrow> kernel \<Rightarrow> (ramdisk_st, int) state" where
  "my_init_with make_queue msg K = do {
     modify (\<lambda>s. s\<lparr>disk_size := diskmb s * 1024 * 1024\<rparr>);
     spin_lock_init ''lock'';
     size \<leftarrow> gets (\<lambda>s. scast (disk_size s) :: u64);
     l \<leftarrow> gets klog;
     p \<leftarrow> vmalloc K size;
     modify (\<lambda>s. s\<lparr>ramdisk := p,
        ramdisk_mem := (if p = NULL then [] else map (vmalloc_bytes K l) [0..<unat size])\<rparr>);
     if p = NULL then State_Monad.return (- ENOMEM) else do {
       q \<leftarrow> make_queue;
       modify (\<lambda>s. s\<lparr>my_request_queue := q\<rparr>);
       if q = NULL then do { vfree_ramdisk; State_Monad.return (- ENOMEM) } else do {
         ss \<leftarrow> gets sector_size;
         blk_queue_logical_block_size q (ucast ss);
         ma \<leftarrow> register_blkdev K 0 MY_DEVICE_NAME;
         modify (\<lambda>s. s\<lparr>mybdrv_ma_no := ma\<rparr>);
         if ma < 0 then do {
           pr_err (''Failed registering mybdrv, returned %d'' @ nl) [KInt ma];
           vfree_ramdisk;
           State_Monad.return ma
         } else do {
           gd \<leftarrow> alloc_disk K 16;
           modify (\<lambda>s. s\<lparr>my_gd := gd\<rparr>);
           if gd = NULL then do {
             unregister_blkdev ma MY_DEVICE_NAME;
             vfree_ramdisk;
             State_Monad.return (- ENOMEM)
           } else do {
             modify (\<lambda>s. s\<lparr>my_gendisk := \<lparr>gd_major = ma, gd_first_minor = 0,
                gd_fops = ''mybdrv_fops'', gd_private_data = NULL, gd_disk_name = MY_DEVICE_NAME, gd_queue = q\<rparr>\<rparr>);
             dsize \<leftarrow> gets disk_size;
             set_capacity gd (word_of_int (sint dsize sdiv uint ss));
             add_disk gd;
             pr_info msg [KInt ma];
             mb \<leftarrow> gets diskmb;
             pr_info (''Capacity of ram disk is: %d MB'' @ nl) [KInt (sint mb)];
             State_Monad.return 0
           }
         }
       }
     }
   }"

definition my_init_original :: "kernel \<Rightarrow> (ramdisk_st, int) state" where
  "my_init_original K = my_init_with (blk_init_queue K) (''device successfully registered, Major No. = %d'' @ nl) K"

definition my_init :: "kernel \<Rightarrow> (ramdisk_st, int) state" where
  "my_init K = my_init_with (blk_put_queue K) (''device successfully   registered, Major No. = %d'' @ nl) K"

definition my_exit :: "kernel \<Rightarrow> (ramdisk_st, unit) state" where
  "my_exit K = do {
     gd \<leftarrow> gets my_gd;
     del_gendisk gd;
     put_disk gd;
     ma \<leftarrow> gets mybdrv_ma_no;
     unregister_blkdev ma MY_DEVICE_NAME;
     pr_info (''module successfully unloaded, Major No. = %d'' @ nl) [KInt ma];
     q \<leftarrow> gets my_request_queue;
     blk_cleanup_queue (Inr q);
     vfree_ramdisk
   }"

definition my_exit_original :: "kernel \<Rightarrow> (ramdisk_st, unit) state" where
  "my_exit_original = my_exit"

definition ramdisk_owned :: "ramdisk_st \<Rightarrow> resource multiset" where
  "ramdisk_owned s = {#RMem (ramdisk s), RQueue (my_request_queue s),
     RBlkdev (mybdrv_ma_no s) MY_DEVICE_NAME, RDisk (my_gd s), RAddedDisk (my_gd s)#}"

subsection \<open>The contract of the handlers\<close>

text \<open>A call that makes a request queue, as both versions' calls do.\<close>

definition makes_queue :: "(ptr \<Rightarrow> kevent) \<Rightarrow> bool" where
  "makes_queue ev \<longleftrightarrow>
     (\<forall>q. acquires (ev q) = (if q = NULL then {#} else {#RQueue q#}) \<and> releases (ev q) = {#})"

text \<open>
  A disk in working order: 512-byte sectors, a size below 2 GiB that is the length of the memory
  behind \<open>ramdisk\<close>, and memory that lies far enough below the end of the address space.
\<close>

definition ramdisk_wf :: "ramdisk_st \<Rightarrow> bool" where
  "ramdisk_wf s \<longleftrightarrow> sector_size s = 512 \<and> unat (disk_size s) < 2 ^ 31
     \<and> length (ramdisk_mem s) = unat (disk_size s) \<and> unat (ramdisk s) + 2 ^ 33 < 2 ^ 64"

text \<open>
  A segment of a request, as the block layer hands it over: start sector, number of sectors,
  direction, and for a write the data. A segment is \<open>small\<close> when its byte offset fits 32 bits and
  its length fits a positive \<open>int\<close>; every segment inside the disk's capacity is.
\<close>

record seg =
  seg_pos :: u64
  seg_n :: u32
  seg_write :: bool
  seg_data :: bytes

definition seg_small :: "seg \<Rightarrow> bool" where
  "seg_small g \<longleftrightarrow> unat (seg_pos g) * 512 < 2 ^ 32 \<and> unat (seg_n g) * 512 < 2 ^ 31
     \<and> (seg_write g \<longrightarrow> length (seg_data g) = unat (seg_n g) * 512)"

text \<open>The abstract disk: the bytes of the disk and the data handed back for reads so far.\<close>

definition apply_seg :: "nat \<Rightarrow> bytes \<times> bytes list \<Rightarrow> seg \<Rightarrow> bytes \<times> bytes list" where
  "apply_seg sz mo g =
     (let off = unat (seg_pos g) * 512; n = unat (seg_n g) * 512
      in if sz < off + n then mo
         else if seg_write g then (take off (fst mo) @ seg_data g @ drop (off + n) (fst mo), snd mo)
         else (fst mo, snd mo @ [take n (drop off (fst mo))]))"

text \<open>
  What the documentation of the block layer promises, over an observer \<open>pend\<close> (the segments still
  to be served, those of the request in hand first) and \<open>outs\<close> (the data copied into read
  buffers, in order): fetching hands over the next request with its segments, or \<open>NULL\<close> when
  nothing is left; the accessors describe the current segment; ending the current segment removes
  it and says whether its request has more.
\<close>

definition blk_layer_laws ::
  "('q, 'r) blk_layer \<Rightarrow> ('q \<Rightarrow> 'r option \<Rightarrow> seg list) \<Rightarrow> ('q \<Rightarrow> bytes list) \<Rightarrow> bool" where
  "blk_layer_laws B pend outs \<longleftrightarrow>
     (\<forall>fetch \<in> {blk_fetch_request B, blk_get_request B}. \<forall>q q' rq. fetch q = (rq, q') \<longrightarrow>
        pend q' rq = pend q None \<and> outs q' = outs q \<and> (rq = None \<longleftrightarrow> pend q None = []))
   \<and> (\<forall>q r g gs. pend q (Some r) = g # gs \<longrightarrow>
        blk_rq_pos B q r = seg_pos g \<and> blk_rq_cur_sectors B q r = seg_n g \<and>
        rq_data_dir B q r = seg_write g \<and>
        (seg_write g \<longrightarrow> bio_data_bytes B q r (length (seg_data g)) = seg_data g))
   \<and> (\<forall>q r xs rq. pend (bio_data_store B q r xs) rq = pend q rq \<and>
        outs (bio_data_store B q r xs) = outs q @ [xs])
   \<and> (\<forall>q r res g gs more q'. pend q (Some r) = g # gs \<longrightarrow>
        blk_end_request_cur B q r res = (more, q') \<longrightarrow>
        pend q' (if more then Some r else None) = gs \<and> (more \<longrightarrow> gs \<noteq> []) \<and> outs q' = outs q)"

text \<open>
  A block layer made of lists: the queue is a list of requests, each a list of segments; the
  current request is its head, and the data of read segments is collected in order.
\<close>

type_synonym list_queue = "seg list list \<times> bytes list"

fun list_fetch :: "list_queue \<Rightarrow> unit option \<times> list_queue" where
  "list_fetch ([], out) = (None, ([], out))"
| "list_fetch ([] # rs, out) = list_fetch (rs, out)"
| "list_fetch ((g # gs) # rs, out) = (Some (), ((g # gs) # rs, out))"

fun list_end :: "list_queue \<Rightarrow> bool \<times> list_queue" where
  "list_end ((g # gs) # rs, out) = (gs \<noteq> [], (gs # rs, out))"
| "list_end q = (False, q)"

definition list_layer :: "(list_queue, unit) blk_layer" where
  "list_layer = \<lparr>blk_get_request = list_fetch, blk_fetch_request = list_fetch,
     blk_rq_cur_sectors = (\<lambda>q _. seg_n (hd (hd (fst q)))), blk_rq_pos = (\<lambda>q _. seg_pos (hd (hd (fst q)))),
     rq_data_dir = (\<lambda>q _. seg_write (hd (hd (fst q)))),
     bio_data_bytes = (\<lambda>q _ n. take n (seg_data (hd (hd (fst q))))),
     bio_data_store = (\<lambda>q _ xs. (fst q, snd q @ [xs])),
     blk_end_request_cur = (\<lambda>q _ _. list_end q)\<rparr>"

fun list_pend :: "list_queue \<Rightarrow> unit option \<Rightarrow> seg list" where
  "list_pend (rs, out) None = concat rs"
| "list_pend ([] # rs, out) (Some _) = []"
| "list_pend ([], out) (Some _) = []"
| "list_pend ((g # gs) # rs, out) (Some _) = concat ((g # gs) # rs)"

text \<open>Reading and writing a range of whole sectors, as one request to the handler.\<close>

definition one_seg :: "nat \<Rightarrow> nat \<Rightarrow> bool \<Rightarrow> bytes \<Rightarrow> list_queue" where
  "one_seg off n w xs =
     ([[\<lparr>seg_pos = of_nat (off div 512), seg_n = of_nat (n div 512), seg_write = w, seg_data = xs\<rparr>]], [])"

definition ramdisk_read :: "ramdisk_st \<Rightarrow> nat \<Rightarrow> nat \<Rightarrow> bytes option" where
  "ramdisk_read s off n =
     (case my_request_original list_layer s (one_seg off n False []) of
        Some (Inr (s', rs, [xs])) \<Rightarrow> Some xs | _ \<Rightarrow> None)"

definition ramdisk_write :: "ramdisk_st \<Rightarrow> nat \<Rightarrow> bytes \<Rightarrow> ramdisk_st option" where
  "ramdisk_write s off xs =
     (case my_request_original list_layer s (one_seg off (length xs) True xs) of
        Some (Inr (s', q')) \<Rightarrow> Some s' | _ \<Rightarrow> None)"

subsection \<open>Lifecycle\<close>

lemma run_vfree_ramdisk [kmonad]:
  "run_state vfree_ramdisk s = ((), s\<lparr>klog := klog s @ [Vfree (ramdisk s)], ramdisk_mem := []\<rparr>)"
  by (simp add: vfree_ramdisk_def kmonad)

lemma run_vfree_ramdiskE [kelim]:
  assumes "run_state vfree_ramdisk s = (r, s')"
  obtains "s' = s\<lparr>klog := klog s @ [Vfree (ramdisk s)], ramdisk_mem := []\<rparr>"
  using assms that unfolding run_vfree_ramdisk prod.inject by blast

lemma makes_queue_calls [simp]: "makes_queue Blk_init_queue" "makes_queue Blk_put_queue"
  by (simp_all add: makes_queue_def)

lemma my_init_with_held:
  assumes "run_state (my_init_with (kcall ans ev) msg K) s = (0, s')" and "makes_queue ev"
  shows "held (klog s') = held (klog s) + ramdisk_owned s'"
  using assms unfolding my_init_with_def pr_defs makes_queue_def
  by (elim kelim; clarsimp simp: errno_defs ramdisk_owned_def)

lemma my_init_with_failed:
  assumes "run_state (my_init_with (kcall ans ev) msg K) s = (r, s')" and "makes_queue ev"
    and "r \<noteq> 0" and "my_request_queue s = NULL"
  shows "held (klog s') = held (klog s) +
           (if my_request_queue s' = NULL then {#} else {#RQueue (my_request_queue s')#})"
  using assms unfolding my_init_with_def pr_defs makes_queue_def
  by (elim kelim; clarsimp simp: errno_defs)

lemma my_exit_held:
  assumes "run_state (my_exit K) s = ((), s')" and "ramdisk s \<noteq> NULL"
  shows "held (klog s') = held (klog s) - ramdisk_owned s"
  using assms unfolding my_exit_def pr_defs
  by (elim kelim; clarsimp simp: ramdisk_owned_def add_mset_commute)

lemma my_init_with_memory:
  assumes "run_state (my_init_with (kcall ans ev) msg K) s = (0, s')"
  shows "ramdisk s' \<noteq> NULL \<and> disk_size s' = diskmb s * 1024 * 1024 \<and> sector_size s' = sector_size s
     \<and> length (ramdisk_mem s') = unat (scast (disk_size s') :: u64)
     \<and> my_gendisk s' = \<lparr>gd_major = mybdrv_ma_no s', gd_first_minor = 0, gd_fops = ''mybdrv_fops'',
          gd_private_data = NULL, gd_disk_name = MY_DEVICE_NAME, gd_queue = my_request_queue s'\<rparr>
     \<and> Set_capacity (my_gd s') (word_of_int (sint (disk_size s') sdiv uint (sector_size s'))) \<in> set (klog s')"
  using assms unfolding my_init_with_def pr_defs
  by (elim kelim; clarsimp simp: errno_defs)

lemma my_init_with_grants:
  assumes "\<And>l n. vmalloc_ans K l n \<noteq> NULL" "\<And>l. ans l \<noteq> NULL"
    "\<And>l m n. 0 \<le> register_blkdev_ans K l m n" "\<And>l n. alloc_disk_ans K l n \<noteq> NULL"
  shows "fst (run_state (my_init_with (kcall ans ev) msg K) s) = 0"
  using assms by (simp add: my_init_with_def kmonad not_less)

lemmas ramdisk_init_versions = my_init_original_def my_init_def

lemma my_init_held: "run_state (my_init K) s = (0, s') \<Longrightarrow> held (klog s') = held (klog s) + ramdisk_owned s'"
  and my_init_original_held:
    "run_state (my_init_original K) s = (0, s') \<Longrightarrow> held (klog s') = held (klog s) + ramdisk_owned s'"
  unfolding ramdisk_init_versions by (erule my_init_with_held, simp)+

lemma my_exit_after_init:
  assumes "run_state (my_init_with (kcall ans ev) msg K) s = (0, s')"
    and "run_state (my_exit K) (s'\<lparr>klog := l\<rparr>) = ((), s'')"
  shows "held (klog s'') = held l - ramdisk_owned s'"
  using my_exit_held [OF assms(2)] my_init_with_memory [OF assms(1)] by (simp add: ramdisk_owned_def)

interpretation ramdisk_original: kmodule my_init_original my_exit_original ramdisk_owned "\<lambda>_. True" "\<lambda>_. True"
  by unfold_locales
    (auto simp: my_init_original_held my_init_original_def my_exit_original_def intro: my_exit_after_init)

interpretation ramdisk_driver: kmodule my_init my_exit ramdisk_owned "\<lambda>_. True" "\<lambda>_. True"
  by unfold_locales
    (auto simp: my_init_held my_init_def intro: my_exit_after_init)

subsection \<open>Request handling\<close>

lemma rq_klog [simp]:
  "rq_ptr (s\<lparr>klog := l\<rparr>) sector = rq_ptr s sector" "rq_size (s\<lparr>klog := l\<rparr>) n = rq_size s n"
  by (simp_all add: rq_ptr_def rq_size_def)

lemma unat_rq_off:
  assumes "sector_size s = 512" "unat (pos::u64) * 512 < 2 ^ 32"
  shows "unat (rq_ptr s (ucast pos) - ramdisk s) = unat pos * 512"
proof -
  have "unat pos < 2 ^ 32" using assms(2) by simp
  then have "unat (ucast pos :: u32) = unat pos"
    by (simp add: unsigned_ucast_eq take_bit_nat_eq_self)
  then have "unat ((ucast pos :: u32) * 512) = unat pos * 512"
    using assms(2) by (simp add: unat_word_ariths)
  then show ?thesis using assms(1) by (simp add: rq_ptr_def unat_ucast_widen)
qed

lemma unat_rq_size:
  assumes "sector_size s = 512" "unat (n::u32) * 512 < 2 ^ 31"
  shows "unat (scast (rq_size s n) :: u64) = unat n * 512"
proof -
  have "unat (rq_size s n) = unat n * 512"
    using assms by (simp add: rq_size_def unat_word_ariths)
  then show ?thesis using assms(2) by (simp add: unat_scast_widen)
qed

lemma rq_bounds_test:
  assumes "ramdisk_wf s" "unat (pos :: u64) * 512 < 2 ^ 32" "unat (n :: u32) * 512 < 2 ^ 31"
  shows "rq_ptr s (ucast pos) + scast (rq_size s n) > ramdisk s + scast (disk_size s)
     \<longleftrightarrow> unat (disk_size s) < (unat pos + unat n) * 512"
proof -
  let ?off = "rq_ptr s (ucast pos) - ramdisk s" and ?sz = "scast (rq_size s n) :: u64"
  have wf: "sector_size s = 512" "unat (disk_size s) < 2 ^ 31" "unat (ramdisk s) + 2 ^ 33 < 2 ^ 64"
    using assms(1) by (simp_all add: ramdisk_wf_def)
  have off: "unat ?off = unat pos * 512" and sz: "unat ?sz = unat n * 512"
    using unat_rq_off [OF wf(1) assms(2)] unat_rq_size [OF wf(1) assms(3)] by simp_all
  have sum: "unat (?off + ?sz) = (unat pos + unat n) * 512"
    using unat_add_no_wrap [of ?off ?sz] off sz assms by simp
  have "rq_ptr s (ucast pos) + ?sz = ramdisk s + (?off + ?sz)" by simp
  moreover have "ramdisk s + scast (disk_size s) < ramdisk s + (?off + ?sz)
      \<longleftrightarrow> unat (scast (disk_size s) :: u64) < unat (?off + ?sz)"
    using less_offset_iff [of "ramdisk s" "scast (disk_size s)" "?off + ?sz"]
      sum wf assms(2,3) unat_scast_widen [OF wf(2)] by simp
  ultimately show ?thesis using sum unat_scast_widen [OF wf(2)] by simp
qed

lemma my_request_body_correct:
  assumes laws: "blk_layer_laws B pend outs" and wf: "ramdisk_wf s"
    and cur: "pend q (Some r) = g # gs" and small: "seg_small g"
  shows "\<exists>s' q'. my_request_body B s q r = Inr (s', q') \<and> ramdisk_wf s' \<and> disk_size s' = disk_size s
     \<and> pend q' (Some r) = g # gs
     \<and> (ramdisk_mem s', outs q') = apply_seg (unat (disk_size s)) (ramdisk_mem s, outs q) g"
proof -
  have seg: "blk_rq_pos B q r = seg_pos g" "blk_rq_cur_sectors B q r = seg_n g"
      "rq_data_dir B q r = seg_write g"
      "seg_write g \<Longrightarrow> bio_data_bytes B q r (length (seg_data g)) = seg_data g"
    and st: "\<And>xs rq. pend (bio_data_store B q r xs) rq = pend q rq"
      "\<And>xs. outs (bio_data_store B q r xs) = outs q @ [xs]"
    using laws cur unfolding blk_layer_laws_def by blast+
  have sm: "unat (seg_pos g) * 512 < 2 ^ 32" "unat (seg_n g) * 512 < 2 ^ 31"
    "seg_write g \<Longrightarrow> length (seg_data g) = unat (seg_n g) * 512"
    using small by (simp_all add: seg_small_def)
  have ss: "sector_size s = 512" and len: "length (ramdisk_mem s) = unat (disk_size s)"
    using wf by (simp_all add: ramdisk_wf_def)
  note test = rq_bounds_test [OF wf sm(1,2)]
  note off = unat_rq_off [OF ss sm(1)] and sz = unat_rq_size [OF ss sm(2)]
  show ?thesis
    using wf len seg sm st cur
    by (auto simp: my_request_body_def Let_def test off sz apply_seg_def ramdisk_wf_def kmonad
        mem_read_def mem_write_def)
qed

lemma my_request_loop_correct:
  assumes laws: "blk_layer_laws B pend outs" and wf: "ramdisk_wf s"
    and "pend q rq = gs" and "rq = None \<longleftrightarrow> gs = []" and "\<forall>g \<in> set gs. seg_small g"
  shows "\<exists>s' q'. my_request_loop B s q rq = Some (Inr (s', q')) \<and> ramdisk_wf s'
     \<and> disk_size s' = disk_size s \<and> pend q' None = []
     \<and> (ramdisk_mem s', outs q') = foldl (apply_seg (unat (disk_size s))) (ramdisk_mem s, outs q) gs"
  using assms(2-)
proof (induction gs arbitrary: s q rq)
  case Nil
  then show ?case by (simp add: my_request_loop.simps kmonad ramdisk_wf_def)
next
  case (Cons g gs)
  then obtain r where r: "rq = Some r" and pend: "pend q (Some r) = g # gs" by (cases rq) auto
  obtain s1 q1 where body: "my_request_body B s q r = Inr (s1, q1)" "ramdisk_wf s1"
      "disk_size s1 = disk_size s" "pend q1 (Some r) = g # gs"
      "(ramdisk_mem s1, outs q1) = apply_seg (unat (disk_size s)) (ramdisk_mem s, outs q) g"
    using my_request_body_correct [OF laws Cons.prems(1) pend] Cons.prems(4) by auto
  obtain more q2 where e: "blk_end_request_cur B q1 r 0 = (more, q2)" by force
  have q2: "pend q2 (if more then Some r else None) = gs" "more \<Longrightarrow> gs \<noteq> []" "outs q2 = outs q1"
    using laws body(4) e unfolding blk_layer_laws_def by blast+
  obtain rq3 q3 where f: "blk_fetch_request B q2 = (rq3, q3)" by force
  have q3: "pend q3 rq3 = pend q2 None" "outs q3 = outs q2" "rq3 = None \<longleftrightarrow> pend q2 None = []"
    using laws f unfolding blk_layer_laws_def by blast+
  have small: "\<forall>g \<in> set gs. seg_small g" using Cons.prems by simp
  have unf: "my_request_loop B s q rq =
      (if more then my_request_loop B s1 q2 (Some r) else my_request_loop B s1 q3 rq3)"
    unfolding r by (subst my_request_loop.simps) (simp add: body(1) e f)
  show ?case
  proof (cases more)
    case True
    then show ?thesis
      using Cons.IH [of s1 q2 "Some r"] body(2,3,5) q2 small unf by auto
  next
    case False
    then show ?thesis
      using Cons.IH [of s1 q3 rq3] body(2,3,5) q2 q3 small unf by auto
  qed
qed

lemma my_request_unfold:
  "my_request B s q = my_request_loop B (snd (run_state (pr_info (''start handle request'' @ nl) []) s))
     (snd (blk_get_request B q)) (fst (blk_get_request B q))"
  "my_request_original B s q =
     my_request_loop B (snd (run_state (pr_info (''start handle request'' @ nl) []) s))
     (snd (blk_fetch_request B q)) (fst (blk_fetch_request B q))"
  by (simp_all only: my_request_def my_request_original_def Let_def case_prod_beta)

lemma my_request_start:
  assumes laws: "blk_layer_laws B pend outs" and wf: "ramdisk_wf s"
    and small: "\<forall>g \<in> set (pend q None). seg_small g"
    and fetch: "fetch \<in> {blk_fetch_request B, blk_get_request B}"
  shows "\<exists>s' q'. my_request_loop B s (snd (fetch q)) (fst (fetch q)) = Some (Inr (s', q'))
     \<and> ramdisk_wf s' \<and> disk_size s' = disk_size s \<and> pend q' None = []
     \<and> (ramdisk_mem s', outs q') = foldl (apply_seg (unat (disk_size s))) (ramdisk_mem s, outs q) (pend q None)"
proof -
  obtain rq q1 where f: "fetch q = (rq, q1)" by force
  have q1: "pend q1 rq = pend q None" "outs q1 = outs q" "rq = None \<longleftrightarrow> pend q None = []"
    using laws fetch f unfolding blk_layer_laws_def by blast+
  show ?thesis using my_request_loop_correct [OF laws wf q1(1) q1(3) small] by (simp add: f q1)
qed

lemma ramdisk_wf_klog [simp]: "ramdisk_wf (s\<lparr>klog := l\<rparr>) = ramdisk_wf s"
  by (simp add: ramdisk_wf_def)

lemma my_request_correct:
  assumes "blk_layer_laws B pend outs" and "ramdisk_wf s"
    and "\<forall>g \<in> set (pend q None). seg_small g" and "handler = my_request \<or> handler = my_request_original"
  shows "\<exists>s' q'. handler B s q = Some (Inr (s', q')) \<and> ramdisk_wf s' \<and> disk_size s' = disk_size s
     \<and> pend q' None = []
     \<and> (ramdisk_mem s', outs q') = foldl (apply_seg (unat (disk_size s))) (ramdisk_mem s, outs q) (pend q None)"
proof -
  let ?s = "snd (run_state (pr_info (''start handle request'' @ nl) []) s)"
  have s: "ramdisk_wf ?s" "disk_size ?s = disk_size s" "ramdisk_mem ?s = ramdisk_mem s"
    using assms(2) by (simp_all add: kmonad)
  note start = my_request_start [OF assms(1) s(1) assms(3), unfolded s(2,3)]
  from assms(4) show ?thesis
    by (elim disjE) (simp_all only: my_request_unfold start insertI1 insertI2)
qed

subsection \<open>The disk as a store\<close>

lemma list_fetch_laws:
  "list_fetch q = (rq, q') \<Longrightarrow>
     list_pend q' rq = list_pend q None \<and> snd q' = snd q \<and> (rq = None \<longleftrightarrow> list_pend q None = [])"
  by (induction q rule: list_fetch.induct) auto

lemma list_pend_head:
  "list_pend q (Some r) = g # gs \<Longrightarrow> \<exists>gs' rs out. q = ((g # gs') # rs, out) \<and> gs = gs' @ concat rs"
  by (cases "(q, Some r)" rule: list_pend.cases) auto

lemma list_end_laws:
  assumes "list_pend q (Some r) = g # gs" and "list_end q = (cont, q')"
  shows "list_pend q' (if cont then Some r else None) = gs \<and> (cont \<longrightarrow> gs \<noteq> []) \<and> snd q' = snd q"
  using list_pend_head [OF assms(1)] assms(2) by (auto simp: neq_Nil_conv)

lemma list_pend_store: "list_pend (fst q, snd q @ [xs]) rq = list_pend q rq"
  by (cases "(q, rq)" rule: list_pend.cases) auto

lemma list_layer_laws: "blk_layer_laws list_layer list_pend snd"
  unfolding blk_layer_laws_def list_layer_def
  using list_fetch_laws list_end_laws by (auto simp: list_pend_store dest: list_pend_head)

lemma one_seg_request:
  assumes wf: "ramdisk_wf s" and fits: "fits 512 (unat (disk_size s)) off n" and len: "w \<Longrightarrow> length xs = n"
  shows "\<exists>s' q'. my_request_original list_layer s (one_seg off n w xs) = Some (Inr (s', q'))
     \<and> ramdisk_wf s' \<and> disk_size s' = disk_size s
     \<and> ramdisk_mem s' = (if w then take off (ramdisk_mem s) @ xs @ drop (off + n) (ramdisk_mem s)
                         else ramdisk_mem s)
     \<and> snd q' = (if w then [] else [take n (drop off (ramdisk_mem s))])"
proof -
  let ?g = "\<lparr>seg_pos = of_nat (off div 512), seg_n = of_nat (n div 512), seg_write = w, seg_data = xs\<rparr>"
  have size: "unat (disk_size s) < 2 ^ 31" using wf by (simp add: ramdisk_wf_def)
  have le: "off + n \<le> unat (disk_size s)" and al: "off div 512 * 512 = off" "n div 512 * 512 = n"
    using fits by (auto simp: fits_def)
  have u: "unat (seg_pos ?g) * 512 = off" "unat (seg_n ?g) * 512 = n"
    using le size al by (simp_all add: unat_of_nat)
  have small: "\<forall>g \<in> set (list_pend (one_seg off n w xs) None). seg_small g"
    using le size len u by (simp add: one_seg_def seg_small_def)
  from my_request_correct [OF list_layer_laws wf small, of my_request_original]
  obtain s' q' where r: "my_request_original list_layer s (one_seg off n w xs) = Some (Inr (s', q'))"
    and wf': "ramdisk_wf s'" "disk_size s' = disk_size s"
    and eff: "(ramdisk_mem s', snd q') = apply_seg (unat (disk_size s)) (ramdisk_mem s, []) ?g"
    by (auto simp: one_seg_def)
  have "apply_seg (unat (disk_size s)) (ramdisk_mem s, []) ?g =
    (if w then (take off (ramdisk_mem s) @ xs @ drop (off + n) (ramdisk_mem s), [])
     else (ramdisk_mem s, [take n (drop off (ramdisk_mem s))]))"
    using le u by (simp add: apply_seg_def Let_def)
  with r wf' eff show ?thesis by (cases w) auto
qed

lemma ramdisk_read_inside:
  assumes "ramdisk_wf s" "fits 512 (unat (disk_size s)) off n"
  shows "ramdisk_read s off n = mem_read (ramdisk_mem s) off n"
  using one_seg_request [OF assms, of False "[]"] assms
  by (auto simp: ramdisk_read_def mem_read_def fits_def ramdisk_wf_def)

lemma ramdisk_write_inside:
  assumes "ramdisk_wf s" "fits 512 (unat (disk_size s)) off (length xs)"
  shows "\<exists>s'. ramdisk_write s off xs = Some s' \<and> ramdisk_wf s' \<and> disk_size s' = disk_size s
     \<and> mem_write (ramdisk_mem s) off xs = Some (ramdisk_mem s')"
  using one_seg_request [OF assms, of True xs] assms
  by (auto simp: ramdisk_write_def mem_write_def fits_def ramdisk_wf_def)

interpretation ramdisk: block_store ramdisk_wf "\<lambda>s. unat (disk_size s)" 512 ramdisk_read ramdisk_write
proof
  fix s :: ramdisk_st and off n
  assume wf: "ramdisk_wf s" and fits: "fits 512 (unat (disk_size s)) off n"
  then show "\<exists>ys. ramdisk_read s off n = Some ys \<and> length ys = n"
    by (auto simp: ramdisk_read_inside mem_read_def fits_def ramdisk_wf_def)
next
  fix s :: ramdisk_st and off and xs :: bytes
  assume "ramdisk_wf s" "fits 512 (unat (disk_size s)) off (length xs)"
  then show "\<exists>s'. ramdisk_write s off xs = Some s' \<and> ramdisk_wf s' \<and> unat (disk_size s') = unat (disk_size s)"
    using ramdisk_write_inside by fastforce
next
  fix s s' :: ramdisk_st and off and xs :: bytes
  assume a: "ramdisk_wf s" "fits 512 (unat (disk_size s)) off (length xs)" "ramdisk_write s off xs = Some s'"
  then have "ramdisk_wf s'" "disk_size s' = disk_size s" "mem_write (ramdisk_mem s) off xs = Some (ramdisk_mem s')"
    using ramdisk_write_inside [of s off xs] by auto
  with a(2) show "ramdisk_read s' off (length xs) = Some xs"
    using mem_read_write_same by (simp add: ramdisk_read_inside)
next
  fix s s' :: ramdisk_st and off o2 n and xs :: bytes
  assume a: "ramdisk_wf s" "fits 512 (unat (disk_size s)) off (length xs)" "ramdisk_write s off xs = Some s'"
    "fits 512 (unat (disk_size s)) o2 n" "disjoint_range o2 n (off, xs)"
  then have "ramdisk_wf s'" "disk_size s' = disk_size s" "mem_write (ramdisk_mem s) off xs = Some (ramdisk_mem s')"
    using ramdisk_write_inside [of s off xs] by auto
  with a show "ramdisk_read s' o2 n = ramdisk_read s o2 n"
    using mem_read_write_other [of "ramdisk_mem s" off xs "ramdisk_mem s'" o2 n]
    by (simp add: ramdisk_read_inside disjoint_range_def)
qed

subsection \<open>Geometry\<close>

lemma geometry_bits: "(ucast (signed_drop_bit 6 (x AND - 64)) :: u16) = ucast (drop_bit 6 (x :: u64))"
proof (rule bit_word_eqI)
  fix n assume "n < LENGTH(16)"
  then have n: "n < 16" by simp
  have mask: "(- 64 :: u64) = NOT (mask 6)" by (simp add: mask_eq_exp_minus_1)
  from n show "bit (ucast (signed_drop_bit 6 (x AND - 64)) :: u16) n = bit (ucast (drop_bit 6 x) :: u16) n"
    unfolding mask
    by (simp add: bit_unsigned_iff bit_signed_drop_bit_iff bit_drop_bit_eq bit_and_iff bit_not_iff
        bit_mask_iff)
qed

lemma cylinders_fake:
  assumes "unat d < 2 ^ 31"
  shows "unat (cylinders (fake_geometry d)) = unat d div 64 mod 65536"
proof -
  have "unat (drop_bit 6 (scast d :: u64)) = unat d div 64"
    using unat_scast_widen [OF assms] by (simp add: drop_bit_eq_div unat_div)
  then have "unat (ucast (drop_bit 6 (scast d :: u64)) :: u16) = unat d div 64 mod 65536"
    by (simp add: unsigned_ucast_eq take_bit_eq_mod)
  then show ?thesis by (simp add: fake_geometry_def Let_def geometry_bits)
qed

subsection \<open>Properties\<close>

definition demo_disk :: ramdisk_st where
  "demo_disk = (ramdisk_start [] 1)\<lparr>disk_size := 1024, ramdisk := 0x10000, ramdisk_mem := replicate 1024 0\<rparr>"

definition demo_write :: seg where
  "demo_write = \<lparr>seg_pos = 1, seg_n = 1, seg_write = True, seg_data = replicate 512 7\<rparr>"

definition demo_read :: seg where
  "demo_read = \<lparr>seg_pos = 1, seg_n = 1, seg_write = False, seg_data = []\<rparr>"

definition demo_beyond :: seg where
  "demo_beyond = \<lparr>seg_pos = 2, seg_n = 1, seg_write = True, seg_data = replicate 512 9\<rparr>"

lemmas demo_defs = demo_disk_def demo_write_def demo_read_def demo_beyond_def ramdisk_start_def

lemma demo_disk_wf: "ramdisk_wf demo_disk"
  by (simp add: ramdisk_wf_def demo_defs)



text \<open>
  Property C13. The disk is a store: after any list of writes of whole sectors to pairwise disjoint
  ranges inside the disk, each as a request to the handler, every write has succeeded, a read of
  any written range returns the data written there, and a range that no write touches reads as
  before.
\<close>

theorem ramdisk_writes_read_back:
  assumes "ramdisk_wf s" and "\<forall>w \<in> set ws. fits 512 (unat (disk_size s)) (fst w) (length (snd w))"
    and "disjoint_writes ws"
  shows "\<exists>s'. write_all ramdisk_write s ws = Some s'
     \<and> (\<forall>w \<in> set ws. ramdisk_read s' (fst w) (length (snd w)) = Some (snd w))
     \<and> (\<forall>off n. fits 512 (unat (disk_size s)) off n \<longrightarrow> list_all (disjoint_range off n) ws \<longrightarrow>
           ramdisk_read s' off n = ramdisk_read s off n)"
proof -
  obtain s' where s': "write_all ramdisk_write s ws = Some s'"
    using ramdisk.write_all_inside [OF assms(1,2)] by auto
  show ?thesis
    using s' ramdisk.write_all_read_back [OF assms s'] ramdisk.write_all_other [OF assms(1,2) _ _ s'] by blast
qed

theorem ramdisk_writes_read_back_witness:
  "\<exists>s'. write_all ramdisk_write demo_disk [(512, replicate 512 7), (0, replicate 512 3)] = Some s'
     \<and> ramdisk_read s' 0 512 = Some (replicate 512 3) \<and> ramdisk_read s' 512 512 = Some (replicate 512 7)"
proof -
  let ?ws = "[(512, replicate 512 7), (0, replicate 512 3)] :: (nat \<times> bytes) list"
  have "\<forall>w \<in> set ?ws. fits 512 (unat (disk_size demo_disk)) (fst w) (length (snd w))" "disjoint_writes ?ws"
    by (simp_all add: fits_def disjoint_range_def demo_defs)
  from ramdisk_writes_read_back [OF demo_disk_wf this] show ?thesis by auto
qed

text \<open>
  Property C27. The bounds check of the request handler works on 32-bit products, so it does not see
  the upper bits of the sector number: a write to a sector \<open>2 ^ 23\<close> (4 GiB) beyond a sector of the disk
  passes the check and overwrites that sector.
\<close>

theorem my_request_sector_wraps:
  assumes "ramdisk_wf s" and "(unat pos + 1) * 512 \<le> unat (disk_size s)" and "length xs = 512"
  shows "\<exists>s' q'. my_request_original list_layer s
       ([[\<lparr>seg_pos = pos + 2 ^ 23, seg_n = 1, seg_write = True, seg_data = xs\<rparr>]], []) = Some (Inr (s', q'))
     \<and> ramdisk_mem s' = take (unat pos * 512) (ramdisk_mem s) @ xs @ drop (unat pos * 512 + 512) (ramdisk_mem s)"
proof -
  have ss: "sector_size s = 512" and size: "unat (disk_size s) < 2 ^ 31" using assms(1) by (simp_all add: ramdisk_wf_def)
  have u: "unat pos < 2 ^ 22" using assms(2) size by simp
  then have "unat (ucast (pos + 2 ^ 23) :: u32) = unat pos + 2 ^ 23" "unat (ucast pos :: u32) = unat pos"
    by (simp_all add: unsigned_ucast_eq unat_word_ariths take_bit_eq_mod)
  then have "unat ((ucast (pos + 2 ^ 23) :: u32) * 512) = unat ((ucast pos :: u32) * 512)"
    using u by (simp add: unat_word_ariths)
  then have "(ucast (pos + 2 ^ 23) :: u32) * 512 = ucast pos * 512"
    by (simp only: word_unat_eq_iff)
  then have ptr: "rq_ptr s (ucast (pos + 8388608)) = rq_ptr s (ucast pos)" by (simp add: rq_ptr_def ss)
  have small: "unat pos * 512 < 2 ^ 32" "unat (1 :: u32) * 512 < 2 ^ 31" using assms(2) size by simp_all
  note test = rq_bounds_test [OF assms(1) small]
  have off: "unat (rq_ptr s (ucast pos) - ramdisk s) = unat pos * 512" by (rule unat_rq_off [OF ss small(1)])
  have sz: "unat (scast (rq_size s 1) :: u64) = 512" using unat_rq_size [OF ss small(2)] by simp
  show ?thesis
    using assms test
    by (simp add: my_request_unfold my_request_loop.simps list_layer_def my_request_body_def Let_def kmonad
        ptr off sz mem_write_def ramdisk_wf_def)
qed

theorem my_request_sector_wraps_witness:
  "\<exists>s' q'. my_request_original list_layer demo_disk
       ([[\<lparr>seg_pos = 1 + 2 ^ 23, seg_n = 1, seg_write = True, seg_data = replicate 512 9\<rparr>]], []) = Some (Inr (s', q'))
     \<and> ramdisk_mem s' = replicate 512 0 @ replicate 512 9"
proof -
  have "(unat (1 :: u64) + 1) * 512 \<le> unat (disk_size demo_disk)" by (simp add: demo_defs)
  from my_request_sector_wraps [OF demo_disk_wf this, of "replicate 512 9"] show ?thesis
    by (simp add: demo_defs)
qed

text \<open>
  Property C25. A successful load makes a disk in working order: if the kernel gives memory far
  enough below the end of the address space and the module parameter is below 2048 (MiB), then
  after \<open>my_init\<close> returns 0 the state is well formed, the disk has that many MiB, and the capacity
  announced to the block layer is the size in sectors.
\<close>

theorem my_init_makes_disk:
  assumes "run_state (init K) (ramdisk_start l mb) = (0, s')" and "init = my_init \<or> init = my_init_original"
    and "unat mb < 2048" and "unat (ramdisk s') + 2 ^ 33 < 2 ^ 64"
  shows "ramdisk_wf s' \<and> unat (disk_size s') = unat mb * 2 ^ 20
     \<and> Set_capacity (my_gd s') (of_nat (unat mb * 2048)) \<in> set (klog s')
     \<and> gd_queue (my_gendisk s') = my_request_queue s' \<and> gd_major (my_gendisk s') = mybdrv_ma_no s'"
proof -
  from assms(1,2) obtain ans ev msg
    where "run_state (my_init_with (kcall ans ev) msg K) (ramdisk_start l mb) = (0, s')"
    unfolding ramdisk_init_versions by auto
  note m = my_init_with_memory [OF this]
  have size: "unat (disk_size s') = unat mb * 2 ^ 20"
    using m assms(3) by (simp add: ramdisk_start_def unat_word_ariths)
  then have lt: "unat (disk_size s') < 2 ^ 31" using assms(3) by simp
  note scast = unat_scast_widen [OF lt]
  have sint: "sint (disk_size s') = int (unat mb) * 1048576"
    using size sint_nonneg [OF lt] by simp
  have "sint (disk_size s') sdiv uint (512 :: u16) = int (unat mb * 2048)"
    by (simp add: sint sdiv_nonneg)
  then have cap: "(word_of_int (sint (disk_size s') sdiv uint (512 :: u16)) :: u64) = of_nat (unat mb * 2048)"
    by (simp only: of_int_of_nat_eq)
  have wf: "ramdisk_wf s'"
    using m size scast assms(3,4) by (simp add: ramdisk_wf_def ramdisk_start_def)
  have "sector_size s' = 512" using m by (simp add: ramdisk_start_def)
  with m cap have "Set_capacity (my_gd s') (of_nat (unat mb * 2048)) \<in> set (klog s')" by metis
  with wf size m show ?thesis by simp
qed

lemma granted_init:
  "\<exists>s'. run_state (my_init granting_kernel) s = (0, s')" "\<exists>s'. run_state (my_init_original granting_kernel) s = (0, s')"
  unfolding ramdisk_init_versions
  using my_init_with_grants [of granting_kernel] by (simp_all add: granting_kernel_def prod_eq_iff)

theorem my_init_makes_disk_witness:
  "\<exists>s'. run_state (my_init granting_kernel) (ramdisk_start [] 256) = (0, s') \<and> ramdisk_wf s'
     \<and> unat (disk_size s') = 256 * 2 ^ 20 \<and> Set_capacity (my_gd s') 524288 \<in> set (klog s')"
proof -
  obtain s' where run: "run_state (my_init granting_kernel) (ramdisk_start [] 256) = (0, s')"
    using granted_init by blast
  have "ramdisk s' = 0x10000"
    using run unfolding ramdisk_init_versions my_init_with_def pr_defs
    by (elim kelim; clarsimp simp: errno_defs granting_kernel_def)
  then show ?thesis using run my_init_makes_disk [of my_init granting_kernel "[]" 256 s'] by simp
qed


definition busy_kernel :: kernel where
  "busy_kernel = granting_kernel\<lparr>register_blkdev_ans := (\<lambda>_ _ _. - 16)\<rparr>"


text \<open>
  The geometry of the ioctl: for \<open>HDIO_GETGEO\<close> the caller gets 2 heads, 16 sectors,
  start 4 and a 16-bit cylinder count, the size in 64-byte units modulo 65536; a copy that fails is
  \<open>-EFAULT\<close> and every other command \<open>-ENOTTY\<close>.
\<close>

lemma my_ioctl_result:
  assumes "unat (disk_size s) < 2 ^ 31"
  shows "fst (run_state (my_ioctl K cmd) s) =
     (if cmd \<noteq> HDIO_GETGEO then (- ENOTTY, None)
      else if copy_to_user_ans K (klog s @ [Printk (KERN_INFO @ ''cmd=%d'' @ nl) [KInt (uint cmd)],
             Printk (KERN_INFO @ ''HIT HDIO_GETGEO'' @ nl) []]) 16 \<noteq> 0 then (- EFAULT, None)
      else (0, Some \<lparr>heads = 2, sectors = 16,
             cylinders = of_nat (unat (disk_size s) div 64 mod 65536), start = 4\<rparr>))"
proof -
  have "cylinders (fake_geometry (disk_size s)) = of_nat (unat (disk_size s) div 64 mod 65536)"
    using cylinders_fake [OF assms] by (metis of_nat_unat ucast_id)
  then have "fake_geometry (disk_size s) = \<lparr>heads = 2, sectors = 16,
             cylinders = of_nat (unat (disk_size s) div 64 mod 65536), start = 4\<rparr>"
    by (simp add: fake_geometry_def Let_def)
  then show ?thesis by (simp add: my_ioctl_def kmonad)
qed

text \<open>
  On the disk the module makes, the cylinder count is 0 whenever the size in MiB is a
  multiple of 4, the default of 256 included.
\<close>

lemma geometry_has_no_cylinders:
  assumes "unat mb < 2048" and "4 dvd unat mb"
  shows "cylinders (fake_geometry (mb * 1024 * 1024)) = 0"
proof -
  have size: "unat (mb * 1024 * 1024) = unat mb * 2 ^ 20"
    using assms(1) by (simp add: unat_word_ariths)
  then have "unat (cylinders (fake_geometry (mb * 1024 * 1024))) = unat mb * 2 ^ 20 div 64 mod 65536"
    using cylinders_fake [of "mb * 1024 * 1024"] assms(1) by simp
  also have "\<dots> = 0" using assms(2) by (auto elim!: dvdE)
  finally show ?thesis by (simp only: unsigned_eq_0_iff)
qed

end
