(* ===== verification/Blockdev.thy ===== *)
theory Blockdev
  imports Kernel Block_Store
begin

section \<open>The multi-queue block driver of experiment 4.2\<close>

text \<open>
  \<^verbatim>\<open>src/exp4/exp_4_2.c\<close>. Its request handler takes a request of its own from the queue, checks the
  range and completes it without moving any data (the lines between the locks are empty);
  \<open>device_read\<close> and \<open>device_write\<close> do move data but are not entered in \<open>bdops\<close>. The handlers are
  modelled with the machine arithmetic of the source: 64-bit offsets, a 32-bit product for the
  length of a read, and a subtraction from the file offset that wraps.
\<close>

definition DISK_SIZE :: nat where
  "DISK_SIZE = 16 * 1024 * 1024"

definition SECTOR_SIZE :: nat where
  "SECTOR_SIZE = 512"

definition DEVICE_NAME :: string where
  "DEVICE_NAME = ''EXP_4_2_BLOCK_DEVICE''"

record blockdev_st = kctx +
  majorNum :: int
  diskContent :: ptr
  disk_bytes :: bytes
  rq_queue :: "int + ptr"
  gendiskPtr :: ptr
  gendisk_obj :: gendisk

definition blockdev_start :: "klog \<Rightarrow> blockdev_st" where
  "blockdev_start l = \<lparr>klog = l, majorNum = 0, diskContent = NULL, disk_bytes = [], rq_queue = Inr NULL,
     gendiskPtr = NULL, gendisk_obj = empty_gendisk\<rparr>"

subsection \<open>The request handler\<close>

definition BLK_STS_OK :: int where "BLK_STS_OK = 0"
definition BLK_STS_IOERR :: int where "BLK_STS_IOERR = 10"
definition READ :: int where "READ = 0"
definition WRITE :: int where "WRITE = 1"

text \<open>\<open>bd\<close> is the request the block layer hands over; the handler never looks at it.\<close>

definition requestHandler :: "kernel \<Rightarrow> ptr \<Rightarrow> (blockdev_st, int) state" where
  "requestHandler K bd = do {
     printk ''Exp_4_2 Request handler called.'' [];
     thisRequest \<leftarrow> kcall (blk_get_request_ans K) Blk_get_request;
     log_event (Blk_mq_start_request thisRequest);
     status \<leftarrow>
       (if mq_rq_data_dir K thisRequest \<noteq> READ \<and> mq_rq_data_dir K thisRequest \<noteq> WRITE then do {
          printk ''Exp_4_2 Request handler: not read or write.'' [];
          State_Monad.return BLK_STS_IOERR
        } else do {
          let offset = mq_rq_pos K thisRequest * of_nat SECTOR_SIZE;
          let bytes = (ucast (mq_rq_sectors K thisRequest) :: u64) * of_nat SECTOR_SIZE;
          status \<leftarrow>
            (if offset + bytes > of_nat DISK_SIZE then do {
               printk ''Exp_4_2 Request handler: out of range.'' [];
               State_Monad.return BLK_STS_IOERR
             } else State_Monad.return BLK_STS_OK);
          if mq_rq_data_dir K thisRequest = READ then do {
            printk ''Exp_4_2 Request handler: read.'' [];
            spin_lock ''spinLock'';
            spin_unlock ''spinLock'';
            State_Monad.return status
          } else if mq_rq_data_dir K thisRequest = WRITE then do {
            printk ''Exp_4_2 Request handler: write.'' [];
            spin_lock ''spinLock'';
            spin_unlock ''spinLock'';
            State_Monad.return status
          } else do {
            printk ''Exp_4_2 Request handler: unknown.'' [];
            State_Monad.return BLK_STS_IOERR
          }
        });
     log_event (Blk_mq_end_request thisRequest status);
     State_Monad.return status
   }"

subsection \<open>The device operations\<close>

definition device_open :: "(blockdev_st, int) state" where
  "device_open = do { printk (KERN_INFO @ ''Exp_4_2 Device opened.'') []; State_Monad.return 0 }"

definition device_release :: "(blockdev_st, unit) state" where
  "device_release = printk (KERN_INFO @ ''Exp_4_2 Device released.'') []"

definition device_ioctl :: "u32 \<Rightarrow> u64 \<Rightarrow> (blockdev_st, int) state" where
  "device_ioctl cmd arg = do { printk ''Exp_4_2 Device ioctl called.'' []; State_Monad.return 0 }"

text \<open>
  \<open>device_read\<close> copies into a page, a list of \<open>PAGE_SIZE\<close> bytes at address \<open>page\<close>. The product
  \<open>nsectors * 512\<close> is an unsigned 32-bit product. The result is the return value, the page and the
  state, or a fault where \<open>memcpy\<close> leaves the disk's memory or the page.
\<close>

definition device_read ::
  "blockdev_st \<Rightarrow> u64 \<Rightarrow> ptr \<Rightarrow> bytes \<Rightarrow> u32 \<Rightarrow> kfault + int \<times> bytes \<times> blockdev_st" where
  "device_read s sector page buffer nsectors =
     (let s1 = snd (run_state (printk ''Exp_4_2 Device read called.'' []) s);
          offset = sector * 512;
          len = ucast (nsectors * 512) :: u64
      in if offset + len > of_nat DISK_SIZE
         then Inr (- EIO, buffer,
                snd (run_state (printk (KERN_ERR @ ''Exp_4_2 Device read failed: out of bounds.'') []) s1))
         else case mem_read (disk_bytes s) (unat offset) (unat len) of
                None \<Rightarrow> Inl Bad_access
              | Some xs \<Rightarrow>
                  (case mem_write buffer 0 xs of
                     None \<Rightarrow> Inl Bad_access
                   | Some buffer' \<Rightarrow>
                       Inr (int (unat len), buffer', snd (run_state (do {
                           log_event (Kmap page);
                           log_event (Kunmap page);
                           printk ''Exp_4_2 Device read successful.'' [] }) s1))))"

text \<open>
  \<open>device_write\<close> copies \<open>user\<close>, the caller's buffer of the given length, to the position the file
  offset \<open>off\<close> (a 64-bit \<open>loff_t\<close>) says, and advances it. The result has the new offset.
\<close>

definition device_write ::
  "kernel \<Rightarrow> blockdev_st \<Rightarrow> bytes \<Rightarrow> u64 \<Rightarrow> kfault + int \<times> u64 \<times> blockdev_st" where
  "device_write K s user off =
     (let s1 = snd (run_state (printk ''Exp_4_2 Device write called.'' []) s);
          len = of_nat (length user) :: u64;
          freeSpace = of_nat DISK_SIZE - off
      in if len > freeSpace
         then Inr (- EFAULT, off,
                snd (run_state (printk ''Exp_4_2 Device write failed: file too long.'' []) s1))
         else case mem_write (disk_bytes s) (unat off) (user_bytes K (klog s1) user) of
                None \<Rightarrow> Inl Bad_access
              | Some m \<Rightarrow>
                  (let left = copy_from_user_ans K (klog s1) len;
                       s2 = s1\<lparr>klog := klog s1 @ [Copy_from_user len left], disk_bytes := m\<rparr>
                   in if left \<noteq> 0
                      then Inr (- EFAULT, off,
                             snd (run_state (printk ''Exp_4_2 Device write failed: copy from user failed.'' []) s2))
                      else Inr (int (length user), off + len,
                             snd (run_state (printk ''Exp_4_2 Device write successful.'' []) s2))))"

subsection \<open>The tables of operations\<close>

text \<open>
  What the kernel is told about the driver. A field that the source does not initialise is a null pointer; of
  \<^verbatim>\<open>struct block_device_operations\<close> the model has the fields the driver sets and the one that would have to be set
  for \<open>device_read\<close> to be called, \<open>bd_rw_page\<close>. The constants of \<open>tag_set\<close> are kept as they are.
\<close>

record blk_mq_ops =
  queue_rq :: "kernel \<Rightarrow> ptr \<Rightarrow> (blockdev_st, int) state"

record blk_mq_tag_set =
  tag_ops :: blk_mq_ops
  nr_hw_queues :: nat
  queue_depth :: nat
  numa_node :: string
  tag_flags :: string
  cmd_size :: nat
  driver_data :: ptr

record block_device_operations =
  bd_owner :: string
  bd_open :: "(blockdev_st, int) state option"
  bd_release :: "(blockdev_st, unit) state option"
  bd_ioctl :: "(u32 \<Rightarrow> u64 \<Rightarrow> (blockdev_st, int) state) option"
  bd_rw_page :: "(blockdev_st \<Rightarrow> u64 \<Rightarrow> ptr \<Rightarrow> bytes \<Rightarrow> u32 \<Rightarrow> kfault + int \<times> bytes \<times> blockdev_st) option"

definition mq_ops :: blk_mq_ops where
  "mq_ops = \<lparr>queue_rq = requestHandler\<rparr>"

definition tag_set :: blk_mq_tag_set where
  "tag_set = \<lparr>tag_ops = mq_ops, nr_hw_queues = 1, queue_depth = 128, numa_node = ''NUMA_NO_NODE'',
     tag_flags = ''BLK_MQ_F_SHOULD_MERGE'', cmd_size = 0, driver_data = NULL\<rparr>"

definition bdops :: block_device_operations where
  "bdops = \<lparr>bd_owner = ''THIS_MODULE'', bd_open = Some device_open, bd_release = Some device_release,
     bd_ioctl = Some device_ioctl, bd_rw_page = None\<rparr>"

text \<open>
  A call of the kernel into the loaded driver; it has nothing but the tables. A missing handler is not called.
\<close>

datatype table_call =
    Queue_rq ptr
  | Bd_open
  | Bd_release
  | Bd_ioctl u32 u64
  | Bd_rw_page u64 ptr bytes u32

definition call_handler :: "('s, 'a) state option \<Rightarrow> 's \<Rightarrow> 's" where
  "call_handler h s = (case h of None \<Rightarrow> s | Some m \<Rightarrow> snd (run_state m s))"

fun table_step :: "kernel \<Rightarrow> table_call \<Rightarrow> blockdev_st \<Rightarrow> kfault + blockdev_st" where
  "table_step K (Queue_rq rq) s = Inr (snd (run_state (queue_rq (tag_ops tag_set) K rq) s))"
| "table_step K Bd_open s = Inr (call_handler (bd_open bdops) s)"
| "table_step K Bd_release s = Inr (call_handler (bd_release bdops) s)"
| "table_step K (Bd_ioctl cmd arg) s = Inr (call_handler (map_option (\<lambda>f. f cmd arg) (bd_ioctl bdops)) s)"
| "table_step K (Bd_rw_page sector page buffer n) s =
     (case bd_rw_page bdops of
        None \<Rightarrow> Inr s
      | Some f \<Rightarrow> (case f s sector page buffer n of Inl e \<Rightarrow> Inl e | Inr (_, _, s') \<Rightarrow> Inr s'))"

fun table_steps :: "kernel \<Rightarrow> table_call list \<Rightarrow> blockdev_st \<Rightarrow> kfault + blockdev_st" where
  "table_steps K [] s = Inr s"
| "table_steps K (c # cs) s = (case table_step K c s of Inl e \<Rightarrow> Inl e | Inr s' \<Rightarrow> table_steps K cs s')"

subsection \<open>Loading and unloading\<close>

definition exp_4_2_init :: "kernel \<Rightarrow> (blockdev_st, int) state" where
  "exp_4_2_init K = do {
     printk (KERN_INFO @ ''Exp_4_2 Init.'') [];
     l \<leftarrow> gets klog;
     p \<leftarrow> vmalloc K (of_nat DISK_SIZE);
     modify (\<lambda>s. s\<lparr>diskContent := p,
        disk_bytes := (if p = NULL then [] else map (vmalloc_bytes K l) [0..<DISK_SIZE])\<rparr>);
     if p = NULL then do {
       printk ''Exp_4_2 vitrual disk vmalloc  failed: vmalloc failed.'' [];
       State_Monad.return (- ENOMEM)
     } else do {
       printk ''Exp_4_2 Init: space allocated.'' [];
       printk ''Exp_4_2 Init: spinlock init.'' [];
       spin_lock_init ''spinLock'';
       ma \<leftarrow> register_blkdev K 0 DEVICE_NAME;
       modify (\<lambda>s. s\<lparr>majorNum := ma\<rparr>);
       if ma < 0 then do {
         printk ''Exp_4_2 Init failed: register_blkdev failed.'' [];
         State_Monad.return ma
       } else do {
         printk ''Exp_4_2 Init: registered block device with major number %d.'' [KInt ma];
         q \<leftarrow> blk_mq_init_queue K;
         modify (\<lambda>s. s\<lparr>rq_queue := q\<rparr>);
         case q of
           Inl e \<Rightarrow> do {
             printk ''Exp_4_2 Init failed: blk_mq_init_queue failed.'' [];
             State_Monad.return e
           }
         | Inr qp \<Rightarrow> do {
             printk ''Exp_4_2 Init: request queue created.'' [];
             gd \<leftarrow> alloc_disk K 16;
             modify (\<lambda>s. s\<lparr>gendiskPtr := gd\<rparr>);
             if gd = NULL then do {
               printk ''Exp_4_2 Init failed: alloc_disk failed.'' [];
               blk_cleanup_queue q;
               unregister_blkdev ma DEVICE_NAME;
               State_Monad.return (- ENOMEM)
             } else do {
               modify (\<lambda>s. s\<lparr>gendisk_obj := \<lparr>gd_major = ma, gd_first_minor = 0, gd_fops = ''bdops'',
                  gd_private_data = NULL, gd_disk_name = DEVICE_NAME, gd_queue = qp\<rparr>\<rparr>);
               set_capacity gd (of_nat (DISK_SIZE div SECTOR_SIZE));
               add_disk gd;
               printk ''Exp_4_2 Init: gendisk created.'' [];
               State_Monad.return 0
             }
           }
       }
     }
   }"

definition exp_4_2_exit :: "kernel \<Rightarrow> (blockdev_st, unit) state" where
  "exp_4_2_exit K = do {
     printk (KERN_INFO @ ''Exp_4_2 Exit.'') [];
     gd \<leftarrow> gets gendiskPtr;
     (if gd \<noteq> NULL then do { del_gendisk gd; put_disk gd } else State_Monad.return ());
     q \<leftarrow> gets rq_queue;
     (if q \<noteq> Inr NULL then blk_cleanup_queue q else State_Monad.return ());
     ma \<leftarrow> gets majorNum;
     unregister_blkdev ma DEVICE_NAME;
     p \<leftarrow> gets diskContent;
     vfree p
   }"

definition blockdev_owned :: "blockdev_st \<Rightarrow> resource multiset" where
  "blockdev_owned s = {#RMem (diskContent s), RBlkdev (majorNum s) DEVICE_NAME, RDisk (gendiskPtr s),
     RAddedDisk (gendiskPtr s)#}
     + (case rq_queue s of Inl _ \<Rightarrow> {#} | Inr q \<Rightarrow> if q = NULL then {#} else {#RQueue q#})"

text \<open>
  \<open>blk_mq_init_queue\<close> answers a queue or an error pointer, and an error pointer carries an error
  code that is not 0.
\<close>

definition mq_init_documented :: "kernel \<Rightarrow> bool" where
  "mq_init_documented K \<longleftrightarrow>
     (\<forall>l. blk_mq_init_queue_ans K l \<noteq> Inl 0 \<and> blk_mq_init_queue_ans K l \<noteq> Inr NULL)"

text \<open>What is left behind by a failed load.\<close>

definition blockdev_leak :: "blockdev_st \<Rightarrow> resource multiset" where
  "blockdev_leak s = (if diskContent s = NULL then {#} else {#RMem (diskContent s)#})
     + (case rq_queue s of Inl _ \<Rightarrow> {#RBlkdev (majorNum s) DEVICE_NAME#} | Inr _ \<Rightarrow> {#})"

text \<open>
  The disk as a store: a range is written by one \<open>device_write\<close> at its offset, and read sector
  by sector through \<open>device_read\<close> into a page; a negative return value or a fault is no result.
\<close>

definition blockdev_wr :: "kernel \<Rightarrow> blockdev_st \<Rightarrow> nat \<Rightarrow> bytes \<Rightarrow> blockdev_st option" where
  "blockdev_wr K s off xs =
     (case device_write K s xs (of_nat off) of
        Inl _ \<Rightarrow> None
      | Inr res \<Rightarrow> if fst res < 0 then None else Some (snd (snd res)))"

definition read_sector :: "blockdev_st \<Rightarrow> nat \<Rightarrow> bytes option" where
  "read_sector s k =
     (case device_read s (of_nat k) NULL (replicate PAGE_SIZE 0) 1 of
        Inl _ \<Rightarrow> None
      | Inr res \<Rightarrow> if fst res < 0 then None else Some (take SECTOR_SIZE (fst (snd res))))"

fun read_sectors :: "blockdev_st \<Rightarrow> nat \<Rightarrow> nat \<Rightarrow> bytes option" where
  "read_sectors s k 0 = Some []"
| "read_sectors s k (Suc n) =
     (case read_sector s k of
        None \<Rightarrow> None
      | Some xs \<Rightarrow> map_option (\<lambda>ys. xs @ ys) (read_sectors s (Suc k) n))"

definition blockdev_rd :: "blockdev_st \<Rightarrow> nat \<Rightarrow> nat \<Rightarrow> bytes option" where
  "blockdev_rd s off n = read_sectors s (off div SECTOR_SIZE) (n div SECTOR_SIZE)"

text \<open>A disk in working order, and a kernel that copies from user space completely.\<close>

definition user_readable :: "kernel \<Rightarrow> bool" where
  "user_readable K \<longleftrightarrow> (\<forall>l n. copy_from_user_ans K l n = 0)"

definition blockdev_wf :: "kernel \<Rightarrow> blockdev_st \<Rightarrow> bool" where
  "blockdev_wf K s \<longleftrightarrow> length (disk_bytes s) = DISK_SIZE \<and> user_readable K"

subsection \<open>Lemmas: the store\<close>

lemmas disk_consts = DISK_SIZE_def SECTOR_SIZE_def PAGE_SIZE_def

lemma unat_of_nat_small: "n < 2 ^ 64 \<Longrightarrow> unat (of_nat n :: u64) = n"
  by (simp add: unat_of_nat take_bit_nat_eq_self)

lemma read_sector_eq:
  assumes "length (disk_bytes s) = DISK_SIZE" and "Suc k * 512 < 2 ^ 63"
  shows "read_sector s k = mem_read (disk_bytes s) (k * 512) 512"
proof -
  have off: "(of_nat k * 512 :: u64) = of_nat (k * 512)" by simp
  have sum: "(of_nat k * 512 + ucast (1 * 512 :: u32) :: u64) = of_nat (Suc k * 512)" by simp
  have uo: "unat (of_nat k * 512 :: u64) = k * 512"
    unfolding off using assms(2) by (intro unat_of_nat_small) simp
  have us: "unat (of_nat k * 512 + ucast (1 * 512 :: u32) :: u64) = Suc k * 512"
    unfolding sum using assms(2) by (intro unat_of_nat_small) simp
  have gt: "of_nat DISK_SIZE < (of_nat k * 512 + ucast (1 * 512 :: u32) :: u64) \<longleftrightarrow> DISK_SIZE < Suc k * 512"
    unfolding word_less_nat_alt us by (simp add: DISK_SIZE_def)
  show ?thesis
  proof (cases "DISK_SIZE < Suc k * 512")
    case True
    then show ?thesis using gt assms(1)
      by (simp add: read_sector_def device_read_def Let_def errno_defs mem_read_def)
  next
    case False
    then have "mem_read (disk_bytes s) (k * 512) 512 = Some (take 512 (drop (k * 512) (disk_bytes s)))"
      using assms(1) by (simp add: mem_read_def)
    moreover have "length (take 512 (drop (k * 512) (disk_bytes s))) = 512" using False assms(1) by simp
    ultimately show ?thesis using False gt uo
      by (simp add: read_sector_def device_read_def Let_def mem_write_def disk_consts)
  qed
qed

lemma read_sectors_eq:
  assumes "length (disk_bytes s) = DISK_SIZE" and "(k + n) * 512 < 2 ^ 63"
  shows "read_sectors s k n = mem_read (disk_bytes s) (k * 512) (n * 512)"
  using assms
proof (induction n arbitrary: k)
  case (Suc n)
  then have IH: "read_sectors s (Suc k) n = mem_read (disk_bytes s) (Suc k * 512) (n * 512)"
    using Suc.IH [of "Suc k"] by simp
  have one: "read_sector s k = mem_read (disk_bytes s) (k * 512) 512"
    using Suc.prems by (intro read_sector_eq) auto
  have split: "take (512 + n * 512) (drop (k * 512) (disk_bytes s)) =
      take 512 (drop (k * 512) (disk_bytes s)) @ take (n * 512) (drop (512 + k * 512) (disk_bytes s))"
    by (simp only: take_add drop_drop)
  show ?case using IH one split by (auto simp: mem_read_def)
qed (simp add: mem_read_def)

lemma blockdev_rd_eq:
  assumes "blockdev_wf K s" and "SECTOR_SIZE dvd off" and "SECTOR_SIZE dvd n" and "off + n < 2 ^ 63"
  shows "blockdev_rd s off n = mem_read (disk_bytes s) off n"
proof -
  obtain k m where km: "off = k * 512" "n = m * 512"
    using assms(2,3) by (auto simp: SECTOR_SIZE_def elim!: dvdE)
  then show ?thesis using assms(1,4) read_sectors_eq [of s k m]
    by (simp add: blockdev_rd_def blockdev_wf_def SECTOR_SIZE_def)
qed

lemma freeSpace_less:
  assumes "off \<le> DISK_SIZE" and "n < 2 ^ 63"
  shows "(of_nat DISK_SIZE - of_nat off < (of_nat n :: u64)) \<longleftrightarrow> DISK_SIZE < off + n"
proof -
  have "(of_nat DISK_SIZE - of_nat off :: u64) = of_nat (DISK_SIZE - off)"
    using assms(1) by (simp add: of_nat_diff)
  moreover have "unat (of_nat (DISK_SIZE - off) :: u64) = DISK_SIZE - off"
    by (rule unat_of_nat_small) (simp add: DISK_SIZE_def)
  moreover have "unat (of_nat n :: u64) = n" using assms(2) by (intro unat_of_nat_small) simp
  ultimately show ?thesis using assms(1) unfolding word_less_nat_alt by auto
qed

lemma blockdev_wr_refuses:
  assumes "off \<le> DISK_SIZE" and "DISK_SIZE < off + length xs" and "length xs < 2 ^ 63"
  shows "blockdev_wr K s off xs = None"
  using freeSpace_less [OF assms(1,3)] assms(2)
  by (simp add: blockdev_wr_def device_write_def Let_def errno_defs)

lemma device_write_inside:
  assumes "off + length xs \<le> DISK_SIZE" and "length (disk_bytes s) = DISK_SIZE" and "user_readable K"
  shows "\<exists>s'. device_write K s xs (of_nat off) = Inr (int (length xs), of_nat (off + length xs), s')
     \<and> mem_write (disk_bytes s) off xs = Some (disk_bytes s')"
proof -
  have small: "off < 2 ^ 64" "length xs < 2 ^ 63" using assms(1) by (auto simp: DISK_SIZE_def)
  have uo: "unat (of_nat off :: u64) = off" using small(1) by (rule unat_of_nat_small)
  have copy: "copy_from_user_ans K l n = 0" "user_bytes K l xs = xs" for l n
    using assms(3) by (auto simp: user_readable_def intro: user_bytes_complete)
  show ?thesis using freeSpace_less [of off "length xs"] assms small uo copy
    by (simp add: device_write_def Let_def mem_write_def kmonad)
qed

lemma blockdev_wr_inside:
  assumes "off + length xs \<le> DISK_SIZE" and "blockdev_wf K s"
  shows "\<exists>s'. blockdev_wr K s off xs = Some s' \<and> mem_write (disk_bytes s) off xs = Some (disk_bytes s')
     \<and> blockdev_wf K s'"
proof -
  obtain s' where "device_write K s xs (of_nat off) = Inr (int (length xs), of_nat (off + length xs), s')"
    and m: "mem_write (disk_bytes s) off xs = Some (disk_bytes s')"
    using device_write_inside [OF assms(1)] assms(2) unfolding blockdev_wf_def by blast
  then show ?thesis using mem_write_length [OF m] assms(2)
    by (simp add: blockdev_wr_def blockdev_wf_def)
qed

text \<open>The two handlers together satisfy the contract of a store that checks its bounds.\<close>

interpretation blockdev: checked_store "blockdev_wf K" "\<lambda>_. DISK_SIZE" SECTOR_SIZE blockdev_rd
  "blockdev_wr K" "2 ^ 63" for K
proof
  fix s off n
  assume "blockdev_wf K s" "fits SECTOR_SIZE DISK_SIZE off n"
  moreover from this have "off + n < 2 ^ 63" by (auto simp: fits_def DISK_SIZE_def)
  ultimately show "\<exists>ys. blockdev_rd s off n = Some ys \<and> length ys = n"
    by (auto simp: fits_def blockdev_rd_eq blockdev_wf_def mem_read_def)
next
  fix s off and xs :: bytes
  assume "blockdev_wf K s" "fits SECTOR_SIZE DISK_SIZE off (length xs)"
  then show "\<exists>s'. blockdev_wr K s off xs = Some s' \<and> blockdev_wf K s' \<and> DISK_SIZE = DISK_SIZE"
    using blockdev_wr_inside [of off xs K s] by (auto simp: fits_def)
next
  fix s off s' and xs :: bytes
  assume a: "blockdev_wf K s" "fits SECTOR_SIZE DISK_SIZE off (length xs)" "blockdev_wr K s off xs = Some s'"
  then have "mem_write (disk_bytes s) off xs = Some (disk_bytes s')" "blockdev_wf K s'"
    using blockdev_wr_inside [of off xs K s] by (auto simp: fits_def)
  moreover have "off + length xs < 2 ^ 63" using a(2) by (auto simp: fits_def DISK_SIZE_def)
  ultimately show "blockdev_rd s' off (length xs) = Some xs"
    using a(2) mem_read_write_same by (auto simp: fits_def blockdev_rd_eq)
next
  fix s off s' o2 n and xs :: bytes
  assume a: "blockdev_wf K s" "fits SECTOR_SIZE DISK_SIZE off (length xs)" "blockdev_wr K s off xs = Some s'"
    "fits SECTOR_SIZE DISK_SIZE o2 n" "disjoint_range o2 n (off, xs)"
  then have "mem_write (disk_bytes s) off xs = Some (disk_bytes s')" "blockdev_wf K s'"
    using blockdev_wr_inside [of off xs K s] by (auto simp: fits_def)
  moreover have "o2 + n < 2 ^ 63" using a(4) by (auto simp: fits_def DISK_SIZE_def)
  ultimately show "blockdev_rd s' o2 n = blockdev_rd s o2 n"
    using a mem_read_write_other [of "disk_bytes s" off xs "disk_bytes s'" o2 n]
    by (auto simp: fits_def blockdev_rd_eq disjoint_range_def)
next
  fix s off n
  assume "blockdev_wf K s" "SECTOR_SIZE dvd off" "SECTOR_SIZE dvd n" "0 < n" "DISK_SIZE < off + n" "off + n < 2 ^ 63"
  then show "blockdev_rd s off n = None"
    by (auto simp: blockdev_rd_eq blockdev_wf_def mem_read_def)
next
  fix s off and xs :: bytes
  assume "off \<le> DISK_SIZE" "DISK_SIZE < off + length xs" "off + length xs < 2 ^ 63"
  then show "blockdev_wr K s off xs = None" by (intro blockdev_wr_refuses) auto
qed

subsection \<open>Lemmas: loading and unloading\<close>

lemma mq_init_cases:
  assumes "mq_init_documented K"
  shows "blk_mq_init_queue_ans K l \<noteq> Inl 0" and "blk_mq_init_queue_ans K l \<noteq> Inr NULL"
  using assms by (simp_all add: mq_init_documented_def)

lemma exp_4_2_init_acquires:
  assumes "run_state (exp_4_2_init K) s = (0, s')" and "mq_init_documented K"
  shows "held (klog s') = held (klog s) + blockdev_owned s'
     \<and> diskContent s' \<noteq> NULL \<and> gendiskPtr s' \<noteq> NULL \<and> rq_queue s' \<noteq> Inr NULL"
  using assms(1) unfolding exp_4_2_init_def
  by (elim kelim; clarsimp simp: errno_defs blockdev_owned_def mq_init_cases [OF assms(2)])

lemma exp_4_2_exit_releases:
  assumes "run_state (exp_4_2_exit K) s = ((), s')"
    and "diskContent s \<noteq> NULL" and "gendiskPtr s \<noteq> NULL" and "rq_queue s \<noteq> Inr NULL"
  shows "held (klog s') = held (klog s) - blockdev_owned s"
proof (cases "rq_queue s")
  case (Inl e)
  with assms show ?thesis unfolding exp_4_2_exit_def
    by (elim kelim; clarsimp simp: blockdev_owned_def add_mset_commute)
next
  case (Inr q)
  with assms show ?thesis unfolding exp_4_2_exit_def
    by (elim kelim; clarsimp simp: blockdev_owned_def add_mset_commute)
qed

interpretation blockdev_module: kmodule exp_4_2_init exp_4_2_exit blockdev_owned "\<lambda>_. True" mq_init_documented
proof
  fix K s s'
  assume a: "mq_init_documented K" "run_state (exp_4_2_init K) s = (0, s')"
  then show "held (klog s') = held (klog s) + blockdev_owned s'"
    by (simp add: exp_4_2_init_acquires)
  fix l s''
  assume "run_state (exp_4_2_exit K) (s'\<lparr>klog := l\<rparr>) = ((), s'')"
  then show "held (klog s'') = held l - blockdev_owned s'"
    using exp_4_2_exit_releases [of K "s'\<lparr>klog := l\<rparr>" s''] exp_4_2_init_acquires [OF a(2,1)]
    by (simp add: blockdev_owned_def)
qed

lemma exp_4_2_init_failed:
  assumes "run_state (exp_4_2_init K) s = (r, s')" and "r \<noteq> 0" and "mq_init_documented K"
    and "rq_queue s = Inr NULL"
  shows "held (klog s') = held (klog s) + blockdev_leak s'"
  using assms(1,2,4) unfolding exp_4_2_init_def
  by (elim kelim; clarsimp simp: errno_defs blockdev_leak_def mq_init_cases [OF assms(3)])

subsection \<open>Lemmas: the request handler and the bounds\<close>

lemma bytes_wrap_nat:
  "unat (pos * of_nat SECTOR_SIZE + ucast n * of_nat SECTOR_SIZE :: u64) =
     (unat pos * 512 + unat (n :: u32) * 512) mod 2 ^ 64"
  by (simp add: SECTOR_SIZE_def unat_word_ariths unat_ucast_widen mod_simps)

definition demo_blockdev :: blockdev_st where
  "demo_blockdev = (blockdev_start [])\<lparr>disk_bytes := replicate DISK_SIZE 0\<rparr>"

lemma demo_blockdev_length [simp]: "length (disk_bytes demo_blockdev) = DISK_SIZE"
  by (simp add: demo_blockdev_def)

lemma demo_blockdev_wf [simp]: "blockdev_wf granting_kernel demo_blockdev"
  by (simp add: blockdev_wf_def user_readable_def granting_kernel_def)

lemma DISK_SIZE_pos [simp]: "0 < DISK_SIZE" by (simp add: DISK_SIZE_def)

subsection \<open>Properties\<close>

text \<open>
  Property C6. Writing through \<open>device_write\<close> and reading through \<open>device_read\<close>: on a disk of
  \<open>DISK_SIZE\<close> bytes, a list of writes of whole sectors to pairwise disjoint ranges inside the disk
  succeeds, every range is read back sector by sector, and every range that no write touches keeps
  its contents.
\<close>

theorem blockdev_writes_read_back:
  assumes "blockdev_wf K s"
    and "\<forall>w \<in> set ws. fits SECTOR_SIZE DISK_SIZE (fst w) (length (snd w))"
    and "disjoint_writes ws"
  shows "\<exists>s'. write_all (blockdev_wr K) s ws = Some s' \<and> blockdev_wf K s'
     \<and> (\<forall>w \<in> set ws. blockdev_rd s' (fst w) (length (snd w)) = Some (snd w))
     \<and> (\<forall>off n. fits SECTOR_SIZE DISK_SIZE off n \<longrightarrow> list_all (disjoint_range off n) ws \<longrightarrow>
          blockdev_rd s' off n = blockdev_rd s off n)"
proof -
  obtain s' where s': "write_all (blockdev_wr K) s ws = Some s'" "blockdev_wf K s'"
    using blockdev.write_all_inside [OF assms(1,2)] by blast
  then show ?thesis
    using blockdev.write_all_read_back [OF assms s'(1)] blockdev.write_all_other [OF assms(1,2) _ _ s'(1)]
    by blast
qed

theorem blockdev_writes_read_back_witness:
  "\<exists>s'. write_all (blockdev_wr granting_kernel) demo_blockdev [(0, replicate 512 1), (1024, replicate 512 2)] = Some s'
     \<and> blockdev_rd s' 0 512 = Some (replicate 512 1) \<and> blockdev_rd s' 1024 512 = Some (replicate 512 2)"
  using blockdev_writes_read_back [of granting_kernel demo_blockdev
      "[(0, replicate 512 1), (1024, replicate 512 2)]"]
  by (simp add: fits_def SECTOR_SIZE_def DISK_SIZE_def disjoint_range_def) blast

text \<open>
  The bounds of the store, both ways: below \<open>2 ^ 63\<close> a read of whole sectors has a
  result exactly when it lies inside the disk, and a write at an offset inside the disk exactly
  when its end does.
\<close>

lemma blockdev_checks_bounds:
  assumes "blockdev_wf K s" and "SECTOR_SIZE dvd off" and "SECTOR_SIZE dvd length xs"
    and "off + length xs < 2 ^ 63" and "xs \<noteq> []"
  shows "((\<exists>ys. blockdev_rd s off (length xs) = Some ys) \<longleftrightarrow> off + length xs \<le> DISK_SIZE)
     \<and> (off \<le> DISK_SIZE \<longrightarrow> ((\<exists>s'. blockdev_wr K s off xs = Some s') \<longleftrightarrow> off + length xs \<le> DISK_SIZE))"
  using assms blockdev.rd_iff_inside [of K s off "length xs"] blockdev.wr_iff_inside [of K s off xs]
  by simp

text \<open>
  Property C28. The check of \<open>device_write\<close> does not cover offsets beyond the disk: there
  \<open>DISK_SIZE - *offset\<close> wraps to a huge value, the write passes the check and leaves the disk's
  memory.
\<close>

theorem device_write_past_end_faults:
  assumes "length (disk_bytes s) = DISK_SIZE" and "DISK_SIZE < off" and "off < 2 ^ 63"
    and "user \<noteq> []" and "length user < 2 ^ 63"
  shows "device_write K s user (of_nat off) = Inl Bad_access"
proof -
  have uo: "unat (of_nat off :: u64) = off" using assms(3) by (intro unat_of_nat_small) simp
  have ul: "unat (of_nat (length user) :: u64) = length user"
    using assms(5) by (intro unat_of_nat_small) simp
  have "unat (of_nat DISK_SIZE - of_nat off :: u64) = DISK_SIZE + 2 ^ 64 - off"
    using assms(2,3) uo by (simp add: unat_sub_if_size word_size DISK_SIZE_def)
  then have "\<not> (of_nat DISK_SIZE - of_nat off < (of_nat (length user) :: u64))"
    using assms(2,3,5) ul unfolding word_less_nat_alt by simp
  moreover have "length (disk_bytes s) < off + length user" using assms(1,2) by simp
  ultimately show ?thesis using assms(4) uo
    by (simp add: device_write_def Let_def mem_write_def user_bytes_def)
qed

theorem device_write_past_end_faults_witness:
  "device_write granting_kernel demo_blockdev [1] (of_nat (DISK_SIZE + 1)) = Inl Bad_access"
  using device_write_past_end_faults [of demo_blockdev "DISK_SIZE + 1" "[1]" granting_kernel]
  by (simp add: DISK_SIZE_def)

text \<open>
  \<open>device_read\<close> on every branch, for a range that does not wrap: outside the disk it
  returns \<open>-EIO\<close> and leaves the page alone; inside, it returns the number of bytes with the
  sectors at the front of the page if they fit the page, and writes beyond the page if they do not
  (eight sectors fill it).
\<close>

lemma device_read_result:
  assumes "length (disk_bytes s) = DISK_SIZE" and "length page_bytes = PAGE_SIZE"
    and "unat sector * 512 < 2 ^ 63" and "unat nsectors * 512 < 2 ^ 32" and "0 < unat nsectors"
  shows "map_sum id (\<lambda>res. (fst res, fst (snd res))) (device_read s sector page page_bytes nsectors) =
     (let off = unat sector * 512; n = unat nsectors * 512
      in if DISK_SIZE < off + n then Inr (- EIO, page_bytes)
         else if PAGE_SIZE < n then Inl Bad_access
         else Inr (int n, take n (drop off (disk_bytes s)) @ drop n page_bytes))"
proof -
  have n32: "unat (nsectors * 512) = unat nsectors * 512"
    using assms(4) by (simp add: unat_word_ariths)
  have len: "unat (ucast (nsectors * 512) :: u64) = unat nsectors * 512"
    by (simp only: unat_ucast_widen n32)
  have off: "unat (sector * 512) = unat sector * 512" using assms(3) by (simp add: unat_word_ariths)
  have sum: "unat (sector * 512 + ucast (nsectors * 512)) = unat sector * 512 + unat nsectors * 512"
    using assms(3,4) off len unat_add_no_wrap [of "sector * 512" "ucast (nsectors * 512)"] by simp
  have gt: "of_nat DISK_SIZE < sector * 512 + ucast (nsectors * 512) \<longleftrightarrow>
      DISK_SIZE < unat sector * 512 + unat nsectors * 512"
    unfolding word_less_nat_alt sum by (simp add: DISK_SIZE_def)
  show ?thesis using assms(1,2,5) off len
    by (auto simp: device_read_def Let_def gt mem_read_def mem_write_def)
qed

text \<open>Sector numbers count modulo \<open>2 ^ 55\<close>, so the check lets far-away sectors through.\<close>

lemma device_read_sector_wraps:
  "device_read s (sector + 2 ^ 55) page page_bytes nsectors = device_read s sector page page_bytes nsectors"
proof -
  have "(sector + 2 ^ 55) * 512 = sector * (512 :: u64)" by (simp add: distrib_right)
  then show ?thesis by (simp only: device_read_def)
qed



lemma granting_mq: "mq_init_documented granting_kernel"
  by (simp add: mq_init_documented_def granting_kernel_def)

lemma granted_exp_4_2_init: "\<exists>s'. run_state (exp_4_2_init granting_kernel) s = (0, s')"
  by (simp add: exp_4_2_init_def kmonad granting_kernel_def del: of_nat_numeral)

text \<open>
  Property C30. The life cycle of the driver, with a kernel whose \<open>blk_mq_init_queue\<close> answers a queue or
  an error pointer: after a load that returned 0, \<open>exp_4_2_exit\<close> leaves exactly what other modules
  hold at that time. A load that fails leaves exactly this behind: the disk's memory, once it was
  allocated, and the registered major number if making the request queue failed.
\<close>

theorem blockdev_lifecycle:
  assumes "mq_init_documented K" and "rq_queue s = Inr NULL" and "run_state (exp_4_2_init K) s = (r, s')"
  shows "(r = 0 \<longrightarrow> held (klog s') = held (klog s) + blockdev_owned s'
        \<and> (\<forall>l R. held l = R + blockdev_owned s' \<longrightarrow>
             held (klog (snd (run_state (exp_4_2_exit K) (s'\<lparr>klog := l\<rparr>)))) = R))
    \<and> (r \<noteq> 0 \<longrightarrow> held (klog s') = held (klog s) + blockdev_leak s')"
proof -
  have ex: "run_state (exp_4_2_exit K) t = ((), snd (run_state (exp_4_2_exit K) t))" for t by (simp add: prod_eq_iff)
  have "held (klog (snd (run_state (exp_4_2_exit K) (s'\<lparr>klog := l\<rparr>)))) = R"
    if "r = 0" "held l = R + blockdev_owned s'" for l R
    using assms(3) that blockdev_module.unload_later [OF assms(1) TrueI _ that(2) ex] by simp
  then show ?thesis using assms exp_4_2_init_failed exp_4_2_init_acquires [OF _ assms(1)] by blast
qed

definition no_queue_kernel :: kernel where
  "no_queue_kernel = granting_kernel\<lparr>blk_mq_init_queue_ans := (\<lambda>_. Inl (- 12))\<rparr>"

theorem blockdev_lifecycle_witness:
  "held (klog (snd (run_state (exp_4_2_exit granting_kernel)
       (snd (run_state (exp_4_2_init granting_kernel) (blockdev_start [])))))) = {#}
   \<and> (\<exists>s'. run_state (exp_4_2_init no_queue_kernel) (blockdev_start []) = (- 12, s')
       \<and> held (klog s') = {#RMem 0x10000, RBlkdev 254 DEVICE_NAME#})"
proof
  obtain s1 where good: "run_state (exp_4_2_init granting_kernel) (blockdev_start []) = (0, s1)"
    using granted_exp_4_2_init by blast
  have "held (klog s1) = {#} + blockdev_owned s1"
    using exp_4_2_init_acquires [OF good granting_mq] by (simp add: blockdev_start_def)
  moreover have "\<forall>l R. held l = R + blockdev_owned s1 \<longrightarrow>
      held (klog (snd (run_state (exp_4_2_exit granting_kernel) (s1\<lparr>klog := l\<rparr>)))) = R"
    using blockdev_lifecycle [OF granting_mq _ good] by (simp add: blockdev_start_def)
  ultimately have "held (klog (snd (run_state (exp_4_2_exit granting_kernel) (s1\<lparr>klog := klog s1\<rparr>)))) = {#}" by blast
  then show "held (klog (snd (run_state (exp_4_2_exit granting_kernel)
      (snd (run_state (exp_4_2_init granting_kernel) (blockdev_start [])))))) = {#}"
    using good by simp
next
  obtain r s' where run: "run_state (exp_4_2_init no_queue_kernel) (blockdev_start []) = (r, s')" by force
  have doc: "mq_init_documented no_queue_kernel"
    by (simp add: mq_init_documented_def no_queue_kernel_def)
  have "r = - 12 \<and> diskContent s' = 0x10000 \<and> rq_queue s' = Inl (- 12) \<and> majorNum s' = 254"
    using run unfolding exp_4_2_init_def
    by (elim kelim; clarsimp simp: errno_defs granting_kernel_def no_queue_kernel_def)
  then show "\<exists>s'. run_state (exp_4_2_init no_queue_kernel) (blockdev_start []) = (- 12, s')
      \<and> held (klog s') = {#RMem 0x10000, RBlkdev 254 DEVICE_NAME#}"
    using run blockdev_lifecycle [OF doc _ run] by (simp add: blockdev_start_def blockdev_leak_def)
qed

subsection \<open>What the kernel can reach\<close>

text \<open>The events that move data to or from the disk's memory.\<close>

definition moves_data :: "kevent \<Rightarrow> bool" where
  "moves_data e = (case e of Copy_from_user _ _ \<Rightarrow> True | Copy_to_user _ _ \<Rightarrow> True | Kmap _ \<Rightarrow> True | _ \<Rightarrow> False)"

definition only_logs :: "blockdev_st \<Rightarrow> blockdev_st \<Rightarrow> bool" where
  "only_logs s s' \<longleftrightarrow> (\<exists>l. s' = s\<lparr>klog := klog s @ l\<rparr> \<and> (\<forall>e \<in> set l. \<not> moves_data e))"

interpretation logging: state_order only_logs
proof
  fix s t u
  show "only_logs s s" by (simp add: only_logs_def exI [of _ "[]"])
  assume "only_logs s t" "only_logs t u"
  then obtain l l' where "t = s\<lparr>klog := klog s @ l\<rparr>" "\<forall>e \<in> set l. \<not> moves_data e"
      "u = t\<lparr>klog := klog t @ l'\<rparr>" "\<forall>e \<in> set l'. \<not> moves_data e"
    unfolding only_logs_def by blast
  then show "only_logs s u" unfolding only_logs_def by (intro exI [of _ "l @ l'"]) auto
qed

lemma only_logs_calls:
  "\<not> moves_data e \<Longrightarrow> keeps only_logs (log_event e)"
  "keeps only_logs (printk fmt args)"
  "(\<And>r. \<not> moves_data (mk r)) \<Longrightarrow> keeps only_logs (kcall ans mk)"
  unfolding keeps_def only_logs_def by (auto simp: kmonad moves_data_def)

lemmas quiet = logging.keeps_rules only_logs_calls

lemma requestHandler_quiet: "keeps only_logs (requestHandler K bd)"
  unfolding requestHandler_def Let_def by (intro quiet) (simp_all add: moves_data_def)

lemma table_step_quiet: "\<exists>s'. table_step K c s = Inr s' \<and> only_logs s s'"
proof (cases c)
  case (Queue_rq rq)
  then show ?thesis using requestHandler_quiet by (simp add: tag_set_def mq_ops_def keeps_def)
next
  case Bd_open
  have "keeps only_logs device_open" unfolding device_open_def by (intro quiet)
  then show ?thesis using Bd_open by (simp add: bdops_def call_handler_def keeps_def)
next
  case Bd_release
  have "keeps only_logs device_release" unfolding device_release_def by (intro quiet)
  then show ?thesis using Bd_release by (simp add: bdops_def call_handler_def keeps_def)
next
  case (Bd_ioctl cmd arg)
  have "keeps only_logs (device_ioctl cmd arg)" unfolding device_ioctl_def by (intro quiet)
  then show ?thesis using Bd_ioctl by (simp add: bdops_def call_handler_def keeps_def)
next
  case (Bd_rw_page sector page buffer n)
  then show ?thesis by (simp add: bdops_def logging.refl)
qed


end
