(* ===== verification/Chardev.thy ===== *)
theory Chardev
  imports Kernel
begin

section \<open>The character device of experiment 4.1\<close>

text \<open>
  \<^verbatim>\<open>src/exp4/exp4_1_kernel.c\<close>: a module that allocates a device number, a \<open>cdev\<close> object, and adds it;
  its \<open>open\<close>, \<open>read\<close> and \<open>write\<close> only print. The cleanup labels of \<open>device_init\<close> fall through as
  in the source. When \<open>cdev_alloc\<close> fails the function jumps over the initialisation of
  \<open>char_device_add_fail\<close> and returns it: that indeterminate value is the parameter \<open>garbage\<close>.
\<close>

definition MY_NAME :: string where
  "MY_NAME = ''my_device_char''"

record chardev_st = kctx +
  dev :: u32
  my_cdev :: ptr
  dev_count :: int

definition chardev_start :: "klog \<Rightarrow> chardev_st" where
  "chardev_start l = \<lparr>klog = l, dev = 0, my_cdev = NULL, dev_count = 1\<rparr>"

subsection \<open>File operations\<close>

definition my_open :: "kernel \<Rightarrow> u32 \<Rightarrow> (chardev_st, int) state" where
  "my_open K i_rdev = do {
     let major = uint (dev_major K i_rdev);
     let minor = uint (dev_minor K i_rdev);
     printk (''major = %d'' @ nl) [KInt major];
     printk (''minor = %d'' @ nl) [KInt minor];
     State_Monad.return 0
   }"

text \<open>The buffers and lengths of \<open>read\<close> and \<open>write\<close> are never looked at.\<close>

definition my_read :: "(chardev_st, int) state" where
  "my_read = do { printk (''%s enter'' @ nl) [KStr ''my_read'']; State_Monad.return 0 }"

definition my_write :: "(chardev_st, int) state" where
  "my_write = do { printk (''%s enter'' @ nl) [KStr ''my_write'']; State_Monad.return 0 }"

record file_operations =
  fop_open :: "kernel \<Rightarrow> u32 \<Rightarrow> (chardev_st, int) state"
  fop_read :: "(chardev_st, int) state"
  fop_write :: "(chardev_st, int) state"

definition my_fps :: file_operations where
  "my_fps = \<lparr>fop_open = my_open, fop_read = my_read, fop_write = my_write\<rparr>"

subsection \<open>Loading and unloading\<close>

definition unregister_chrdev :: "int \<Rightarrow> (chardev_st, int) state" where
  "unregister_chrdev char_device_add_fail = do {
     d \<leftarrow> gets dev;
     n \<leftarrow> gets dev_count;
     log_event (Unregister_chrdev_region d n);
     State_Monad.return char_device_add_fail
   }"

definition device_init :: "int \<Rightarrow> kernel \<Rightarrow> (chardev_st, int) state" where
  "device_init garbage K = do {
     n \<leftarrow> gets dev_count;
     ans \<leftarrow> kcall (\<lambda>l. alloc_chrdev_region_ans K l n MY_NAME)
               (\<lambda>r. Alloc_chrdev_region (snd r) n MY_NAME (fst r));
     if fst ans \<noteq> 0 then do {
       printk (''fail to alloc region'' @ nl) [];
       State_Monad.return (fst ans)
     } else do {
       modify (\<lambda>s. s\<lparr>dev := snd ans\<rparr>);
       p \<leftarrow> kcall (cdev_alloc_ans K) Cdev_alloc;
       modify (\<lambda>s. s\<lparr>my_cdev := p\<rparr>);
       if p = NULL then do {
         printk (''cdev_alloc fail!'' @ nl) [];
         unregister_chrdev garbage
       } else do {
         log_event (Cdev_init p);
         char_device_add_fail \<leftarrow> kcall (\<lambda>l. cdev_add_ans K l p (snd ans) n) (Cdev_add p (snd ans) n);
         if char_device_add_fail \<noteq> 0 then do {
           printk (''cdev_add fail'' @ nl) [];
           log_event (Cdev_del p);
           unregister_chrdev char_device_add_fail
         } else do {
           printk (''successed register char device: %s'' @ nl) [KStr MY_NAME];
           printk (''Major number=%d, Minor number=%d'' @ nl)
             [KInt (uint (dev_major K (snd ans))), KInt (uint (dev_minor K (snd ans)))];
           State_Monad.return 0
         }
       }
     }
   }"

definition device_exit :: "kernel \<Rightarrow> (chardev_st, unit) state" where
  "device_exit K = do {
     printk (''removing device'' @ nl) [];
     p \<leftarrow> gets my_cdev;
     (if p \<noteq> NULL then log_event (Cdev_del p) else State_Monad.return ());
     d \<leftarrow> gets dev;
     n \<leftarrow> gets dev_count;
     log_event (Unregister_chrdev_region d n)
   }"

definition chardev_owned :: "chardev_st \<Rightarrow> resource multiset" where
  "chardev_owned s = {#RRegion (dev s) (dev_count s), RCdev (my_cdev s), RAddedCdev (my_cdev s)#}"

text \<open>
  What the lifecycle relies on: \<open>cdev_alloc\<close> hands out an object that is not in use.
\<close>

definition cdev_alloc_unused :: "kernel \<Rightarrow> bool" where
  "cdev_alloc_unused K \<longleftrightarrow> 
     (\<forall>l. cdev_alloc_ans K l \<noteq> NULL \<longrightarrow> RAddedCdev (cdev_alloc_ans K l) \<notin># held l)"

subsection \<open>Lemmas\<close>

lemma device_init_success:
  assumes "run_state (device_init garbage K) s = (0, s')" and "garbage \<noteq> 0"
  shows "held (klog s') = held (klog s) + chardev_owned s' \<and> my_cdev s' \<noteq> NULL"
  using assms unfolding device_init_def unregister_chrdev_def
  by (elim kelim; clarsimp simp: chardev_owned_def)

lemma device_init_failed:
  assumes "run_state (device_init garbage K) s = (r, s')" and "r \<noteq> 0" and "cdev_alloc_unused K"
  shows "held (klog s') = held (klog s)"
proof -
  have new: "RAddedCdev (cdev_alloc_ans K (klog s @ [Alloc_chrdev_region d n MY_NAME 0])) \<notin># held (klog s)"
    if "cdev_alloc_ans K (klog s @ [Alloc_chrdev_region d n MY_NAME 0]) \<noteq> NULL" for d n
    using spec [OF assms(3) [unfolded cdev_alloc_unused_def], of "klog s @ [Alloc_chrdev_region d n MY_NAME 0]"] that
    by simp
  show ?thesis using assms(1,2) unfolding device_init_def unregister_chrdev_def
    by (elim kelim; clarsimp simp: diff_single_trivial [OF new])
qed

lemma device_exit_held:
  assumes "run_state (device_exit K) s = ((), s')" and "my_cdev s \<noteq> NULL"
  shows "held (klog s') = held (klog s) - chardev_owned s"
  using assms unfolding device_exit_def
  by (elim kelim; clarsimp simp: chardev_owned_def add_mset_commute)

interpretation chardev: kmodule_clean "device_init garbage" device_exit chardev_owned "\<lambda>_. True"
  "\<lambda>K. cdev_alloc_unused K \<and> garbage \<noteq> 0" for garbage
proof
  fix K s s'
  assume a: "cdev_alloc_unused K \<and> garbage \<noteq> 0" "run_state (device_init garbage K) s = (0, s')"
  then show "held (klog s') = held (klog s) + chardev_owned s'" by (simp add: device_init_success)
  fix l s''
  assume "run_state (device_exit K) (s'\<lparr>klog := l\<rparr>) = ((), s'')"
  then show "held (klog s'') = held l - chardev_owned s'"
    using device_exit_held [of K "s'\<lparr>klog := l\<rparr>" s''] a device_init_success [of garbage K s s']
    by (simp add: chardev_owned_def)
next
  fix K s r s'
  assume "cdev_alloc_unused K \<and> garbage \<noteq> 0" "run_state (device_init garbage K) s = (r, s')" "r \<noteq> 0"
  then show "held (klog s') = held (klog s)" by (simp add: device_init_failed)
qed

subsection \<open>Properties\<close>

text \<open>
  Property C9. The module cleans up on every path: whatever the kernel answers, if loading fails
  nothing is held that was not held before, and if it succeeds unloading gives everything back.
  The indeterminate value a failed \<open>cdev_alloc\<close> returns is assumed not to be 0.
\<close>

theorem chardev_insmod_rmmod_balanced:
  assumes "cdev_alloc_unused K" and "garbage \<noteq> 0"
    and "run_state (device_init garbage K) s = (r, s')" and "run_state (device_exit K) s' = ((), s'')"
  shows "held (klog (if r = 0 then s'' else s')) = held (klog s)"
  using chardev.insmod_rmmod_balanced [of K garbage s r s' s''] assms by blast

text \<open>A kernel that never hands out an object in use, and whose \<open>cdev_add\<close> fails.\<close>

definition no_add_kernel :: kernel where
  "no_add_kernel = granting_kernel\<lparr>
     cdev_alloc_ans := (\<lambda>l. if RAddedCdev 0x50000 \<in># held l then NULL else 0x50000),
     cdev_add_ans := (\<lambda>_ _ _ _. - 12)\<rparr>"

theorem chardev_insmod_rmmod_balanced_witness:
  "\<exists>s'. run_state (device_init 7 no_add_kernel) (chardev_start []) = (- 12, s') \<and> held (klog s') = {#}"
proof -
  obtain r s' where run: "run_state (device_init 7 no_add_kernel) (chardev_start []) = (r, s')" by force
  obtain s'' where ex: "run_state (device_exit no_add_kernel) s' = ((), s'')"
    by (metis old.unit.exhaust surj_pair)
  have "r = - 12" using run
    by (simp add: device_init_def unregister_chrdev_def kmonad no_add_kernel_def granting_kernel_def chardev_start_def)
  moreover have "cdev_alloc_unused no_add_kernel"
    by (simp add: cdev_alloc_unused_def no_add_kernel_def)
  ultimately show ?thesis
    using chardev_insmod_rmmod_balanced [OF _ _ run ex] run by (simp add: chardev_start_def)
qed

text \<open>
  What \<open>device_init\<close> returns and what it calls, branch by branch: the error of
  \<open>alloc_chrdev_region\<close> or \<open>cdev_add\<close>, 0, or the indeterminate value when \<open>cdev_alloc\<close> fails;
  the device number is given back on the last two failures, the object before it.
\<close>

lemma device_init_result:
  assumes "alloc_chrdev_region_ans K (klog s) (dev_count s) MY_NAME = (e, d)"
    and "l1 = klog s @ [Alloc_chrdev_region d (dev_count s) MY_NAME e]"
    and "l2 = l1 @ [Cdev_alloc (cdev_alloc_ans K l1), Cdev_init (cdev_alloc_ans K l1)]"
    and "run_state (device_init garbage K) s = (r, s')"
  shows "let p = cdev_alloc_ans K l1; a = cdev_add_ans K l2 p d (dev_count s) in
     r = (if e \<noteq> 0 then e else if p = NULL then garbage else a)
   \<and> calls (klog s') =
      (if e \<noteq> 0 then calls l1
       else if p = NULL then calls l1 @ [Cdev_alloc NULL, Unregister_chrdev_region d (dev_count s)]
       else if a \<noteq> 0 then calls l2 @ [Cdev_add p d (dev_count s) a, Cdev_del p,
              Unregister_chrdev_region d (dev_count s)]
       else calls l2 @ [Cdev_add p d (dev_count s) 0])"
proof -
  have ends: "r = fst (run_state (device_init garbage K) s)" "s' = snd (run_state (device_init garbage K) s)"
    using assms(4) by simp_all
  show ?thesis unfolding ends Let_def assms(2,3)
    by (cases "e = 0"; cases "cdev_alloc_ans K (klog s @ [Alloc_chrdev_region d (dev_count s) MY_NAME e]) = NULL")
      (simp_all add: device_init_def unregister_chrdev_def kmonad assms(1))
qed

text \<open>
  When \<open>cdev_alloc\<close> fails and the indeterminate value happens to be 0, the load counts
  as a success although the module has no device and no longer its device number; unloading then
  gives that number back a second time.
\<close>

lemma device_init_false_success:
  assumes "alloc_chrdev_region_ans K (klog s) (dev_count s) MY_NAME = (0, d)"
    and "cdev_alloc_ans K (klog s @ [Alloc_chrdev_region d (dev_count s) MY_NAME 0]) = NULL"
    and "run_state (device_init 0 K) s = (r, s')" and "run_state (device_exit K) s' = ((), s'')"
  shows "r = 0 \<and> held (klog s') = held (klog s)
     \<and> held (klog s'') = held (klog s) - {#RRegion d (dev_count s)#}"
  using assms by (auto simp: device_init_def device_exit_def unregister_chrdev_def kmonad)

subsection \<open>The user program\<close>

text \<open>
  \<^verbatim>\<open>src/exp4/exp4.1.user.c\<close> opens the device and reads from it. Whether path lookup finds a node for
  the program's \<open>/dev/my_device_char\<close> that it may open, and with which device number, is \<open>node\<close>
  (\<open>Inl\<close> with the text of the error otherwise). The kernel passes the calls on through the module's table \<open>my_fps\<close>; the module is
  loaded. The result is the exit status, what the program prints to the terminal, the buffer and the module's state.
\<close>

definition USER_NAME :: string where
  "USER_NAME = ''/dev/my_device_char''"

definition user_main ::
  "kernel \<Rightarrow> (string \<Rightarrow> string + u32) \<Rightarrow> bytes \<Rightarrow> chardev_st \<Rightarrow> int \<times> string list \<times> bytes \<times> chardev_st" where
  "user_main K node buffer s =
     (let (fd, s1) = (case node USER_NAME of Inl _ \<Rightarrow> (- 1, s) | Inr rdev \<Rightarrow> run_state (fop_open my_fps K rdev) s)
      in if fd < 0
         then (- 1, [''Failed to open device: '' @ (case node USER_NAME of Inl e \<Rightarrow> e | Inr _ \<Rightarrow> []) @ nl], buffer, s1)
         else let (n, s2) = run_state (fop_read my_fps) s1;
                  out = [''Ready to read device'' @ nl, ''Read device success'' @ nl]
              in (0, out, buffer, s2))"



end
