(* ===== verification/Procfs.thy ===== *)
theory Procfs
  imports Kernel
begin

section \<open>The /proc file of experiment 3.1\<close>

text \<open>
  \<^verbatim>\<open>src/exp3/exp3.1.c\<close>: a module with the file \<^verbatim>\<open>/proc/hello/world\<close>, whose contents are the
  256-byte array \<open>PROC_MSG\<close>. A writer replaces the message; a reader gets the whole message on
  one call and 0 (end of file) on the next, by the function's static variable \<open>finished\<close>.

  A caller's buffer is the list of its bytes, so the \<open>count\<close> of a write is the length of that list
  (a \<open>size_t\<close>). A result is the return value with the new state, or a fault. Reads also return
  the bytes that were copied to the caller's buffer and the new file position.
\<close>

definition PROC_MSG_LEN :: nat where "PROC_MSG_LEN = 256"
definition PROC_DIR :: string where "PROC_DIR = ''hello''"
definition PROC_FILE :: string where "PROC_FILE = ''world''"

record procfs_st = kctx +
  PROC_MSG :: bytes
  proc_mkdir_success :: ptr
  proc_create_success :: ptr
  finished :: bool

definition procfs_start :: "klog \<Rightarrow> procfs_st" where
  "procfs_start l = \<lparr>klog = l,
     PROC_MSG = bytes_of (''Hello, World!'' @ nl) @ replicate (PROC_MSG_LEN - 14) 0,
     proc_mkdir_success = NULL, proc_create_success = NULL, finished = False\<rparr>"

definition msg_string :: "bytes \<Rightarrow> string" where
  "msg_string bs = map (\<lambda>b. char_of (unat b)) bs"

subsection \<open>Write and read\<close>

definition proc_write :: "kernel \<Rightarrow> procfs_st \<Rightarrow> bytes \<Rightarrow> kfault + int \<times> procfs_st" where
  "proc_write K s buffer =
     (let s1 = snd (run_state (printk (''proc_write called'' @ nl) []) s);
          n = length buffer
      in if n > PROC_MSG_LEN - 1
         then Inr (- EINVAL, snd (run_state (printk (''Error: Message too long'' @ nl) []) s1))
         else case mem_write (PROC_MSG s) 0 (user_bytes K (klog s1) buffer) of
                None \<Rightarrow> Inl Bad_access
              | Some m \<Rightarrow>
                  (let left = copy_from_user_ans K (klog s1) (of_nat n);
                       s2 = s1\<lparr>klog := klog s1 @ [Copy_from_user (of_nat n) left], PROC_MSG := m\<rparr>
                   in if left \<noteq> 0
                      then Inr (- EFAULT, snd (run_state (printk (''Error: Copy from user failed'' @ nl) []) s2))
                      else case mem_write m n [0] of
                             None \<Rightarrow> Inl Bad_access
                           | Some m' \<Rightarrow>
                               (case strlen m' of
                                  None \<Rightarrow> Inl Bad_access
                                | Some k \<Rightarrow>
                                    Inr (int n, snd (run_state (printk (''Message written: %s'' @ nl)
                                           [KStr (msg_string (take k m'))]) (s2\<lparr>PROC_MSG := m'\<rparr>))))))"

text \<open>The length \<open>cnt\<close> of the caller's buffer is an argument that the function does not use.\<close>

definition proc_read ::
  "kernel \<Rightarrow> procfs_st \<Rightarrow> u64 \<Rightarrow> u64 \<Rightarrow> kfault + int \<times> bytes \<times> u64 \<times> procfs_st" where
  "proc_read K s cnt pos =
     (let s1 = snd (run_state (printk (''proc_read called'' @ nl) []) s)
      in if finished s1 then Inr (0, [], pos, s1\<lparr>finished := False\<rparr>)
         else case strlen (PROC_MSG s1) of
                None \<Rightarrow> Inl Bad_access
              | Some k \<Rightarrow>
                  (let left = copy_to_user_ans K (klog s1) (of_nat k);
                       s2 = s1\<lparr>klog := klog s1 @ [Copy_to_user (of_nat k) left], finished := True\<rparr>;
                       copied = take (k - left) (PROC_MSG s1)
                   in if left \<noteq> 0
                      then Inr (- EFAULT, copied, pos,
                             snd (run_state (printk (''Error: Copy to user failed'' @ nl) []) s2))
                      else Inr (int k, copied, pos + of_nat k, s2)))"

subsection \<open>Loading and unloading\<close>

text \<open>The mode 0666 is 438.\<close>

definition initexp3_1 :: "kernel \<Rightarrow> (procfs_st, int) state" where
  "initexp3_1 K = do {
     printk (''Entering exp3_1'' @ nl) [];
     d \<leftarrow> kcall (\<lambda>l. proc_mkdir_ans K l PROC_DIR NULL) (Proc_mkdir PROC_DIR NULL);
     modify (\<lambda>s. s\<lparr>proc_mkdir_success := d\<rparr>);
     if d = NULL then do {
       printk (''Error: Could not create dir /proc/hello'' @ nl) [];
       State_Monad.return (- ENOMEM)
     } else do {
       f \<leftarrow> kcall (\<lambda>l. proc_create_ans K l PROC_FILE d) (Proc_create PROC_FILE 438 d);
       modify (\<lambda>s. s\<lparr>proc_create_success := f\<rparr>);
       if f = NULL then do {
         printk (''Error: Could not create file /proc/hello/world'' @ nl) [];
         State_Monad.return (- ENOMEM)
       } else State_Monad.return 0
     }
   }"

definition exitexp3_1 :: "kernel \<Rightarrow> (procfs_st, unit) state" where
  "exitexp3_1 K = do {
     printk (''Exiting exp3_1'' @ nl) [];
     d \<leftarrow> gets proc_mkdir_success;
     log_event (Remove_proc_entry PROC_FILE d);
     log_event (Remove_proc_entry PROC_DIR NULL)
   }"

definition procfs_owned :: "procfs_st \<Rightarrow> resource multiset" where
  "procfs_owned s = {#RProc PROC_FILE (proc_mkdir_success s), RProc PROC_DIR NULL#}"

subsection \<open>The invariant and the abstract file\<close>

text \<open>The array keeps its length and its last byte stays 0, so there is always a message in it.\<close>

definition procfs_inv :: "procfs_st \<Rightarrow> bool" where
  "procfs_inv s \<longleftrightarrow> length (PROC_MSG s) = PROC_MSG_LEN \<and> PROC_MSG s ! (PROC_MSG_LEN - 1) = 0"

text \<open>What the file promises: a message, the bytes up to the first NUL.\<close>

definition message :: "procfs_st \<Rightarrow> bytes" where
  "message s = takeWhile (\<lambda>b. b \<noteq> 0) (PROC_MSG s)"

text \<open>A user's call, and a sequence of them; the results are the return values and the data read.\<close>

datatype proc_op = PWrite bytes | PRead u64

fun proc_step :: "kernel \<Rightarrow> procfs_st \<Rightarrow> proc_op \<Rightarrow> kfault + (int \<times> bytes) \<times> procfs_st" where
  "proc_step K s (PWrite xs) = map_sum id (\<lambda>(r, s'). ((r, []), s')) (proc_write K s xs)"
| "proc_step K s (PRead n) = map_sum id (\<lambda>(r, xs, _, s'). ((r, xs), s')) (proc_read K s n 0)"

fun proc_run :: "kernel \<Rightarrow> procfs_st \<Rightarrow> proc_op list \<Rightarrow> kfault + (int \<times> bytes) list \<times> procfs_st" where
  "proc_run K s [] = Inr ([], s)"
| "proc_run K s (a # as) =
     (case proc_step K s a of
        Inl e \<Rightarrow> Inl e
      | Inr rs \<Rightarrow> map_sum id (\<lambda>(rs', s'). (fst rs # rs', s')) (proc_run K (snd rs) as))"

text \<open>A kernel whose copies to and from user space are complete.\<close>

definition user_accessible :: "kernel \<Rightarrow> bool" where
  "user_accessible K \<longleftrightarrow> (\<forall>l n. copy_from_user_ans K l n = 0 \<and> copy_to_user_ans K l n = 0)"

subsection \<open>Lemmas\<close>

lemma strlen_takeWhile: "strlen bs = Some k \<Longrightarrow> takeWhile (\<lambda>b. b \<noteq> 0) bs = take k bs \<and> k < length bs"
  by (induction bs arbitrary: k) (auto split: if_splits)

lemma procfs_inv_strlen:
  assumes "procfs_inv s"
  shows "strlen (PROC_MSG s) = Some (length (message s))" and "length (message s) < PROC_MSG_LEN"
proof -
  from assms obtain k where k: "strlen (PROC_MSG s) = Some k"
    using strlen_nth_bound [of "PROC_MSG_LEN - 1" "PROC_MSG s"] by (auto simp: procfs_inv_def PROC_MSG_LEN_def)
  then have "length (message s) = k" using strlen_takeWhile [OF k] by (simp add: message_def)
  then show "strlen (PROC_MSG s) = Some (length (message s))" "length (message s) < PROC_MSG_LEN"
    using k strlen_takeWhile [OF k] assms by (simp_all add: procfs_inv_def)
qed

lemma message_prefix:
  assumes "procfs_inv s"
  shows "take (length (message s)) (PROC_MSG s) = message s"
  using strlen_takeWhile [OF procfs_inv_strlen(1) [OF assms]] by (simp add: message_def)

text \<open>Copying a short buffer to the front of the array keeps the invariant; so does the NUL after it.\<close>

lemma overlay_inv:
  assumes "length m = PROC_MSG_LEN" "m ! (PROC_MSG_LEN - 1) = 0" "length xs \<le> PROC_MSG_LEN - 1"
  shows "\<exists>m'. mem_write m 0 xs = Some m' \<and> length m' = PROC_MSG_LEN \<and> m' ! (PROC_MSG_LEN - 1) = 0
     \<and> take (length xs) m' = xs"
  using assms by (auto simp: mem_write_def nth_append PROC_MSG_LEN_def)

lemma terminate_inv:
  assumes "length m = PROC_MSG_LEN" "m ! (PROC_MSG_LEN - 1) = 0" "n \<le> PROC_MSG_LEN - 1"
  shows "\<exists>m'. mem_write m n [0] = Some m' \<and> length m' = PROC_MSG_LEN \<and> m' ! (PROC_MSG_LEN - 1) = 0
     \<and> takeWhile (\<lambda>b. b \<noteq> 0) m' = takeWhile (\<lambda>b. b \<noteq> 0) (take n m)
     \<and> (\<exists>k. strlen m' = Some k)"
proof -
  have "take n m @ 0 # drop (Suc n) m = m[n := 0]"
    using assms by (intro upd_conv_take_nth_drop [symmetric]) (simp add: PROC_MSG_LEN_def)
  moreover have "(take n m @ 0 # drop (Suc n) m) ! (PROC_MSG_LEN - 1) = 0"
    using assms unfolding calculation by (simp add: nth_list_update PROC_MSG_LEN_def)
  moreover have "\<exists>k. strlen (take n m @ 0 # drop (Suc n) m) = Some k" by (rule strlen_exists) simp
  moreover have "takeWhile (\<lambda>b. b \<noteq> 0) (take n m @ 0 # drop (Suc n) m) = takeWhile (\<lambda>b. b \<noteq> 0) (take n m)"
    by (simp add: takeWhile_tail)
  ultimately show ?thesis using assms by (simp add: mem_write_def PROC_MSG_LEN_def)
qed

text \<open>A write on every branch.\<close>

lemma proc_write_spec:
  assumes "procfs_inv s"
  shows "\<exists>r s'. proc_write K s xs = Inr (r, s') \<and> procfs_inv s' \<and> finished s' = finished s
     \<and> (if PROC_MSG_LEN - 1 < length xs then r = - EINVAL \<and> message s' = message s
        else if copy_from_user_ans K (klog s @ [Printk (''proc_write called'' @ nl) []]) (of_nat (length xs)) \<noteq> 0
        then r = - EFAULT
        else r = int (length xs) \<and> message s' = takeWhile (\<lambda>b. b \<noteq> 0) xs)"
proof -
  let ?l = "klog s @ [Printk (''proc_write called'' @ nl) []]"
  let ?left = "copy_from_user_ans K ?l (of_nat (length xs))"
  show ?thesis
  proof (cases "PROC_MSG_LEN - 1 < length xs")
    case True
    then show ?thesis using assms
      by (simp add: proc_write_def kmonad procfs_inv_def message_def)
  next
    case False
    then obtain m where m: "mem_write (PROC_MSG s) 0 (user_bytes K ?l xs) = Some m"
        "length m = PROC_MSG_LEN" "m ! (PROC_MSG_LEN - 1) = 0" "take (length xs) m = user_bytes K ?l xs"
      using overlay_inv [of "PROC_MSG s" "user_bytes K ?l xs"] assms by (auto simp: procfs_inv_def)
    obtain m' k where m': "mem_write m (length xs) [0] = Some m'" "length m' = PROC_MSG_LEN"
        "m' ! (PROC_MSG_LEN - 1) = 0" "strlen m' = Some k"
        "takeWhile (\<lambda>b. b \<noteq> 0) m' = takeWhile (\<lambda>b. b \<noteq> 0) (take (length xs) m)"
      using terminate_inv [OF m(2,3), of "length xs"] False by auto
    have msg: "takeWhile (\<lambda>b. b \<noteq> 0) m' = takeWhile (\<lambda>b. b \<noteq> 0) xs" if "?left = 0"
      using m'(5) m(4) user_bytes_complete [OF that] by simp
    show ?thesis using False m m' msg
      by (cases "?left = 0") (simp_all add: proc_write_def Let_def kmonad procfs_inv_def message_def)
  qed
qed

text \<open>A read on every branch.\<close>

lemma proc_read_spec:
  assumes "procfs_inv s"
  shows "\<exists>r ys pos' s'. proc_read K s cnt pos = Inr (r, ys, pos', s')
     \<and> PROC_MSG s' = PROC_MSG s \<and> finished s' = (\<not> finished s)
     \<and> (if finished s then r = 0 \<and> ys = [] \<and> pos' = pos
        else let left = copy_to_user_ans K (klog s @ [Printk (''proc_read called'' @ nl) []])
                          (of_nat (length (message s)))
             in if left \<noteq> 0
                then r = - EFAULT \<and> ys = take (length (message s) - left) (message s) \<and> pos' = pos
                else r = int (length (message s)) \<and> ys = message s
                   \<and> pos' = pos + of_nat (length (message s)))"
proof -
  have "take (length (message s) - left) (PROC_MSG s) = take (length (message s) - left) (message s)" for left
    using message_prefix [OF assms] by (metis diff_le_self min.absorb2 min.commute take_take)
  then show ?thesis using procfs_inv_strlen(1) [OF assms] message_prefix [OF assms]
    by (simp add: proc_read_def Let_def kmonad)
qed

lemma proc_step_spec:
  assumes "procfs_inv s"
  shows "\<exists>res s'. proc_step K s a = Inr (res, s') \<and> procfs_inv s'"
proof (cases a)
  case (PWrite xs)
  then show ?thesis using proc_write_spec [OF assms, of K xs] by auto
next
  case (PRead n)
  obtain r ys pos' s' where "proc_read K s n 0 = Inr (r, ys, pos', s')" "PROC_MSG s' = PROC_MSG s"
    using proc_read_spec [OF assms, of K n 0] by blast
  then show ?thesis using PRead assms by (simp add: procfs_inv_def)
qed

lemma proc_step_read:
  assumes "procfs_inv s" and "user_accessible K"
  shows "\<exists>s'. proc_step K s (PRead n) =
      Inr (if finished s then (0, []) else (int (length (message s)), message s), s')
    \<and> procfs_inv s' \<and> message s' = message s \<and> finished s' = (\<not> finished s)"
proof -
  obtain r ys pos' s' where r: "proc_read K s n 0 = Inr (r, ys, pos', s')" "PROC_MSG s' = PROC_MSG s"
    "finished s' = (\<not> finished s)"
    "if finished s then r = 0 \<and> ys = [] else r = int (length (message s)) \<and> ys = message s"
    using proc_read_spec [OF assms(1), of K n 0] assms(2)
    unfolding user_accessible_def Let_def by (auto split: if_splits)
  then show ?thesis using assms(1) by (auto simp: procfs_inv_def message_def)
qed

lemma proc_step_write:
  assumes "procfs_inv s" and "user_accessible K" and "length xs < PROC_MSG_LEN"
  shows "\<exists>s'. proc_step K s (PWrite xs) = Inr ((int (length xs), []), s') \<and> procfs_inv s'
    \<and> message s' = takeWhile (\<lambda>b. b \<noteq> 0) xs \<and> finished s' = finished s"
  using proc_write_spec [OF assms(1), of K xs] assms(2,3)
  by (fastforce simp: user_accessible_def split: if_splits)

lemma initexp3_1_held:
  assumes "run_state (initexp3_1 K) s = (r, s')"
  shows "held (klog s') = held (klog s) +
     (if r = 0 then procfs_owned s'
      else if proc_mkdir_success s' = NULL then {#} else {#RProc PROC_DIR NULL#})"
  using assms unfolding initexp3_1_def
  by (elim kelim; clarsimp simp: errno_defs procfs_owned_def add_mset_commute)

lemma exitexp3_1_held:
  assumes "run_state (exitexp3_1 K) s = ((), s')"
  shows "held (klog s') = held (klog s) - procfs_owned s"
  using assms unfolding exitexp3_1_def by (elim kelim; clarsimp simp: procfs_owned_def add_mset_commute)

interpretation procfs: kmodule initexp3_1 exitexp3_1 procfs_owned "\<lambda>_. True" "\<lambda>_. True"
  by unfold_locales (auto simp: initexp3_1_held procfs_owned_def dest!: exitexp3_1_held)

text \<open>Reading again and again.\<close>

lemma proc_run_reads:
  assumes "procfs_inv s" and "user_accessible K"
  shows "\<exists>rs s'. proc_run K s (map PRead ns) = Inr (rs, s') \<and> length rs = length ns
     \<and> (\<forall>i < length ns. rs ! i =
          (if even i = finished s then (0, []) else (int (length (message s)), message s)))"
  using assms(1)
proof (induction ns arbitrary: s)
  case (Cons n ns)
  obtain s1 where s1: "proc_step K s (PRead n) =
      Inr (if finished s then (0, []) else (int (length (message s)), message s), s1)"
    "procfs_inv s1" "message s1 = message s" "finished s1 = (\<not> finished s)"
    using proc_step_read [OF Cons.prems assms(2)] by blast
  obtain rs s' where rs: "proc_run K s1 (map PRead ns) = Inr (rs, s')" "length rs = length ns"
    "\<forall>i < length ns. rs ! i = (if even i = finished s1 then (0, []) else (int (length (message s1)), message s1))"
    using Cons.IH [OF s1(2)] by blast
  show ?case using s1 rs by (auto simp: nth_Cons split: nat.splits)
qed simp

lemma procfs_start_inv [simp]: "procfs_inv (procfs_start l)"
  by (simp add: procfs_inv_def procfs_start_def PROC_MSG_LEN_def nth_append)

lemma procfs_start_finished [simp]: "\<not> finished (procfs_start l)"
  by (simp add: procfs_start_def)

lemma granting_user [simp]: "user_accessible granting_kernel"
  by (simp add: user_accessible_def granting_kernel_def)

lemma procfs_start_message: "message (procfs_start l) = bytes_of (''Hello, World!'' @ nl)"
  by (simp add: message_def procfs_start_def bytes_of_def PROC_MSG_LEN_def)

subsection \<open>Properties\<close>

text \<open>
  Property C7. The file never faults: from the state the module is loaded in, every sequence of
  reads and writes, with data of any length and a kernel whose copies may fail at any point,
  returns a result for every call and keeps the array \<open>PROC_MSG\<close> at its length with a NUL in its
  last byte.
\<close>

theorem proc_run_safe:
  assumes "procfs_inv s"
  shows "\<exists>rs s'. proc_run K s ops = Inr (rs, s') \<and> length rs = length ops \<and> procfs_inv s'"
  using assms
proof (induction ops arbitrary: s)
  case (Cons a ops)
  then obtain res s1 where s1: "proc_step K s a = Inr (res, s1)" "procfs_inv s1"
    using proc_step_spec [of s K a] by blast
  then obtain rs s' where "proc_run K s1 ops = Inr (rs, s')" "length rs = length ops" "procfs_inv s'"
    using Cons.IH [OF s1(2)] by blast
  then show ?case using s1 by simp
qed simp

theorem proc_run_safe_witness:
  "\<exists>rs s'. proc_run granting_kernel (procfs_start []) [PWrite (replicate 255 1), PRead 10, PWrite (replicate 300 2)]
     = Inr (rs, s') \<and> length rs = 3 \<and> procfs_inv s'"
  using proc_run_safe [of "procfs_start []" granting_kernel
      "[PWrite (replicate 255 1), PRead 10, PWrite (replicate 300 2)]"] by (simp add: numeral_3_eq_3)

text \<open>
  Property C14. What is written is read: after a write of at most 255 bytes without a NUL, the next
  two reads of a file at rest return that message and then end of file, and the message stays
  there for the following readers. Longer writes are refused with \<open>-EINVAL\<close> and change nothing.
\<close>

theorem proc_write_read_roundtrip:
  assumes "procfs_inv s" and "user_accessible K" and "\<not> finished s" and "0 \<notin> set xs"
  shows "\<exists>s'. proc_run K s [PWrite xs, PRead n, PRead m] =
      Inr (if length xs < PROC_MSG_LEN
           then [(int (length xs), []), (int (length xs), xs), (0, [])]
           else [(- EINVAL, []), (int (length (message s)), message s), (0, [])], s')
    \<and> message s' = (if length xs < PROC_MSG_LEN then xs else message s) \<and> \<not> finished s'"
proof -
  have tw: "takeWhile (\<lambda>b. b \<noteq> 0) xs = xs" using assms(4) by (auto simp: takeWhile_eq_all_conv)
  obtain s1 where s1: "proc_step K s (PWrite xs) =
      Inr (if length xs < PROC_MSG_LEN then (int (length xs), []) else (- EINVAL, []), s1)"
    "procfs_inv s1" "message s1 = (if length xs < PROC_MSG_LEN then xs else message s)" "\<not> finished s1"
  proof (cases "length xs < PROC_MSG_LEN")
    case True
    then show ?thesis using that proc_step_write [OF assms(1,2) True] tw assms(3) by auto
  next
    case False
    then have "PROC_MSG_LEN - 1 < length xs" by (simp add: PROC_MSG_LEN_def)
    then show ?thesis using that proc_write_spec [OF assms(1), of K xs] False assms(3) by auto
  qed
  obtain s2 where s2: "proc_step K s1 (PRead n) = Inr ((int (length (message s1)), message s1), s2)"
    "procfs_inv s2" "message s2 = message s1" "finished s2"
    using proc_step_read [OF s1(2) assms(2), of n] s1(4) by auto
  obtain s3 where "proc_step K s2 (PRead m) = Inr ((0, []), s3)" "message s3 = message s2" "\<not> finished s3"
    using proc_step_read [OF s2(2) assms(2), of m] s2(4) by auto
  then show ?thesis using s1 s2 by simp
qed

theorem proc_write_read_roundtrip_witness:
  "\<exists>s'. proc_run granting_kernel (procfs_start []) [PWrite [72, 105], PRead 99, PRead 99] =
      Inr ([(2, []), (2, [72, 105]), (0, [])], s') \<and> message s' = [72, 105] \<and> \<not> finished s'"
  using proc_write_read_roundtrip [of "procfs_start []" granting_kernel "[72, 105]" 99 99]
  by (simp add: PROC_MSG_LEN_def)

text \<open>
  Property C32. The end-of-file flag is one variable for all readers: among any reads in a row, by
  whichever processes, exactly every other one gets the message and the ones between get end of
  file. Two processes that read in turn therefore do not both get the message.
\<close>

theorem proc_reads_alternate:
  assumes "procfs_inv s" and "user_accessible K" and "\<not> finished s"
  shows "\<exists>rs s'. proc_run K s (map PRead ns) = Inr (rs, s') \<and> length rs = length ns
     \<and> (\<forall>i < length ns. rs ! i = (if even i then (int (length (message s)), message s) else (0, [])))"
  using proc_run_reads [OF assms(1,2), of ns] assms(3) by auto

theorem proc_reads_alternate_witness:
  "\<exists>rs s'. proc_run granting_kernel (procfs_start []) (map PRead [100, 200]) = Inr (rs, s')
     \<and> rs ! 0 = (14, bytes_of (''Hello, World!'' @ nl)) \<and> rs ! 1 = (0, [])"
proof -
  obtain rs s' where "proc_run granting_kernel (procfs_start []) (map PRead [100, 200]) = Inr (rs, s')"
    and i: "\<forall>i < length [100 :: u64, 200]. rs ! i = (if even i
        then (int (length (message (procfs_start []))), message (procfs_start [])) else (0, []))"
    using proc_reads_alternate [of "procfs_start []" granting_kernel "[100, 200]"] by auto
  moreover have "rs ! 0 = (14, bytes_of (''Hello, World!'' @ nl))" "rs ! 1 = (0, [])"
    using spec [OF i, of 0] spec [OF i, of 1] by (simp_all add: procfs_start_message)
  ultimately show ?thesis by blast
qed

text \<open>
  A read copies the whole message whatever the length of the caller's buffer is: with
  a message longer than \<open>cnt\<close> bytes, more than \<open>cnt\<close> bytes are copied to the caller and the return
  value exceeds \<open>cnt\<close>.
\<close>

lemma proc_read_overruns_buffer:
  assumes "procfs_inv s" and "user_accessible K" and "\<not> finished s" and "unat cnt < length (message s)"
  shows "\<exists>r ys pos' s'. proc_read K s cnt pos = Inr (r, ys, pos', s') \<and> ys = message s
     \<and> unat cnt < length ys \<and> int (unat cnt) < r"
  using proc_read_spec [OF assms(1), of K cnt pos] assms(2-4)
  unfolding user_accessible_def by (auto; metis of_nat_less_iff uint_nat)

text \<open>
  Loading and unloading: after a load that returned 0, unloading leaves exactly the
  entries that were there before; a load that fails leaves the directory behind once it was made.
\<close>

lemma procfs_lifecycle:
  assumes "run_state (initexp3_1 K) s = (r, s')" and "run_state (exitexp3_1 K) s' = ((), s'')"
  shows "(r = 0 \<longrightarrow> held (klog s'') = held (klog s))
     \<and> (r \<noteq> 0 \<longrightarrow> r = - ENOMEM \<and> held (klog s') = held (klog s) +
          (if proc_mkdir_success s' = NULL then {#} else {#RProc PROC_DIR NULL#}))"
proof -
  have "r = 0 \<or> r = - ENOMEM"
    using assms(1) unfolding initexp3_1_def by (elim kelim; clarsimp)
  then show ?thesis
    using procfs.load_unload_balanced [OF TrueI TrueI] assms initexp3_1_held [OF assms(1)]
    by (cases "r = 0") simp_all
qed

end
