(* ===== verification/Mapdrv.thy ===== *)
theory Mapdrv
  imports Kernel Block_Store
begin

unbundle bit_operations_syntax

section \<open>The mmap driver of experiment 2.4\<close>

text \<open>
  \<^verbatim>\<open>src/exp2/exp2.4/map_driver.c\<close>: ten pages of kernel memory, each stamped with a string when the
  module is loaded, that a process maps with \<open>mmap\<close>; the pages are handed over one by one in the
  page-fault handler. The memory behind \<open>vmalloc_area\<close> is the list \<open>area_bytes\<close>. The loops compare
  64-bit addresses and may run forever where those wrap, so they are partial functions: \<open>None\<close> is
  not returning, \<open>Inl\<close> a bad access. The test programs \<^verbatim>\<open>maptest_write.c\<close> and
  \<^verbatim>\<open>maptest_read.c\<close> are modelled on top of the handlers.
\<close>

definition PAGE_SHIFT :: nat where "PAGE_SHIFT = 12"
definition MAP_PAGE_COUNT :: nat where "MAP_PAGE_COUNT = 10"
definition MAPLEN :: nat where "MAPLEN = PAGE_SIZE * MAP_PAGE_COUNT"
definition MAP_DEV_MAJOR :: int where "MAP_DEV_MAJOR = 260"
definition MAP_DEV_NAME :: string where "MAP_DEV_NAME = ''mapnopage''"

record mapdrv_st = kctx +
  vmalloc_area :: ptr
  area_bytes :: bytes

definition mapdrv_start :: "klog \<Rightarrow> mapdrv_st" where
  "mapdrv_start l = \<lparr>klog = l, vmalloc_area = NULL, area_bytes = []\<rparr>"

subsection \<open>Loading and unloading\<close>

text \<open>The string the loop writes into a page.\<close>

definition stamp :: "nat \<Rightarrow> bytes" where
  "stamp i = cstring (''test '' @ decimal i)"

partial_function (option) init_loop ::
  "kernel \<Rightarrow> mapdrv_st \<Rightarrow> nat \<Rightarrow> u64 \<Rightarrow> (kfault + mapdrv_st) option" where
  "init_loop K s i virt_addr =
     (if virt_addr < vmalloc_area s + of_nat MAPLEN
      then case mem_write (area_bytes s) (unat (virt_addr - vmalloc_area s)) (stamp i) of
             None \<Rightarrow> Some (Inl Bad_access)
           | Some m \<Rightarrow>
               init_loop K (s\<lparr>klog := klog s @ [Set_page_reserved (vmalloc_to_page_ans K (klog s) virt_addr)],
                              area_bytes := m\<rparr>) (Suc i) (virt_addr + of_nat PAGE_SIZE)
      else Some (Inr s))"

text \<open>\<open>mapdrv_init\<close> does not look at whether \<open>vmalloc\<close> succeeded.\<close>

definition mapdrv_init :: "kernel \<Rightarrow> mapdrv_st \<Rightarrow> (kfault + int \<times> mapdrv_st) option" where
  "mapdrv_init K s =
     (let result = register_chrdev_ans K (klog s) MAP_DEV_MAJOR MAP_DEV_NAME;
          s1 = s\<lparr>klog := klog s @ [Register_chrdev MAP_DEV_MAJOR MAP_DEV_NAME result]\<rparr>
      in if result < 0 then Some (Inr (result, s1))
         else let (p, s2) = run_state (vmalloc K (of_nat MAPLEN)) s1;
                  s3 = s2\<lparr>vmalloc_area := p, area_bytes :=
                    (if p = NULL then [] else map (vmalloc_bytes K (klog s1)) [0..<MAPLEN])\<rparr>
              in map_option (map_sum id (\<lambda>s4.
                     (0, snd (run_state (printk ''vmalloc area apply complate!'' []) s4))))
                   (init_loop K s3 1 p))"

partial_function (option) exit_loop :: "kernel \<Rightarrow> mapdrv_st \<Rightarrow> u64 \<Rightarrow> mapdrv_st option" where
  "exit_loop K s virt_addr =
     (if virt_addr < vmalloc_area s + of_nat MAPLEN
      then exit_loop K (s\<lparr>klog := klog s @ [Clear_page_reserved (vmalloc_to_page_ans K (klog s) virt_addr)]\<rparr>)
             (virt_addr + of_nat PAGE_SIZE)
      else Some s)"

definition mapdrv_exit :: "kernel \<Rightarrow> mapdrv_st \<Rightarrow> mapdrv_st option" where
  "mapdrv_exit K s = map_option (\<lambda>s1. snd (run_state (do {
       (if vmalloc_area s1 \<noteq> NULL then vfree (vmalloc_area s1) else State_Monad.return ());
       log_event (Unregister_chrdev MAP_DEV_MAJOR MAP_DEV_NAME) }) s1))
     (exit_loop K s (vmalloc_area s))"

subsection \<open>File and memory-area operations\<close>

record vm_area_struct =
  vm_start :: u64
  vm_end :: u64
  vm_pgoff :: u64
  vm_flags :: u64
  vm_ops :: "string option"

record vm_fault =
  vmf_address :: u64
  vmf_pgoff :: u64
  vmf_vma :: "vm_area_struct option"
  vmf_page :: ptr

definition VM_READ :: u64 where "VM_READ = 0x1"
definition VM_WRITE :: u64 where "VM_WRITE = 0x2"
definition VM_SHARED :: u64 where "VM_SHARED = 0x8"
definition VM_LOCKONFAULT :: u64 where "VM_LOCKONFAULT = 0x80000"
definition VM_FAULT_SIGBUS :: int where "VM_FAULT_SIGBUS = 2"

text \<open>The area's flags are changed before the offset is looked at, so also when it is refused.\<close>

definition mapdrv_mmap :: "vm_area_struct \<Rightarrow> (mapdrv_st, int \<times> vm_area_struct) state" where
  "mapdrv_mmap vma = do {
     let offset = push_bit PAGE_SHIFT (vm_pgoff vma);
     let size = vm_end vma - vm_start vma;
     if size > of_nat MAPLEN then do {
       printk (''size too big'' @ nl) [];
       State_Monad.return (- ENXIO, vma)
     } else if vm_flags vma AND VM_WRITE \<noteq> 0 \<and> vm_flags vma AND VM_SHARED = 0 then do {
       printk (''writeable mappings must be shared, rejecting'' @ nl) [];
       State_Monad.return (- EINVAL, vma)
     } else do {
       let vma1 = vma\<lparr>vm_flags := vm_flags vma OR VM_LOCKONFAULT\<rparr>;
       if offset = 0 then State_Monad.return (0, vma1\<lparr>vm_ops := Some ''map_vm_ops''\<rparr>)
       else do {
         printk (''offset out of range'' @ nl) [];
         State_Monad.return (- ENXIO, vma1)
       }
     }
   }"

definition mapdrv_open :: "kernel \<Rightarrow> (mapdrv_st, int) state" where
  "mapdrv_open K = do {
     comm \<leftarrow> gets (\<lambda>s. current_comm K (klog s));
     pid \<leftarrow> gets (\<lambda>s. current_pid K (klog s));
     printk (''process: %s (%d)'' @ nl) [KStr comm, KInt pid];
     State_Monad.return 0
   }"

definition map_vopen :: "(mapdrv_st, unit) state" where
  "map_vopen = printk (''mapping vma is opened..'' @ nl) []"

definition map_vclose :: "(mapdrv_st, unit) state" where
  "map_vclose = printk (''mapping vma is closed..'' @ nl) []"

text \<open>The handler follows \<open>vmf->vma\<close> before it checks it: without an area that is a bad access.\<close>

definition map_fault :: "kernel \<Rightarrow> mapdrv_st \<Rightarrow> vm_fault \<Rightarrow> kfault + int \<times> vm_fault \<times> mapdrv_st" where
  "map_fault K s vmf =
     (case vmf_vma vmf of
        None \<Rightarrow> Inl Bad_access
      | Some vma \<Rightarrow>
          (let offset = vmf_address vmf - vm_start vma;
               virt_start = vmalloc_area s + push_bit PAGE_SHIFT (vmf_pgoff vmf);
               pfn_start = vmalloc_to_pfn_ans K (klog s) virt_start;
               s1 = snd (run_state (printk nl []) s)
           in if vmalloc_area s1 = NULL
              then Inr (VM_FAULT_SIGBUS, vmf, snd (run_state (printk (''return VM_FAULT_SIGBUS!'' @ nl) []) s1))
              else if offset \<ge> of_nat MAPLEN
              then Inr (VM_FAULT_SIGBUS, vmf, snd (run_state (printk ''return VM_FAULT_SIGBUS!'' []) s1))
              else let page_ptr = vmalloc_area s1 + offset;
                       page = vmalloc_to_page_ans K (klog s1) page_ptr
                   in Inr (0, vmf\<lparr>vmf_page := page\<rparr>, snd (run_state (do {
                        log_event (Get_page page);
                        printk (''%s: map 0x%lx (0x%016lx) to 0x%lx , size: 0x%lx, page:%ld '' @ nl)
                          [KStr ''map_fault'', KInt (uint virt_start),
                           KInt (uint (push_bit PAGE_SHIFT pfn_start)), KInt (uint (vmf_address vmf)),
                           KInt (int PAGE_SIZE), KInt (sint (vmf_pgoff vmf))] }) s1))))"

subsection \<open>The test programs\<close>

text \<open>
  A process touches an address of its mapping: the fault handler hands over a page, and the page
  shows the part of the driver's memory it belongs to. \<open>vma_of\<close> is the area \<open>mmap\<close> builds for a
  mapping of \<open>len\<close> bytes from file offset 0 at an address \<open>a\<close> the kernel chose.
\<close>

definition vma_of :: "u64 \<Rightarrow> nat \<Rightarrow> u64 \<Rightarrow> vm_area_struct" where
  "vma_of a len flags = \<lparr>vm_start = a, vm_end = a + of_nat len, vm_pgoff = 0, vm_flags = flags, vm_ops = None\<rparr>"

definition frame :: "kernel \<Rightarrow> mapdrv_st \<Rightarrow> ptr \<Rightarrow> nat option" where
  "frame K s page = find (\<lambda>k. vmalloc_to_page_ans K (klog s) (vmalloc_area s + of_nat (PAGE_SIZE * k)) = page)
     [0..<MAP_PAGE_COUNT]"

definition touch :: "kernel \<Rightarrow> mapdrv_st \<Rightarrow> vm_area_struct \<Rightarrow> u64 \<Rightarrow> (nat \<times> mapdrv_st) option" where
  "touch K s vma a =
     (case map_fault K s \<lparr>vmf_address = a, vmf_pgoff = vm_pgoff vma + drop_bit PAGE_SHIFT (a - vm_start vma),
                          vmf_vma = Some vma, vmf_page = NULL\<rparr> of
        Inl _ \<Rightarrow> None
      | Inr (r, vmf, s') \<Rightarrow> if r \<noteq> 0 then None
          else map_option (\<lambda>k. (k, s')) (frame K s' (vmf_page vmf)))"

definition map_call :: "mapdrv_st \<Rightarrow> vm_area_struct \<Rightarrow> (vm_area_struct \<times> mapdrv_st) option" where
  "map_call s vma =
     (let ((r, vma'), s') = run_state (mapdrv_mmap vma) s in if r = 0 then Some (vma', s') else None)"

definition LEN :: nat where "LEN = 10 * 4096"

text \<open>
  The part of the programs before their endless \<open>sleep\<close> loops, once \<open>open\<close> has succeeded: the
  strings printed, and \<open>None\<close> when the program is killed. The second reads the pages 0 and 1.
\<close>

definition maptest_write :: "kernel \<Rightarrow> u64 \<Rightarrow> mapdrv_st \<Rightarrow> mapdrv_st option" where
  "maptest_write K a s =
     (case map_call s (vma_of a LEN (VM_READ OR VM_WRITE OR VM_SHARED)) of
        None \<Rightarrow> None
      | Some (vma, s1) \<Rightarrow>
          (case touch K s1 vma a of
             None \<Rightarrow> None
           | Some (k, s2) \<Rightarrow>
               map_option (\<lambda>m. s2\<lparr>area_bytes := m\<rparr>)
                 (mem_write (area_bytes s2) (PAGE_SIZE * k) (cstring ''write from userspace''))))"

definition print_page :: "kernel \<Rightarrow> mapdrv_st \<Rightarrow> vm_area_struct \<Rightarrow> nat \<Rightarrow> (bytes \<times> mapdrv_st) option" where
  "print_page K s vma i =
     (case touch K s vma (vm_start vma + of_nat (4096 * i)) of
        None \<Rightarrow> None
      | Some (k, s') \<Rightarrow>
          map_option (\<lambda>n. (take n (drop (PAGE_SIZE * k) (area_bytes s')), s'))
            (strlen (drop (PAGE_SIZE * k) (area_bytes s'))))"

definition maptest_read :: "kernel \<Rightarrow> u64 \<Rightarrow> mapdrv_st \<Rightarrow> (bytes list \<times> mapdrv_st) option" where
  "maptest_read K a s =
     (case map_call s (vma_of a LEN VM_READ) of
        None \<Rightarrow> None
      | Some (vma, s1) \<Rightarrow>
          (case print_page K s1 vma 0 of
             None \<Rightarrow> None
           | Some (x, s2) \<Rightarrow> map_option (\<lambda>(y, s3). ([x, y], s3)) (print_page K s2 vma 1)))"

subsection \<open>The contract\<close>

text \<open>
  What the handlers rely on of the kernel's page tables: looking an address up does not depend on
  what was called before, and different pages of the area have different page structures.
\<close>

definition page_lookup :: "kernel \<Rightarrow> ptr \<Rightarrow> ptr" where
  "page_lookup K a = vmalloc_to_page_ans K [] a"

definition page_tables_ok :: "kernel \<Rightarrow> ptr \<Rightarrow> bool" where
  "page_tables_ok K p \<longleftrightarrow>
     (\<forall>l a. vmalloc_to_page_ans K l a = page_lookup K a)
   \<and> (\<forall>i < MAP_PAGE_COUNT. \<forall>j < MAP_PAGE_COUNT.
        page_lookup K (p + of_nat (PAGE_SIZE * i)) = page_lookup K (p + of_nat (PAGE_SIZE * j)) \<longrightarrow> i = j)"

text \<open>Memory the driver got from \<open>vmalloc\<close>: not null, and not at the very end of the address space.\<close>

definition area_ok :: "ptr \<Rightarrow> bool" where
  "area_ok p \<longleftrightarrow> p \<noteq> NULL \<and> unat p + MAPLEN < 2 ^ 64"

text \<open>The writes the loop makes from page \<open>k\<close> on, and the calls.\<close>

definition stamps :: "nat \<Rightarrow> (nat \<times> bytes) list" where
  "stamps k = map (\<lambda>j. (PAGE_SIZE * j, stamp (Suc j))) [k..<MAP_PAGE_COUNT]"

definition area_pages :: "kernel \<Rightarrow> ptr \<Rightarrow> nat \<Rightarrow> ptr list" where
  "area_pages K p k = map (\<lambda>j. page_lookup K (p + of_nat (PAGE_SIZE * j))) [k..<MAP_PAGE_COUNT]"

text \<open>
  What a loaded driver holds, and the two functions as the module loader sees them: an \<open>init\<close> that
  faults or does not return has not returned 0.
\<close>

definition mapdrv_owned :: "kernel \<Rightarrow> mapdrv_st \<Rightarrow> resource multiset" where
  "mapdrv_owned K s = {#RChrdev MAP_DEV_MAJOR MAP_DEV_NAME, RMem (vmalloc_area s)#}
     + image_mset RReservedPage (mset (area_pages K (vmalloc_area s) 0))"

definition mapdrv_init_ret :: "kernel \<Rightarrow> (mapdrv_st, int) state" where
  "mapdrv_init_ret K = State (\<lambda>s. case mapdrv_init K s of Some (Inr rs) \<Rightarrow> rs | _ \<Rightarrow> (- 1, s))"

definition mapdrv_exit_ret :: "kernel \<Rightarrow> (mapdrv_st, unit) state" where
  "mapdrv_exit_ret K = State (\<lambda>s. case mapdrv_exit K s of Some s' \<Rightarrow> ((), s') | None \<Rightarrow> ((), s))"

definition mapdrv_kernel_ok :: "kernel \<Rightarrow> bool" where
  "mapdrv_kernel_ok K \<longleftrightarrow>
     (\<forall>l. vmalloc_ans K l (of_nat MAPLEN) \<noteq> NULL \<longrightarrow>
        area_ok (vmalloc_ans K l (of_nat MAPLEN)) \<and> page_tables_ok K (vmalloc_ans K l (of_nat MAPLEN)))"

subsection \<open>Lemmas: the loops\<close>

lemmas map_consts = PAGE_SIZE_def MAP_PAGE_COUNT_def MAPLEN_def

lemma page_addr:
  assumes "unat p + MAPLEN < 2 ^ 64" and "n \<le> MAPLEN"
  shows "unat (p + of_nat n :: u64) = unat p + n"
proof -
  have "unat (of_nat n :: u64) = n" using assms(2) by (simp add: map_consts unat_of_nat take_bit_nat_eq_self)
  then show ?thesis using assms unat_add_no_wrap [of p "of_nat n"] by (simp add: map_consts)
qed

lemma page_less:
  assumes "unat (p :: u64) + MAPLEN < 2 ^ 64" and "k \<le> MAP_PAGE_COUNT"
  shows "p + of_nat (PAGE_SIZE * k) < p + of_nat MAPLEN \<longleftrightarrow> k < MAP_PAGE_COUNT"
  using assms page_addr [of p "PAGE_SIZE * k"] page_addr [of p MAPLEN]
  unfolding word_less_nat_alt by (simp add: map_consts)

lemma page_offset:
  assumes "k < MAP_PAGE_COUNT"
  shows "unat (p + of_nat (PAGE_SIZE * k) - p :: u64) = PAGE_SIZE * k"
  using assms by (simp add: map_consts unat_of_nat take_bit_nat_eq_self del: of_nat_mult)

lemma length_stamp_small: "k < MAP_PAGE_COUNT \<Longrightarrow> length (stamp (Suc k)) \<le> 8"
  by (auto simp: stamp_def decimal.simps MAP_PAGE_COUNT_def)

lemma init_loop_run:
  assumes "unat (vmalloc_area s) + MAPLEN < 2 ^ 64" and "length (area_bytes s) = MAPLEN"
    and "page_tables_ok K (vmalloc_area s)" and "k \<le> MAP_PAGE_COUNT"
  shows "\<exists>m. write_all mem_write (area_bytes s) (stamps k) = Some m \<and>
     init_loop K s (Suc k) (vmalloc_area s + of_nat (PAGE_SIZE * k)) =
       Some (Inr (s\<lparr>klog := klog s @ map Set_page_reserved (area_pages K (vmalloc_area s) k),
                   area_bytes := m\<rparr>))"
  using assms
proof (induction "MAP_PAGE_COUNT - k" arbitrary: k s)
  case 0
  then have "k = MAP_PAGE_COUNT" by simp
  then show ?case using page_less [of "vmalloc_area s" k] 0
    by (subst init_loop.simps) (simp add: stamps_def area_pages_def)
next
  case (Suc n)
  let ?p = "vmalloc_area s"
  have k: "k < MAP_PAGE_COUNT" using Suc.hyps(2) by simp
  have pg: "vmalloc_to_page_ans K l a = page_lookup K a" for l a
    using Suc.prems(3) by (simp add: page_tables_ok_def)
  have "PAGE_SIZE * k + length (stamp (Suc k)) \<le> MAPLEN"
    using length_stamp_small [OF k] k by (simp add: map_consts)
  then obtain m1 where m1: "mem_write (area_bytes s) (PAGE_SIZE * k) (stamp (Suc k)) = Some m1"
    using Suc.prems(2) by (simp add: mem_write_def)
  let ?s1 = "s\<lparr>klog := klog s @ [Set_page_reserved (page_lookup K (?p + of_nat (PAGE_SIZE * k)))], area_bytes := m1\<rparr>"
  have upt: "[k..<MAP_PAGE_COUNT] = k # [Suc k..<MAP_PAGE_COUNT]" using k by (rule upt_conv_Cons)
  have step: "init_loop K s (Suc k) (?p + of_nat (PAGE_SIZE * k)) =
      init_loop K ?s1 (Suc (Suc k)) (?p + of_nat (PAGE_SIZE * Suc k))"
    using page_less [of ?p k] page_offset [OF k, of ?p] Suc.prems(1) k m1
    by (subst init_loop.simps) (simp add: pg algebra_simps)
  have "\<exists>m. write_all mem_write (area_bytes ?s1) (stamps (Suc k)) = Some m \<and>
     init_loop K ?s1 (Suc (Suc k)) (vmalloc_area ?s1 + of_nat (PAGE_SIZE * Suc k)) =
       Some (Inr (?s1\<lparr>klog := klog ?s1 @ map Set_page_reserved (area_pages K (vmalloc_area ?s1) (Suc k)),
                   area_bytes := m\<rparr>))"
    using Suc.hyps Suc.prems k mem_write_length [OF m1] by (intro Suc.hyps(1)) auto
  then show ?case using step m1 by (simp add: stamps_def area_pages_def upt)
qed

lemma exit_loop_run:
  assumes "unat (vmalloc_area s) + MAPLEN < 2 ^ 64" and "page_tables_ok K (vmalloc_area s)"
    and "k \<le> MAP_PAGE_COUNT"
  shows "exit_loop K s (vmalloc_area s + of_nat (PAGE_SIZE * k)) =
     Some (s\<lparr>klog := klog s @ map Clear_page_reserved (area_pages K (vmalloc_area s) k)\<rparr>)"
  using assms
proof (induction "MAP_PAGE_COUNT - k" arbitrary: k s)
  case 0
  then have "k = MAP_PAGE_COUNT" by simp
  then show ?case using page_less [of "vmalloc_area s" k] 0
    by (subst exit_loop.simps) (simp add: area_pages_def)
next
  case (Suc n)
  let ?p = "vmalloc_area s"
  have k: "k < MAP_PAGE_COUNT" using Suc.hyps(2) by simp
  have pg: "vmalloc_to_page_ans K l a = page_lookup K a" for l a
    using Suc.prems(2) by (simp add: page_tables_ok_def)
  let ?s1 = "s\<lparr>klog := klog s @ [Clear_page_reserved (page_lookup K (?p + of_nat (PAGE_SIZE * k)))]\<rparr>"
  have upt: "[k..<MAP_PAGE_COUNT] = k # [Suc k..<MAP_PAGE_COUNT]" using k by (rule upt_conv_Cons)
  have step: "exit_loop K s (?p + of_nat (PAGE_SIZE * k)) = exit_loop K ?s1 (?p + of_nat (PAGE_SIZE * Suc k))"
    using page_less [of ?p k] Suc.prems(1) k by (subst exit_loop.simps) (simp add: pg algebra_simps)
  have "exit_loop K ?s1 (vmalloc_area ?s1 + of_nat (PAGE_SIZE * Suc k)) =
     Some (?s1\<lparr>klog := klog ?s1 @ map Clear_page_reserved (area_pages K (vmalloc_area ?s1) (Suc k))\<rparr>)"
    using Suc.hyps Suc.prems k by (intro Suc.hyps(1)) auto
  then show ?case using step by (simp add: area_pages_def upt)
qed

text \<open>The stamps go to disjoint ranges inside the area, so they are all there afterwards.\<close>

lemma stamps_fit: "w \<in> set (stamps 0) \<Longrightarrow> fits 1 MAPLEN (fst w) (length (snd w))"
  using length_stamp_small by (fastforce simp: stamps_def fits_def map_consts)

lemma stamps_disjoint_from:
  "k \<le> MAP_PAGE_COUNT \<Longrightarrow> disjoint_writes (stamps k)"
proof (induction "MAP_PAGE_COUNT - k" arbitrary: k)
  case (Suc n)
  then have k: "k < MAP_PAGE_COUNT" by simp
  have "disjoint_writes (stamps (Suc k))" using Suc by (intro Suc.hyps(1)) auto
  moreover have "list_all (disjoint_range (PAGE_SIZE * k) (length (stamp (Suc k)))) (stamps (Suc k))"
    using length_stamp_small [OF k]
    by (auto simp: list_all_iff stamps_def disjoint_range_def PAGE_SIZE_def)
  ultimately show ?case by (simp add: stamps_def upt_conv_Cons [OF k])
qed (simp add: stamps_def)

lemma stamped_area:
  assumes "length m0 = MAPLEN" and "write_all mem_write m0 (stamps 0) = Some m" and "k < MAP_PAGE_COUNT"
  shows "length m = MAPLEN" and "take (length (stamp (Suc k))) (drop (PAGE_SIZE * k) m) = stamp (Suc k)"
proof -
  have fit: "\<forall>w \<in> set (stamps 0). fits 1 (length m0) (fst w) (length (snd w))"
    using stamps_fit assms(1) by simp
  have "\<exists>m'. write_all mem_write m0 (stamps 0) = Some m' \<and> True \<and> length m' = length m0"
    using buffer.write_all_inside [OF TrueI fit] .
  then show "length m = MAPLEN" using assms(1,2) by simp
  have "(PAGE_SIZE * k, stamp (Suc k)) \<in> set (stamps 0)" using assms(3) by (auto simp: stamps_def)
  from buffer.write_all_read_back [OF TrueI fit stamps_disjoint_from assms(2) this]
  show "take (length (stamp (Suc k))) (drop (PAGE_SIZE * k) m) = stamp (Suc k)"
    by (simp add: mem_read_Some)
qed

text \<open>\<open>mapdrv_init\<close> as a whole, when the registration and the allocation succeed.\<close>

lemma mapdrv_init_run:
  assumes "register_chrdev_ans K (klog s) MAP_DEV_MAJOR MAP_DEV_NAME = r" and "0 \<le> r"
    and "vmalloc_ans K (klog s @ [Register_chrdev MAP_DEV_MAJOR MAP_DEV_NAME r]) (of_nat MAPLEN) = p"
    and "area_ok p" and "page_tables_ok K p"
  shows "\<exists>m. mapdrv_init K s = Some (Inr (0, s\<lparr>klog := klog s @ [Register_chrdev MAP_DEV_MAJOR MAP_DEV_NAME r,
         Vmalloc (of_nat MAPLEN) p] @ map Set_page_reserved (area_pages K p 0) @
         [Printk ''vmalloc area apply complate!'' []], vmalloc_area := p, area_bytes := m\<rparr>))
     \<and> length m = MAPLEN
     \<and> (\<forall>k < MAP_PAGE_COUNT. take (length (stamp (Suc k))) (drop (PAGE_SIZE * k) m) = stamp (Suc k))"
proof -
  let ?l = "klog s @ [Register_chrdev MAP_DEV_MAJOR MAP_DEV_NAME r]"
  let ?m0 = "map (vmalloc_bytes K ?l) [0..<MAPLEN]"
  let ?s3 = "s\<lparr>klog := ?l @ [Vmalloc (of_nat MAPLEN) p], vmalloc_area := p, area_bytes := ?m0\<rparr>"
  obtain m where m: "write_all mem_write ?m0 (stamps 0) = Some m"
    "init_loop K ?s3 1 p = Some (Inr (?s3\<lparr>klog := klog ?s3 @ map Set_page_reserved (area_pages K p 0), area_bytes := m\<rparr>))"
    using init_loop_run [of ?s3 K 0] assms(4,5) by (auto simp: area_ok_def)
  have "mapdrv_init K s = Some (Inr (0, s\<lparr>klog := klog s @ [Register_chrdev MAP_DEV_MAJOR MAP_DEV_NAME r,
         Vmalloc (of_nat MAPLEN) p] @ map Set_page_reserved (area_pages K p 0) @
         [Printk ''vmalloc area apply complate!'' []], vmalloc_area := p, area_bytes := m\<rparr>))"
    using assms m(2) by (simp add: mapdrv_init_def Let_def kmonad area_ok_def)
  moreover have "length m = MAPLEN"
    using stamped_area(1) [OF _ m(1), of 0] by (simp add: MAP_PAGE_COUNT_def)
  moreover have "\<forall>k < MAP_PAGE_COUNT. take (length (stamp (Suc k))) (drop (PAGE_SIZE * k) m) = stamp (Suc k)"
    using stamped_area(2) [OF _ m(1)] by simp
  ultimately show ?thesis by blast
qed

text \<open>Without the allocation the first \<open>sprintf\<close> writes to address 0.\<close>

lemma init_loop_null:
  assumes "vmalloc_area s = NULL" and "area_bytes s = []"
  shows "init_loop K s i NULL = Some (Inl Bad_access)"
  using assms by (subst init_loop.simps) (simp add: map_consts mem_write_def stamp_def cstring_def)

subsection \<open>Lemmas: resources\<close>

lemma held_set_reserved:
  "foldl held_step R (map Set_page_reserved ps) = R + image_mset RReservedPage (mset ps)"
  by (induction ps arbitrary: R) simp_all

lemma held_clear_reserved:
  "foldl held_step R (map Clear_page_reserved ps) = R - image_mset RReservedPage (mset ps)"
  by (induction ps arbitrary: R) (simp_all add: diff_diff_add_mset)

lemma mapdrv_init_cases:
  assumes "mapdrv_init K s = Some (Inr (r, s'))" and "0 \<le> r" and "mapdrv_kernel_ok K"
  shows "r = 0 \<and> area_ok (vmalloc_area s') \<and> page_tables_ok K (vmalloc_area s')
     \<and> held (klog s') = held (klog s) + mapdrv_owned K s' \<and> length (area_bytes s') = MAPLEN
     \<and> (\<forall>k < MAP_PAGE_COUNT.
          take (length (stamp (Suc k))) (drop (PAGE_SIZE * k) (area_bytes s')) = stamp (Suc k))"
proof -
  define r0 where "r0 = register_chrdev_ans K (klog s) MAP_DEV_MAJOR MAP_DEV_NAME"
  define p where "p = vmalloc_ans K (klog s @ [Register_chrdev MAP_DEV_MAJOR MAP_DEV_NAME r0]) (of_nat MAPLEN)"
  have r0: "0 \<le> r0"
    using assms(1,2) by (cases "r0 < 0") (auto simp: mapdrv_init_def Let_def r0_def [symmetric])
  have "p \<noteq> NULL"
    using assms(1) r0 init_loop_null
    by (auto simp: mapdrv_init_def Let_def r0_def [symmetric] p_def [symmetric] kmonad)
  then have ok: "area_ok p" "page_tables_ok K p"
    using assms(3) unfolding mapdrv_kernel_ok_def p_def by blast+
  show ?thesis
    using mapdrv_init_run [OF r0_def [symmetric] r0 p_def [symmetric] ok] assms(1) ok r0
    by (auto simp: held_set_reserved mapdrv_owned_def area_ok_def MAP_DEV_MAJOR_def)
qed

lemma mapdrv_exit_run:
  assumes "area_ok (vmalloc_area s)" and "page_tables_ok K (vmalloc_area s)"
  shows "\<exists>s'. mapdrv_exit K s = Some s' \<and> held (klog s') = held (klog s) - mapdrv_owned K s"
proof -
  let ?ps = "image_mset RReservedPage (mset (area_pages K (vmalloc_area s) 0))"
  have "\<exists>s'. mapdrv_exit K s = Some s' \<and> held (klog s') =
      held (klog s) - ?ps - {#RMem (vmalloc_area s)#} - {#RChrdev MAP_DEV_MAJOR MAP_DEV_NAME#}"
    using assms exit_loop_run [of s K 0]
    by (simp add: mapdrv_exit_def kmonad area_ok_def held_clear_reserved)
  moreover have "held (klog s) - ?ps - {#RMem (vmalloc_area s)#} - {#RChrdev MAP_DEV_MAJOR MAP_DEV_NAME#} =
      held (klog s) - mapdrv_owned K s"
    unfolding mapdrv_owned_def diff_diff_add_mset by (simp add: add_mset_commute)
  ultimately show ?thesis by simp
qed

interpretation mapdrv: kmodule "\<lambda>_. mapdrv_init_ret K" "\<lambda>_. mapdrv_exit_ret K" "mapdrv_owned K"
  "\<lambda>_. True" "\<lambda>_. mapdrv_kernel_ok K" for K
proof
  fix s s'
  assume a: "mapdrv_kernel_ok K" "run_state (mapdrv_init_ret K) s = (0, s')"
  then have "mapdrv_init K s = Some (Inr (0, s'))"
    by (auto simp: mapdrv_init_ret_def split: option.splits sum.splits)
  note i = mapdrv_init_cases [OF this _ a(1)]
  then show "held (klog s') = held (klog s) + mapdrv_owned K s'" by simp
  fix l s''
  assume "run_state (mapdrv_exit_ret K) (s'\<lparr>klog := l\<rparr>) = ((), s'')"
  then show "held (klog s'') = held l - mapdrv_owned K s'"
    using mapdrv_exit_run [of "s'\<lparr>klog := l\<rparr>" K] i by (auto simp: mapdrv_exit_ret_def mapdrv_owned_def)
qed

subsection \<open>Lemmas: mapping and faults\<close>

lemma mapdrv_mmap_result:
  "fst (run_state (mapdrv_mmap vma) s) =
     (if of_nat MAPLEN < vm_end vma - vm_start vma then (- ENXIO, vma)
      else if vm_flags vma AND VM_WRITE \<noteq> 0 \<and> vm_flags vma AND VM_SHARED = 0 then (- EINVAL, vma)
      else if push_bit PAGE_SHIFT (vm_pgoff vma) = 0
      then (0, vma\<lparr>vm_flags := vm_flags vma OR VM_LOCKONFAULT, vm_ops := Some ''map_vm_ops''\<rparr>)
      else (- ENXIO, vma\<lparr>vm_flags := vm_flags vma OR VM_LOCKONFAULT\<rparr>))"
  by (simp add: mapdrv_mmap_def kmonad Let_def)

lemma mapdrv_mmap_keeps: "\<exists>l. snd (run_state (mapdrv_mmap vma) s) = s\<lparr>klog := l\<rparr>"
  by (simp add: mapdrv_mmap_def kmonad Let_def) (metis mapdrv_st.unfold_congs(1) kctx.surjective kctx.update_convs(1) mapdrv_st.surjective)

lemma map_fault_inside:
  assumes "vmf_vma vmf = Some vma" and "vmalloc_area s \<noteq> NULL"
    and "vmf_address vmf - vm_start vma < of_nat MAPLEN"
    and "page_tables_ok K (vmalloc_area s)"
  shows "\<exists>l. map_fault K s vmf = Inr (0, vmf\<lparr>vmf_page :=
       page_lookup K (vmalloc_area s + (vmf_address vmf - vm_start vma))\<rparr>, s\<lparr>klog := l\<rparr>)"
  using assms by (auto simp: map_fault_def Let_def kmonad page_tables_ok_def not_le)

lemma frame_page:
  assumes "page_tables_ok K (vmalloc_area s)" and "k < MAP_PAGE_COUNT"
  shows "frame K s (page_lookup K (vmalloc_area s + of_nat (PAGE_SIZE * k))) = Some k"
proof -
  have look: "vmalloc_to_page_ans K l a = page_lookup K a" for l a
    using assms(1) by (simp add: page_tables_ok_def)
  have "page_lookup K (vmalloc_area s + of_nat (PAGE_SIZE * j)) \<noteq>
      page_lookup K (vmalloc_area s + of_nat (PAGE_SIZE * k))" if "j < k" for j
    using assms that unfolding page_tables_ok_def by (metis less_irrefl less_trans)
  then show ?thesis using assms(2) unfolding frame_def find_Some_iff look
    by (intro exI [of _ k]) (simp del: of_nat_mult)
qed

lemma touch_page:
  assumes "area_ok (vmalloc_area s)" and "page_tables_ok K (vmalloc_area s)" and "k < MAP_PAGE_COUNT"
    and "a = vm_start vma + of_nat (PAGE_SIZE * k)"
  shows "\<exists>l. touch K s vma a = Some (k, s\<lparr>klog := l\<rparr>)"
proof -
  let ?vmf = "\<lparr>vmf_address = a, vmf_pgoff = vm_pgoff vma + drop_bit PAGE_SHIFT (a - vm_start vma),
     vmf_vma = Some vma, vmf_page = NULL\<rparr>"
  have "(of_nat (PAGE_SIZE * k) :: u64) < of_nat MAPLEN"
    using page_less [of 0 k] assms(3) by (simp add: map_consts)
  then obtain l where "map_fault K s ?vmf =
      Inr (0, ?vmf\<lparr>vmf_page := page_lookup K (vmalloc_area s + of_nat (PAGE_SIZE * k))\<rparr>, s\<lparr>klog := l\<rparr>)"
    using map_fault_inside [of ?vmf vma s K] assms by (auto simp: area_ok_def)
  moreover have "frame K (s\<lparr>klog := l\<rparr>) (page_lookup K (vmalloc_area s + of_nat (PAGE_SIZE * k))) = Some k"
    using frame_page [of K "s\<lparr>klog := l\<rparr>" k] assms(2,3) by simp
  ultimately show ?thesis by (simp add: touch_def) blast
qed

text \<open>A NUL-terminated string at the front of a buffer is what \<open>%s\<close> prints.\<close>

lemma strlen_front:
  assumes "take (Suc (length ys)) xs = ys @ [0]" and "0 \<notin> set ys"
  shows "strlen xs = Some (length ys) \<and> take (length ys) xs = ys"
proof -
  have "xs = ys @ 0 # drop (Suc (length ys)) xs"
    using assms(1) append_take_drop_id [of "Suc (length ys)" xs] by simp
  then show ?thesis using strlen_append [OF assms(2)] by (metis append_eq_conv_conj)
qed

lemma print_page_string:
  assumes "area_ok (vmalloc_area s)" and "page_tables_ok K (vmalloc_area s)" and "k < MAP_PAGE_COUNT"
    and "take (Suc (length ys)) (drop (PAGE_SIZE * k) (area_bytes s)) = ys @ [0]" and "0 \<notin> set ys"
  shows "\<exists>l. print_page K s vma k = Some (ys, s\<lparr>klog := l\<rparr>)"
proof -
  obtain l where "touch K s vma (vm_start vma + of_nat (4096 * k)) = Some (k, s\<lparr>klog := l\<rparr>)"
    using touch_page [OF assms(1-3), of "vm_start vma + of_nat (4096 * k)" vma] by (auto simp: PAGE_SIZE_def)
  then show ?thesis using strlen_front [OF assms(4,5)] by (auto simp: print_page_def)
qed

lemma map_call_whole:
  assumes "flags AND VM_WRITE = 0 \<or> flags AND VM_SHARED \<noteq> 0"
  shows "\<exists>l vma. map_call s (vma_of a LEN flags) = Some (vma, s\<lparr>klog := l\<rparr>) \<and> vm_start vma = a"
proof -
  obtain l where "snd (run_state (mapdrv_mmap (vma_of a LEN flags)) s) = s\<lparr>klog := l\<rparr>"
    using mapdrv_mmap_keeps by blast
  moreover have "\<exists>vma. fst (run_state (mapdrv_mmap (vma_of a LEN flags)) s) = (0, vma) \<and> vm_start vma = a"
    using assms by (auto simp: mapdrv_mmap_result vma_of_def LEN_def map_consts)
  ultimately show ?thesis unfolding map_call_def by (auto simp: case_prod_unfold Let_def prod_eq_iff)
qed

lemma stamp_bytes: "stamp i = bytes_of (''test '' @ decimal i) @ [0]"
  by (simp add: stamp_def cstring_def)

lemma digit_no_nul: "d < 10 \<Longrightarrow> (of_nat (of_char (char_of (48 + d :: nat))) :: byte) \<noteq> 0"
proof -
  assume "d < 10"
  then have "d \<in> {0, 1, 2, 3, 4, 5, 6, 7, 8, 9}" by auto
  then show ?thesis by auto
qed

lemma decimal_no_nul: "0 \<notin> set (bytes_of (decimal n))"
proof (induction n rule: decimal.induct)
  case (1 n)
  show ?case
  proof (cases "n < 10")
    case True
    then show ?thesis using digit_no_nul [of n] by (subst decimal.simps) (simp add: bytes_of_def)
  next
    case False
    then show ?thesis using 1 [OF False] digit_no_nul [of "n mod 10"]
      by (subst decimal.simps) (simp add: bytes_of_def)
  qed
qed

lemma stamp_no_nul: "0 \<notin> set (bytes_of (''test '' @ decimal i))"
  using decimal_no_nul [of i] by (simp add: bytes_of_def)

text \<open>The second program's output on a loaded driver whose first two pages hold strings.\<close>

lemma maptest_read_strings:
  assumes "area_ok (vmalloc_area s)" and "page_tables_ok K (vmalloc_area s)"
    and "take (Suc (length x)) (area_bytes s) = x @ [0]" and "0 \<notin> set x"
    and "take (Suc (length y)) (drop PAGE_SIZE (area_bytes s)) = y @ [0]" and "0 \<notin> set y"
  shows "\<exists>l. maptest_read K a s = Some ([x, y], s\<lparr>klog := l\<rparr>)"
proof -
  obtain l vma where mc: "map_call s (vma_of a LEN VM_READ) = Some (vma, s\<lparr>klog := l\<rparr>)"
    using map_call_whole [of VM_READ s a] by (auto simp: VM_READ_def VM_WRITE_def)
  obtain l' where p0: "print_page K (s\<lparr>klog := l\<rparr>) vma 0 = Some (x, s\<lparr>klog := l'\<rparr>)"
    using print_page_string [of "s\<lparr>klog := l\<rparr>" K 0 x vma] assms by (auto simp: MAP_PAGE_COUNT_def)
  obtain l'' where p1: "print_page K (s\<lparr>klog := l'\<rparr>) vma 1 = Some (y, s\<lparr>klog := l''\<rparr>)"
    using print_page_string [of "s\<lparr>klog := l'\<rparr>" K 1 y vma] assms by (auto simp: MAP_PAGE_COUNT_def)
  show ?thesis using mc p0 p1 by (auto simp: maptest_read_def)
qed

lemma maptest_write_string:
  assumes "area_ok (vmalloc_area s)" and "page_tables_ok K (vmalloc_area s)"
    and "mem_write (area_bytes s) 0 (cstring ''write from userspace'') = Some m"
  shows "\<exists>l. maptest_write K a s = Some (s\<lparr>klog := l, area_bytes := m\<rparr>)"
proof -
  obtain l vma where mc: "map_call s (vma_of a LEN (VM_READ OR VM_WRITE OR VM_SHARED)) = Some (vma, s\<lparr>klog := l\<rparr>)"
      "vm_start vma = a"
    using map_call_whole [of "VM_READ OR VM_WRITE OR VM_SHARED" s a] by (auto simp: VM_READ_def VM_WRITE_def VM_SHARED_def)
  obtain l' where "touch K (s\<lparr>klog := l\<rparr>) vma a = Some (0, s\<lparr>klog := l'\<rparr>)"
    using touch_page [of "s\<lparr>klog := l\<rparr>" K 0 a vma] assms mc(2) by (auto simp: MAP_PAGE_COUNT_def)
  then show ?thesis using mc(1) assms(3) unfolding maptest_write_def by auto
qed

text \<open>The granting kernel's page tables, and a driver loaded under it.\<close>

lemma granting_pages: "page_tables_ok granting_kernel p"
proof -
  have small: "unat (of_nat (4096 * i) :: u64) = 4096 * i" if "i < 10" for i
    using that unfolding unat_of_nat by (intro mod_less) simp
  have "i = j" if "i < 10" "j < 10" "(of_nat (4096 * i) :: u64) = of_nat (4096 * j)" for i j
    using small [OF that(1)] small [OF that(2)] unfolding that(3) by simp
  then show ?thesis
    unfolding page_tables_ok_def page_lookup_def granting_kernel_def MAP_PAGE_COUNT_def PAGE_SIZE_def
    by (simp only: kernel.simps add_left_cancel) blast
qed

lemma granting_mapdrv: "mapdrv_kernel_ok granting_kernel"
  using granting_pages by (simp add: mapdrv_kernel_ok_def area_ok_def granting_kernel_def map_consts)

lemma granting_mapdrv_init: "\<exists>s'. mapdrv_init granting_kernel s = Some (Inr (0, s'))"
  using mapdrv_init_run [of granting_kernel s 0 "0x10000"] granting_pages
  by (auto simp: granting_kernel_def area_ok_def map_consts)

subsection \<open>Properties\<close>

text \<open>
  Property C33. Loading the driver: when the registration succeeds and \<open>vmalloc\<close> answers memory that
  does not reach the end of the address space, \<open>mapdrv_init\<close> terminates, returns 0, and leaves in
  the \<open>k\<close>-th of the ten pages (counted from 1) the string \<open>test k\<close>.
\<close>

theorem mapdrv_init_stamps_pages:
  assumes "0 \<le> register_chrdev_ans K (klog s) MAP_DEV_MAJOR MAP_DEV_NAME"
    and "\<forall>l. area_ok (vmalloc_ans K l (of_nat MAPLEN)) \<and> page_tables_ok K (vmalloc_ans K l (of_nat MAPLEN))"
  shows "\<exists>s'. mapdrv_init K s = Some (Inr (0, s')) \<and> length (area_bytes s') = MAPLEN
     \<and> (\<forall>k < MAP_PAGE_COUNT. \<exists>n. strlen (drop (PAGE_SIZE * k) (area_bytes s')) = Some n
          \<and> take n (drop (PAGE_SIZE * k) (area_bytes s')) = bytes_of (''test '' @ decimal (Suc k)))"
proof -
  obtain m where m: "\<exists>l p. mapdrv_init K s = Some (Inr (0, s\<lparr>klog := l, vmalloc_area := p, area_bytes := m\<rparr>))"
    "length m = MAPLEN"
    "\<forall>k < MAP_PAGE_COUNT. take (length (stamp (Suc k))) (drop (PAGE_SIZE * k) m) = stamp (Suc k)"
    using mapdrv_init_run [OF refl assms(1) refl] assms(2) by blast
  have "\<exists>n. strlen (drop (PAGE_SIZE * k) m) = Some n
      \<and> take n (drop (PAGE_SIZE * k) m) = bytes_of (''test '' @ decimal (Suc k))" if k: "k < MAP_PAGE_COUNT" for k
  proof -
    have "take (Suc (length (bytes_of (''test '' @ decimal (Suc k))))) (drop (PAGE_SIZE * k) m) =
        bytes_of (''test '' @ decimal (Suc k)) @ [0]"
      using m(3) k unfolding stamp_bytes by simp
    from strlen_front [OF this stamp_no_nul] show ?thesis by blast
  qed
  moreover obtain l p where "mapdrv_init K s = Some (Inr (0, s\<lparr>klog := l, vmalloc_area := p, area_bytes := m\<rparr>))"
    using m(1) by blast
  ultimately show ?thesis using m(2) by simp
qed

theorem mapdrv_init_stamps_pages_witness:
  "\<exists>s'. mapdrv_init granting_kernel (mapdrv_start []) = Some (Inr (0, s')) \<and> length (area_bytes s') = MAPLEN
     \<and> (\<forall>k < MAP_PAGE_COUNT. \<exists>n. strlen (drop (PAGE_SIZE * k) (area_bytes s')) = Some n
          \<and> take n (drop (PAGE_SIZE * k) (area_bytes s')) = bytes_of (''test '' @ decimal (Suc k)))"
  using mapdrv_init_stamps_pages [of granting_kernel "mapdrv_start []"] granting_pages
  by (simp add: granting_kernel_def area_ok_def map_consts)

text \<open>
  \<open>mapdrv_init\<close> does not check \<open>vmalloc\<close>: when it answers a null pointer the first
  \<open>sprintf\<close> of the loop is a bad access.
\<close>

lemma mapdrv_init_unchecked_vmalloc:
  assumes "0 \<le> register_chrdev_ans K (klog s) MAP_DEV_MAJOR MAP_DEV_NAME"
    and "\<forall>l. vmalloc_ans K l (of_nat MAPLEN) = NULL"
  shows "mapdrv_init K s = Some (Inl Bad_access)"
  using assms init_loop_null by (simp add: mapdrv_init_def Let_def kmonad)

text \<open>
  The life cycle of the driver: after a load that returned 0, unloading terminates and
  leaves exactly the resources that were held before (the device number, the memory and the ten
  reserved pages are given back).
\<close>

lemma mapdrv_load_unload_balanced:
  assumes "mapdrv_kernel_ok K" and "mapdrv_init K s = Some (Inr (0, s'))"
  shows "held (klog s') = held (klog s) + mapdrv_owned K s'
     \<and> (\<exists>s''. mapdrv_exit K s' = Some s'' \<and> held (klog s'') = held (klog s))"
proof -
  have init: "run_state (mapdrv_init_ret K) s = (0, s')" using assms(2) by (simp add: mapdrv_init_ret_def)
  note i = mapdrv_init_cases [OF assms(2) _ assms(1)]
  then obtain s'' where ex: "mapdrv_exit K s' = Some s''" using mapdrv_exit_run by blast
  then have "run_state (mapdrv_exit_ret K) s' = ((), s'')" by (simp add: mapdrv_exit_ret_def)
  then have "held (klog s'') = held (klog s)"
    using mapdrv.load_unload_balanced [OF assms(1) TrueI init] by blast
  then show ?thesis using i ex by simp
qed


text \<open>
  Property C15. A mapping the driver accepted never gets a bus error: every fault at an address of the
  area is answered with the page of the driver's memory at the same distance from its start.
\<close>

theorem mapdrv_accepted_never_sigbus:
  assumes "mapdrv_kernel_ok K" and "mapdrv_init K s0 = Some (Inr (0, s))"
    and "map_call s vma = Some (vma', s')"
    and "vmf_vma vmf = Some vma'" and "vm_start vma \<le> vmf_address vmf" and "vmf_address vmf < vm_end vma"
  shows "\<exists>l. map_fault K s' vmf = Inr (0, vmf\<lparr>vmf_page :=
       page_lookup K (vmalloc_area s + (vmf_address vmf - vm_start vma))\<rparr>, s'\<lparr>klog := l\<rparr>)"
proof -
  note i = mapdrv_init_cases [OF assms(2) _ assms(1)]
  have acc: "fst (run_state (mapdrv_mmap vma) s) = (0, vma')" "s' = snd (run_state (mapdrv_mmap vma) s)"
    using assms(3) by (auto simp: map_call_def case_prod_unfold Let_def prod_eq_iff split: if_splits)
  then have st: "vm_start vma' = vm_start vma" and len: "\<not> of_nat MAPLEN < vm_end vma - vm_start vma"
    by (auto simp: mapdrv_mmap_result errno_defs split: if_splits)
  have area: "vmalloc_area s' = vmalloc_area s" using mapdrv_mmap_keeps [of vma s] acc(2) by auto
  have "vmf_address vmf - vm_start vma < vm_end vma - vm_start vma"
    using assms(5,6) by (simp add: word_less_nat_alt word_le_nat_alt unat_sub)
  then have "vmf_address vmf - vm_start vma' < of_nat MAPLEN" using len st by simp
  then show ?thesis using map_fault_inside [OF assms(4), of s' K] i area st by (auto simp: area_ok_def)
qed

theorem mapdrv_accepted_never_sigbus_witness:
  "\<exists>s s' vma' p. mapdrv_init granting_kernel (mapdrv_start []) = Some (Inr (0, s))
     \<and> map_call s (vma_of 0x7000 LEN VM_READ) = Some (vma', s')
     \<and> (\<exists>l. map_fault granting_kernel s' \<lparr>vmf_address = 0x8000, vmf_pgoff = 1, vmf_vma = Some vma', vmf_page = NULL\<rparr>
          = Inr (0, \<lparr>vmf_address = 0x8000, vmf_pgoff = 1, vmf_vma = Some vma', vmf_page = p\<rparr>, s'\<lparr>klog := l\<rparr>))"
proof -
  obtain s where s: "mapdrv_init granting_kernel (mapdrv_start []) = Some (Inr (0, s))"
    using granting_mapdrv_init by blast
  obtain l vma' where "map_call s (vma_of 0x7000 LEN VM_READ) = Some (vma', s\<lparr>klog := l\<rparr>)"
    using map_call_whole [of VM_READ s "0x7000"] by (auto simp: VM_READ_def VM_WRITE_def)
  then show ?thesis
    using s mapdrv_accepted_never_sigbus [OF granting_mapdrv s, where vma = "vma_of 0x7000 LEN VM_READ" and vma' = vma' and s' = "s\<lparr>klog := l\<rparr>"
        and vmf = "\<lparr>vmf_address = 0x8000, vmf_pgoff = 1, vmf_vma = Some vma', vmf_page = NULL\<rparr>"]
    by (fastforce simp: vma_of_def LEN_def)
qed

text \<open>
  Property C8. The two test programs together with the driver: on a freshly loaded driver
  \<^verbatim>\<open>maptest_read\<close> prints \<open>test 1\<close> and \<open>test 2\<close>; after \<^verbatim>\<open>maptest_write\<close> has run in another
  process, it prints what that process wrote and \<open>test 2\<close>, wherever the kernel placed the two
  mappings.
\<close>

theorem maptest_write_is_read:
  assumes "mapdrv_kernel_ok K" and "mapdrv_init K s0 = Some (Inr (0, s))"
  shows "(\<exists>s'. maptest_read K a s = Some ([bytes_of ''test 1'', bytes_of ''test 2''], s'))
     \<and> (\<exists>s1 s2. maptest_write K b s = Some s1
          \<and> maptest_read K a s1 = Some ([bytes_of ''write from userspace'', bytes_of ''test 2''], s2))"
proof -
  note i = mapdrv_init_cases [OF assms(2) _ assms(1)]
  then have ok: "area_ok (vmalloc_area s)" "page_tables_ok K (vmalloc_area s)" "length (area_bytes s) = MAPLEN"
    by simp_all
  have dec: "decimal (Suc 0) = ''1''" "decimal (Suc (Suc 0)) = ''2''" by code_simp+
  have st: "stamp (Suc 0) = bytes_of ''test 1'' @ [0]" "stamp (Suc (Suc 0)) = bytes_of ''test 2'' @ [0]"
    unfolding stamp_bytes dec by simp_all
  have p0: "take (Suc (length (bytes_of ''test 1''))) (area_bytes s) = bytes_of ''test 1'' @ [0]"
    using i st(1) by (auto simp: MAP_PAGE_COUNT_def dest: spec [of _ 0])
  have p1: "take (Suc (length (bytes_of ''test 2''))) (drop PAGE_SIZE (area_bytes s)) = bytes_of ''test 2'' @ [0]"
    using i st(2) by (auto simp: MAP_PAGE_COUNT_def dest: spec [of _ 1])
  have nz: "0 \<notin> set (bytes_of ''test 1'')" "0 \<notin> set (bytes_of ''test 2'')"
    "0 \<notin> set (bytes_of ''write from userspace'')" by (simp_all add: bytes_of_def)
  let ?w = "cstring ''write from userspace''"
  obtain m where m: "mem_write (area_bytes s) 0 ?w = Some m"
    using ok(3) by (simp add: mem_write_def map_consts)
  obtain l where w: "maptest_write K b s = Some (s\<lparr>klog := l, area_bytes := m\<rparr>)"
    using maptest_write_string [OF ok(1,2) m] by blast
  have m0: "take (Suc (length (bytes_of ''write from userspace''))) m = bytes_of ''write from userspace'' @ [0]"
    using mem_read_write_same [OF m] by (simp add: mem_read_Some cstring_def)
  have "mem_read m PAGE_SIZE (Suc (length (bytes_of ''test 2''))) =
      mem_read (area_bytes s) PAGE_SIZE (Suc (length (bytes_of ''test 2'')))"
    using m by (rule mem_read_write_other) (simp add: PAGE_SIZE_def)
  then have m1: "take (Suc (length (bytes_of ''test 2''))) (drop PAGE_SIZE m) = bytes_of ''test 2'' @ [0]"
    using p1 ok(3) mem_write_length [OF m] by (simp add: mem_read_def map_consts)
  show ?thesis
    using maptest_read_strings [OF ok(1,2) p0 nz(1) p1 nz(2), of a]
      maptest_read_strings [of "s\<lparr>klog := l, area_bytes := m\<rparr>" K "bytes_of ''write from userspace''" "bytes_of ''test 2''" a]
      ok m0 m1 nz w by auto
qed

theorem maptest_write_is_read_witness:
  "\<exists>s s1 s2. mapdrv_init granting_kernel (mapdrv_start []) = Some (Inr (0, s))
     \<and> maptest_write granting_kernel 0x7000 s = Some s1
     \<and> maptest_read granting_kernel 0x9000 s1 = Some ([bytes_of ''write from userspace'', bytes_of ''test 2''], s2)"
proof -
  obtain s where s: "mapdrv_init granting_kernel (mapdrv_start []) = Some (Inr (0, s))"
    using granting_mapdrv_init by blast
  then show ?thesis using maptest_write_is_read [OF granting_mapdrv s, of "0x9000" "0x7000"] by blast
qed

end
