(* ===== verification/Myfs_Tree.thy ===== *)
theory Myfs_Tree
  imports Kernel
begin

unbundle bit_operations_syntax

section \<open>The file system of the course design: inodes, dentries and mounting\<close>

text \<open>
  \<^verbatim>\<open>src/course_design/myfs_kernel.c\<close> and \<^verbatim>\<open>src/course_design/myfs_kernel_ubuntu.c\<close>: the part that
  builds the directory tree. The kernel objects the module follows pointers into (inodes, dentries,
  super blocks, mounts) are an explicit store of records, \<open>vstore\<close>; following a pointer that leads
  nowhere is a \<open>kfault\<close>. The functions of the kernel's VFS that work on the store are the
  parameter \<open>vfs\<close>, and \<open>vfs_laws\<close> states what their documentation promises; the callbacks the
  module hands to \<open>kern_mount\<close> and \<open>mount_single\<close> are arguments of those fields.

  The abstract view of the store is a tree: \<open>view\<close> maps a directory and a name to the entry's mode
  and file operations, \<open>stat\<close> follows a path. The lemmas show that creating an entry extends this
  tree by exactly one node and keeps the store well formed, and the properties that \<open>myfs_init\<close>
  builds exactly the intended tree.
\<close>

subsection \<open>Kernel objects\<close>

record inode =
  i_mode :: u16
  i_uid :: u32
  i_gid :: u32
  i_size :: u64
  i_blocks :: u64
  i_time :: u64
  i_op :: "string option"
  i_fop :: "string option"
  i_private :: ptr
  i_nlink :: nat
  i_sb :: ptr

record dentry =
  d_inode :: ptr
  d_count :: nat

record super_block =
  s_root :: ptr
  s_magic :: u32

record vfsmount =
  mnt_sb :: ptr

text \<open>\<open>children\<close> is the kernel's directory cache: the dentry of a name in a directory.\<close>

record vstore =
  inodes :: "ptr \<rightharpoonup> inode"
  dentries :: "ptr \<rightharpoonup> dentry"
  children :: "ptr \<times> string \<rightharpoonup> ptr"
  supers :: "ptr \<rightharpoonup> super_block"
  mounts :: "ptr \<rightharpoonup> vfsmount"

definition empty_vstore :: vstore where
  "empty_vstore = \<lparr>inodes = Map.empty, dentries = Map.empty, children = Map.empty, supers = Map.empty,
     mounts = Map.empty\<rparr>"

record vfs =
  new_inode :: "vstore \<Rightarrow> ptr \<Rightarrow> ptr \<times> vstore"
  init_special_inode :: "vstore \<Rightarrow> ptr \<Rightarrow> u32 \<Rightarrow> u32 \<Rightarrow> vstore"
  inc_nlink :: "vstore \<Rightarrow> ptr \<Rightarrow> vstore"
  d_instantiate :: "vstore \<Rightarrow> ptr \<Rightarrow> ptr \<Rightarrow> vstore"
  dget :: "vstore \<Rightarrow> ptr \<Rightarrow> vstore"
  lookup_one_len :: "vstore \<Rightarrow> string \<Rightarrow> ptr \<Rightarrow> (int + ptr) \<times> vstore"
  simple_fill_super :: "vstore \<Rightarrow> ptr \<Rightarrow> u32 \<Rightarrow> string list \<Rightarrow> int \<times> vstore"
  mount_single :: "vstore \<Rightarrow> (vstore \<Rightarrow> ptr \<Rightarrow> int \<times> vstore) \<Rightarrow> (int + ptr) \<times> vstore"
  kern_mount :: "vstore \<Rightarrow> (vstore \<Rightarrow> (int + ptr) \<times> vstore) \<Rightarrow> (int + ptr) \<times> vstore"
  current_fsuid :: u32
  current_fsgid :: u32
  current_time :: "vstore \<Rightarrow> u64"

subsection \<open>The module's state and constants\<close>

record myfs_st = kctx +
  st :: vstore
  myfs_mount :: "int + ptr"
  myfs_mount_count :: int

definition myfs_start :: "klog \<Rightarrow> vstore \<Rightarrow> myfs_st" where
  "myfs_start l v = \<lparr>klog = l, st = v, myfs_mount = Inr NULL, myfs_mount_count = 0\<rparr>"

definition VMACACHE_SIZE :: u64 where "VMACACHE_SIZE = 4096"
definition MYFS_MAGIC :: u32 where "MYFS_MAGIC = 0x64668735"
definition MYFS :: string where "MYFS = ''myfs''"

text \<open>File types and permissions of \<^verbatim>\<open><linux/stat.h>\<close> (0170000, 0040000, 0100000, 0700, 0444, 0200, 0222).\<close>

definition S_IFMT :: u32 where "S_IFMT = 0xF000"
definition S_IFDIR :: u32 where "S_IFDIR = 0x4000"
definition S_IFREG :: u32 where "S_IFREG = 0x8000"
definition S_IRWXU :: u32 where "S_IRWXU = 0x1C0"
definition S_IRUGO :: u32 where "S_IRUGO = 0x124"
definition S_IWUSR :: u32 where "S_IWUSR = 0x80"
definition S_IWUGO :: u32 where "S_IWUGO = 0x92"

lemmas mode_defs = S_IFMT_def S_IFDIR_def S_IFREG_def S_IRWXU_def S_IRUGO_def S_IWUSR_def S_IWUGO_def

text \<open>Following a pointer, and sequencing of computations that may fault.\<close>

definition deref :: "('p \<rightharpoonup> 'a) \<Rightarrow> 'p \<Rightarrow> kfault + 'a" where
  "deref m p = (case m p of None \<Rightarrow> Inl Bad_access | Some x \<Rightarrow> Inr x)"

definition and_then :: "kfault + 'a \<Rightarrow> ('a \<Rightarrow> kfault + 'b) \<Rightarrow> kfault + 'b" where
  "and_then r f = (case r of Inl e \<Rightarrow> Inl e | Inr x \<Rightarrow> f x)"

definition say :: "string \<Rightarrow> karg list \<Rightarrow> myfs_st \<Rightarrow> myfs_st" where
  "say fmt args s = s\<lparr>klog := klog s @ [Printk fmt args]\<rparr>"

definition upd_inode :: "ptr \<Rightarrow> (inode \<Rightarrow> inode) \<Rightarrow> myfs_st \<Rightarrow> kfault + myfs_st" where
  "upd_inode p f s = and_then (deref (inodes (st s)) p)
     (\<lambda>i. Inr (s\<lparr>st := (st s)\<lparr>inodes := (inodes (st s))(p \<mapsto> f i)\<rparr>\<rparr>))"

subsection \<open>Creating inodes and directory entries\<close>

definition myfs_get_inode :: "vfs \<Rightarrow> myfs_st \<Rightarrow> ptr \<Rightarrow> u32 \<Rightarrow> u32 \<Rightarrow> kfault + ptr \<times> myfs_st" where
  "myfs_get_inode V s sb mode dev =
     (let (p, v) = new_inode V (st s) sb; s1 = s\<lparr>st := v\<rparr>
      in if p = NULL then Inr (NULL, s1)
         else and_then
           (upd_inode p (\<lambda>i. i\<lparr>i_mode := ucast mode, i_uid := current_fsuid V, i_gid := current_fsgid V,
               i_size := VMACACHE_SIZE, i_blocks := 0, i_time := current_time V v\<rparr>) s1)
           (\<lambda>s2. if mode AND S_IFMT = S_IFREG then Inr (p, say (''creat a file, LAE'' @ nl) [] s2)
                 else if mode AND S_IFMT = S_IFDIR
                 then and_then
                   (upd_inode p (\<lambda>i. i\<lparr>i_op := Some ''simple_dir_inode_operations'',
                      i_fop := Some ''simple_dir_operations''\<rparr>) (say (''creat a dir, LAE'' @ nl) [] s2))
                   (\<lambda>s3. Inr (p, s3\<lparr>st := inc_nlink V (st s3) p\<rparr>))
                 else Inr (p, s2\<lparr>st := init_special_inode V (st s2) p mode dev\<rparr>)))"

definition myfs_mknod :: "vfs \<Rightarrow> myfs_st \<Rightarrow> ptr \<Rightarrow> ptr \<Rightarrow> u32 \<Rightarrow> u32 \<Rightarrow> kfault + int \<times> myfs_st" where
  "myfs_mknod V s dir dentry mode dev =
     and_then (deref (dentries (st s)) dentry) (\<lambda>d.
       if d_inode d \<noteq> NULL then Inr (- EPERM, s)
       else and_then (deref (inodes (st s)) dir) (\<lambda>i.
         and_then (myfs_get_inode V s (i_sb i) mode dev) (\<lambda>(p, s1).
           if p = NULL then Inr (- EPERM, s1)
           else Inr (0, s1\<lparr>st := dget V (d_instantiate V (st s1) dentry p) dentry\<rparr>))))"

definition myfs_mkdir :: "vfs \<Rightarrow> myfs_st \<Rightarrow> ptr \<Rightarrow> ptr \<Rightarrow> u32 \<Rightarrow> kfault + int \<times> myfs_st" where
  "myfs_mkdir V s dir dentry mode =
     and_then (myfs_mknod V s dir dentry (mode OR S_IFDIR) 0) (\<lambda>(res, s1).
       if res = 0 then Inr (res, s1\<lparr>st := inc_nlink V (st s1) dir\<rparr>) else Inr (res, s1))"

definition myfs_creat :: "vfs \<Rightarrow> myfs_st \<Rightarrow> ptr \<Rightarrow> ptr \<Rightarrow> u32 \<Rightarrow> kfault + int \<times> myfs_st" where
  "myfs_creat V s dir dentry mode = myfs_mknod V s dir dentry (mode OR S_IFREG) 0"

text \<open>
  The parent defaults to the root of the mounted file system. The result is the error code, what
  is stored through the last argument (a dentry or an error pointer), and the state.
\<close>

definition default_parent :: "myfs_st \<Rightarrow> ptr \<Rightarrow> kfault + ptr" where
  "default_parent s parent =
     (if parent \<noteq> NULL then Inr parent
      else case myfs_mount s of
        Inl _ \<Rightarrow> Inl Bad_access
      | Inr m \<Rightarrow> if m = NULL then Inr NULL
          else and_then (deref (mounts (st s)) m) (\<lambda>mnt.
                 if mnt_sb mnt = NULL then Inr NULL
                 else and_then (deref (supers (st s)) (mnt_sb mnt)) (\<lambda>b. Inr (s_root b))))"

definition myfs_creat_by_name ::
  "vfs \<Rightarrow> myfs_st \<Rightarrow> string \<Rightarrow> u32 \<Rightarrow> ptr \<Rightarrow> kfault + int \<times> (int + ptr) \<times> myfs_st" where
  "myfs_creat_by_name V s name mode parent0 =
     and_then (default_parent s parent0) (\<lambda>parent.
       if parent = NULL then Inr (- EFAULT, Inr NULL, say ''can't find a parent'' [] s)
       else and_then (deref (dentries (st s)) parent) (\<lambda>pd.
         if d_inode pd = NULL then Inl Bad_access
         else
           let s1 = s\<lparr>klog := klog s @ [Inode_lock (d_inode pd)]\<rparr>;
               (r, v) = lookup_one_len V (st s1) name parent;
               s2 = s1\<lparr>st := v\<rparr>
           in and_then
               (case r of
                  Inl e \<Rightarrow> Inr (e, s2)
                | Inr dentry \<Rightarrow>
                    if mode AND S_IFMT = S_IFDIR then myfs_mkdir V s2 (d_inode pd) dentry mode
                    else myfs_creat V s2 (d_inode pd) dentry mode)
               (\<lambda>(error, s3). Inr (error, r, s3\<lparr>klog := klog s3 @ [Inode_unlock (d_inode pd)]\<rparr>))))"

definition apply_file_ops :: "ptr \<Rightarrow> ptr \<Rightarrow> string option \<Rightarrow> myfs_st \<Rightarrow> kfault + ptr \<times> myfs_st" where
  "apply_file_ops dentry data fops s =
     and_then (deref (dentries (st s)) dentry) (\<lambda>d.
       if d_inode d = NULL then Inr (dentry, s)
       else and_then
         (if data \<noteq> NULL then upd_inode (d_inode d) (\<lambda>i. i\<lparr>i_private := data\<rparr>) s else Inr s) (\<lambda>s3.
       and_then
         (if fops \<noteq> None then upd_inode (d_inode d) (\<lambda>i. i\<lparr>i_fop := fops\<rparr>) s3 else Inr s3) (\<lambda>s4.
       Inr (dentry, s4))))"

definition creating_msg :: string where
  "creating_msg = ''myfs: creating file '' @ [CHR 0x27] @ ''%s'' @ [CHR 0x27] @ '', LAE'' @ nl"

definition myfs_creat_file ::
  "vfs \<Rightarrow> myfs_st \<Rightarrow> string \<Rightarrow> u32 \<Rightarrow> ptr \<Rightarrow> ptr \<Rightarrow> string option \<Rightarrow> kfault + ptr \<times> myfs_st" where
  "myfs_creat_file V s name mode parent data fops =
     and_then (myfs_creat_by_name V (say creating_msg [KStr name] s) name mode parent) (\<lambda>(error, r, s2).
       if error \<noteq> 0 then Inr (NULL, s2)
       else case r of
              Inl _ \<Rightarrow> Inl Bad_access
            | Inr dentry \<Rightarrow> apply_file_ops dentry data fops s2)"

definition myfs_creat_dir :: "vfs \<Rightarrow> myfs_st \<Rightarrow> string \<Rightarrow> ptr \<Rightarrow> kfault + ptr \<times> myfs_st" where
  "myfs_creat_dir V s name parent =
     myfs_creat_file V s name (S_IFDIR OR S_IRWXU OR S_IRUGO) parent NULL None"

subsection \<open>Mounting, loading and unloading\<close>

definition myfs_fill_super :: "vfs \<Rightarrow> vstore \<Rightarrow> ptr \<Rightarrow> int \<times> vstore" where
  "myfs_fill_super V v sb = simple_fill_super V v sb MYFS_MAGIC ['''']"

definition myfs_get_sb :: "vfs \<Rightarrow> vstore \<Rightarrow> (int + ptr) \<times> vstore" where
  "myfs_get_sb V v = mount_single V v (myfs_fill_super V)"

text \<open>The entries \<open>myfs_init\<close> makes; the two versions differ in the modes of the first two files.\<close>

definition myfs_populate :: "vfs \<Rightarrow> u32 \<Rightarrow> u32 \<Rightarrow> myfs_st \<Rightarrow> kfault + myfs_st" where
  "myfs_populate V one two s =
     and_then (myfs_creat_dir V s ''First'' NULL) (\<lambda>(pslot, s).
     and_then (myfs_creat_file V s ''one'' one pslot NULL (Some ''myfs_file_operations'')) (\<lambda>(_, s).
     and_then (myfs_creat_file V s ''two'' two pslot NULL (Some ''myfs_file_operations'')) (\<lambda>(_, s).
     and_then (myfs_creat_dir V s ''Second'' NULL) (\<lambda>(pslot, s).
     and_then (myfs_creat_file V s ''one'' (S_IFREG OR S_IRUGO OR S_IWUSR) pslot NULL (Some ''myfs_file_operations'')) (\<lambda>(_, s).
     and_then (myfs_creat_file V s ''two'' (S_IFREG OR S_IRUGO OR S_IWUSR) pslot NULL (Some ''myfs_file_operations'')) (\<lambda>(_, s).
     Inr s))))))"

definition myfs_init_with :: "u32 \<Rightarrow> u32 \<Rightarrow> vfs \<Rightarrow> kernel \<Rightarrow> myfs_st \<Rightarrow> kfault + int \<times> myfs_st" where
  "myfs_init_with one two V K s =
     (let retval = register_filesystem_ans K (klog s) MYFS;
          s1 = s\<lparr>klog := klog s @ [Register_filesystem MYFS retval]\<rparr>
      in if retval = 0
         then let (m, v) = kern_mount V (st s1) (myfs_get_sb V);
                  s2 = s1\<lparr>klog := klog s1 @ [Kern_mount MYFS m], st := v, myfs_mount := m\<rparr>
              in case m of
                   Inl _ \<Rightarrow>
                     (let s3 = say (''--ERROR:aufs could not mount!--'' @ nl) [] s2
                      in Inr (retval, s3\<lparr>klog := klog s3 @ [Unregister_filesystem MYFS]\<rparr>))
                 | Inr _ \<Rightarrow> and_then (myfs_populate V one two s2) (\<lambda>s3. Inr (retval, s3))
         else and_then (myfs_populate V one two s1) (\<lambda>s3. Inr (retval, s3)))"

definition myfs_init :: "vfs \<Rightarrow> kernel \<Rightarrow> myfs_st \<Rightarrow> kfault + int \<times> myfs_st" where
  "myfs_init = myfs_init_with (S_IFREG OR S_IRUGO OR S_IWUSR) (S_IFREG OR S_IRUGO)"

definition myfs_init_ubuntu :: "vfs \<Rightarrow> kernel \<Rightarrow> myfs_st \<Rightarrow> kfault + int \<times> myfs_st" where
  "myfs_init_ubuntu = myfs_init_with (S_IFREG OR S_IRUGO OR S_IWUGO) (S_IFREG OR S_IRUGO OR S_IWUSR)"

text \<open>
  \<open>simple_release_fs\<close> takes one off the count and drops the reference to the mount; at count 0 it
  also clears the variable. The count starts at 0, so it becomes -1 here.
\<close>

definition myfs_exit :: "kernel \<Rightarrow> myfs_st \<Rightarrow> myfs_st" where
  "myfs_exit K s =
     s\<lparr>klog := klog s @ [Simple_release_fs (myfs_mount s), Unregister_filesystem MYFS],
       myfs_mount_count := myfs_mount_count s - 1,
       myfs_mount := (if myfs_mount_count s - 1 = 0 then Inr NULL else myfs_mount s)\<rparr>"

subsection \<open>What the kernel's VFS promises\<close>

definition blank_inode :: "ptr \<Rightarrow> inode" where
  "blank_inode sb = \<lparr>i_mode = 0, i_uid = 0, i_gid = 0, i_size = 0, i_blocks = 0, i_time = 0, i_op = None,
     i_fop = None, i_private = NULL, i_nlink = 1, i_sb = sb\<rparr>"

text \<open>
  \<open>new_inode\<close> allocates a fresh inode of the super block or answers a null pointer;
  \<open>inc_nlink\<close> adds a link; \<open>d_instantiate\<close> attaches an inode to a dentry, \<open>dget\<close> takes a reference;
  \<open>lookup_one_len\<close> returns the cached dentry of the name with a new reference, a fresh dentry
  without an inode, or an error pointer.
\<close>

definition new_inode_law :: "vfs \<Rightarrow> bool" where
  "new_inode_law V \<longleftrightarrow> (\<forall>v sb p v'. new_inode V v sb = (p, v') \<longrightarrow>
     (if p = NULL then v' = v
      else inodes v p = None \<and> v' = v\<lparr>inodes := (inodes v)(p \<mapsto> blank_inode sb)\<rparr>))"

definition inc_nlink_law :: "vfs \<Rightarrow> bool" where
  "inc_nlink_law V \<longleftrightarrow> (\<forall>v p i. inodes v p = Some i \<longrightarrow>
     inc_nlink V v p = v\<lparr>inodes := (inodes v)(p \<mapsto> i\<lparr>i_nlink := Suc (i_nlink i)\<rparr>)\<rparr>)"

definition dentry_laws :: "vfs \<Rightarrow> bool" where
  "dentry_laws V \<longleftrightarrow> (\<forall>v d e p. dentries v d = Some e \<longrightarrow>
     d_instantiate V v d p = v\<lparr>dentries := (dentries v)(d \<mapsto> e\<lparr>d_inode := p\<rparr>)\<rparr> \<and>
     dget V v d = v\<lparr>dentries := (dentries v)(d \<mapsto> e\<lparr>d_count := Suc (d_count e)\<rparr>)\<rparr>)"

definition lookup_law :: "vfs \<Rightarrow> bool" where
  "lookup_law V \<longleftrightarrow> (\<forall>v name par.
     (case fst (lookup_one_len V v name par) of
        Inl err \<Rightarrow> err \<noteq> 0 \<and> snd (lookup_one_len V v name par) = v
      | Inr d \<Rightarrow> d \<noteq> NULL \<and>
          (case children v (par, name) of
             Some d0 \<Rightarrow> d = d0 \<and> (\<forall>e. dentries v d = Some e \<longrightarrow>
               snd (lookup_one_len V v name par) =
                 v\<lparr>dentries := (dentries v)(d \<mapsto> e\<lparr>d_count := Suc (d_count e)\<rparr>)\<rparr>)
           | None \<Rightarrow> dentries v d = None \<and>
               snd (lookup_one_len V v name par) =
                 v\<lparr>dentries := (dentries v)(d \<mapsto> \<lparr>d_inode = NULL, d_count = 1\<rparr>),
                   children := (children v)((par, name) \<mapsto> d)\<rparr>)))"

definition vfs_laws :: "vfs \<Rightarrow> bool" where
  "vfs_laws V \<longleftrightarrow> new_inode_law V \<and> inc_nlink_law V \<and> dentry_laws V \<and> lookup_law V"

definition positive :: "vstore \<Rightarrow> ptr \<Rightarrow> bool" where
  "positive v d = (case dentries v d of None \<Rightarrow> False | Some e \<Rightarrow> d_inode e \<noteq> NULL)"

text \<open>
  Well-formed stores: names lead from directories that have an inode to existing dentries, one
  dentry per name, a dentry's inode exists, and no dentry is at the null address.
\<close>

definition vstore_wf :: "vstore \<Rightarrow> bool" where
  "vstore_wf v \<longleftrightarrow>
     dentries v NULL = None
   \<and> (\<forall>p n d. children v (p, n) = Some d \<longrightarrow> positive v p \<and> dentries v d \<noteq> None)
   \<and> (\<forall>k k' d. children v k = Some d \<longrightarrow> children v k' = Some d \<longrightarrow> k = k')
   \<and> (\<forall>d e. dentries v d = Some e \<longrightarrow> d_inode e \<noteq> NULL \<longrightarrow> inodes v (d_inode e) \<noteq> None)"

text \<open>
  A VFS in which nothing fails on a well-formed store as long as there are fewer than 256 inodes and dentries. (No VFS can
  hand out fresh objects for ever: there are only finitely many addresses.)
\<close>

definition room :: "vstore \<Rightarrow> nat \<Rightarrow> bool" where
  "room v n \<longleftrightarrow> card (dom (inodes v)) + n \<le> 256 \<and> card (dom (dentries v)) + n \<le> 256"

definition vfs_grants :: "vfs \<Rightarrow> bool" where
  "vfs_grants V \<longleftrightarrow>
     (\<forall>v sb. card (dom (inodes v)) < 256 \<longrightarrow> fst (new_inode V v sb) \<noteq> NULL)
   \<and> (\<forall>v name par. vstore_wf v \<longrightarrow> card (dom (dentries v)) < 256 \<longrightarrow> (\<exists>d. fst (lookup_one_len V v name par) = Inr d))"

text \<open>
  Mounting, for a file system type that is not mounted yet: \<open>kern_mount\<close> runs the module's callback
  and wraps the root it returns; \<open>mount_single\<close> makes a super block and has it filled;
  \<open>simple_fill_super\<close> with an empty list of files makes the root directory.
\<close>

definition root_inode :: "inode \<Rightarrow> bool" where
  "root_inode i \<longleftrightarrow> i_mode i = 0x41ED \<and> i_uid i = 0 \<and> i_gid i = 0 \<and> i_nlink i = 2
   \<and> i_op i = Some ''simple_dir_inode_operations'' \<and> i_fop i = Some ''simple_dir_operations''"

definition mount_laws :: "vfs \<Rightarrow> bool" where
  "mount_laws V \<longleftrightarrow>
     (\<forall>v get m v'. kern_mount V v get = (Inr m, v') \<longrightarrow> m \<noteq> NULL \<and>
        (\<exists>root v1 sb b. get v = (Inr root, v1) \<and> sb \<noteq> NULL \<and> supers v1 sb = Some b \<and> s_root b = root
           \<and> v' = v1\<lparr>mounts := (mounts v1)(m \<mapsto> \<lparr>mnt_sb = sb\<rparr>)\<rparr>))
   \<and> (\<forall>v fill root v'. supers v = Map.empty \<longrightarrow> mount_single V v fill = (Inr root, v') \<longrightarrow>
        (\<exists>sb b. fill (v\<lparr>supers := [sb \<mapsto> \<lparr>s_root = NULL, s_magic = 0\<rparr>]\<rparr>) sb = (0, v')
           \<and> supers v' sb = Some b \<and> s_root b = root))
   \<and> (\<forall>v sb magic v'. simple_fill_super V v sb magic [''''] = (0, v') \<longrightarrow>
        (\<exists>root i X. root \<noteq> NULL \<and> i \<noteq> NULL \<and> dentries v root = None \<and> inodes v i = None
           \<and> root_inode X
           \<and> v' = v\<lparr>inodes := (inodes v)(i \<mapsto> X), dentries := (dentries v)(root \<mapsto> \<lparr>d_inode = i, d_count = 1\<rparr>),
                    supers := (supers v)(sb \<mapsto> \<lparr>s_root = root, s_magic = magic\<rparr>)\<rparr>))"

subsection \<open>The tree the store represents\<close>

type_synonym node = "u16 \<times> string option"

definition view :: "vstore \<Rightarrow> ptr \<times> string \<Rightarrow> (ptr \<times> node) option" where
  "view v k = (case children v k of
     None \<Rightarrow> None
   | Some d \<Rightarrow> (case dentries v d of
       None \<Rightarrow> None
     | Some e \<Rightarrow> if d_inode e = NULL then None
         else map_option (\<lambda>i. (d, i_mode i, i_fop i)) (inodes v (d_inode e))))"

fun stat :: "vstore \<Rightarrow> ptr \<Rightarrow> string list \<Rightarrow> node option" where
  "stat v d [] = None"
| "stat v d (n # ns) = (case view v (d, n) of
     None \<Rightarrow> None
   | Some (d', x) \<Rightarrow> if ns = [] then Some x else stat v d' ns)"

text \<open>Attaching the fresh inode \<open>i\<close> with contents \<open>X\<close> to the dentry \<open>d\<close>.\<close>

definition attach :: "vstore \<Rightarrow> ptr \<Rightarrow> dentry \<Rightarrow> ptr \<Rightarrow> inode \<Rightarrow> vstore" where
  "attach v d e i X = v\<lparr>inodes := (inodes v)(i \<mapsto> X),
     dentries := (dentries v)(d \<mapsto> e\<lparr>d_inode := i, d_count := Suc (d_count e)\<rparr>)\<rparr>"

subsection \<open>Lemmas: the store\<close>

lemma and_then_simps [simp]:
  "and_then (Inr x) f = f x" "and_then (Inl e) f = Inl e"
  by (simp_all add: and_then_def)

lemma deref_Some [simp]: "m p = Some x \<Longrightarrow> deref m p = Inr x"
  by (simp add: deref_def)

lemma vstore_wfD:
  assumes "vstore_wf v"
  shows "children v (p, n) = Some d \<Longrightarrow> positive v p"
    and "children v (p, n) = Some d \<Longrightarrow> \<exists>e. dentries v d = Some e"
    and "children v k = Some d \<Longrightarrow> children v k' = Some d \<Longrightarrow> k = k'"
    and "dentries v d = Some e \<Longrightarrow> d_inode e \<noteq> NULL \<Longrightarrow> \<exists>i. inodes v (d_inode e) = Some i"
  using assms unfolding vstore_wf_def by blast+

lemma vstore_wf_no_null: "vstore_wf v \<Longrightarrow> children v k \<noteq> Some NULL"
  using vstore_wfD(2) [of v "fst k" "snd k" NULL] by (auto simp: vstore_wf_def)

lemma view_attach:
  assumes wf: "vstore_wf v" and k: "children v k = Some d" and e: "dentries v d = Some e" "d_inode e = NULL"
    and i: "inodes v i = None" "i \<noteq> NULL"
  shows "view (attach v d e i X) = (view v)(k \<mapsto> (d, i_mode X, i_fop X))"
proof
  fix k'
  show "view (attach v d e i X) k' = ((view v)(k \<mapsto> (d, i_mode X, i_fop X))) k'"
  proof (cases "children v k'")
    case None
    with k show ?thesis by (auto simp: view_def attach_def)
  next
    case (Some d')
    show ?thesis
    proof (cases "d' = d")
      case True
      with Some k vstore_wfD(3) [OF wf] have "k' = k" by blast
      with k i(2) show ?thesis by (simp add: view_def attach_def)
    next
      case False
      with Some k have "k' \<noteq> k" by auto
      moreover have "d_inode e' \<noteq> i" if "dentries v d' = Some e'" "d_inode e' \<noteq> NULL" for e'
        using vstore_wfD(4) [OF wf that] i(1) by auto
      ultimately show ?thesis using Some False
        by (auto simp: view_def attach_def split: option.splits)
    qed
  qed
qed

lemma attach_wf:
  assumes "vstore_wf v" and "dentries v d = Some e" and "i \<noteq> NULL"
  shows "vstore_wf (attach v d e i X)"
  using assms unfolding vstore_wf_def attach_def positive_def
  by (auto split: option.splits if_splits)

lemma positive_attach:
  "i \<noteq> NULL \<Longrightarrow> positive (attach v d e i X) x = (x = d \<or> positive v x)"
  by (simp add: positive_def attach_def)

text \<open>Changing an existing inode without touching its mode and operations changes nothing in the tree.\<close>

lemma inode_update_invisible:
  assumes "inodes v p = Some i" and "i_mode i' = i_mode i" and "i_fop i' = i_fop i"
  shows "view (v\<lparr>inodes := (inodes v)(p \<mapsto> i')\<rparr>) = view v"
    and "vstore_wf (v\<lparr>inodes := (inodes v)(p \<mapsto> i')\<rparr>) = vstore_wf v"
    and "positive (v\<lparr>inodes := (inodes v)(p \<mapsto> i')\<rparr>) = positive v"
proof -
  show pos: "positive (v\<lparr>inodes := (inodes v)(p \<mapsto> i')\<rparr>) = positive v"
    by (simp add: fun_eq_iff positive_def)
  show "view (v\<lparr>inodes := (inodes v)(p \<mapsto> i')\<rparr>) = view v"
    using assms by (auto simp: fun_eq_iff view_def split: option.splits)
  have "((inodes v)(p \<mapsto> i')) x \<noteq> None \<longleftrightarrow> inodes v x \<noteq> None" for x using assms(1) by simp
  then show "vstore_wf (v\<lparr>inodes := (inodes v)(p \<mapsto> i')\<rparr>) = vstore_wf v"
    unfolding vstore_wf_def pos by simp
qed

subsection \<open>Lemmas: looking up and making a node\<close>

lemma vfs_lawsD:
  assumes "vfs_laws V"
  shows "new_inode V v sb = (NULL, v') \<Longrightarrow> v' = v"
    and "new_inode V v sb = (p, v') \<Longrightarrow> p \<noteq> NULL \<Longrightarrow>
       inodes v p = None \<and> v' = v\<lparr>inodes := (inodes v)(p \<mapsto> blank_inode sb)\<rparr>"
    and "inodes v p = Some i \<Longrightarrow> inc_nlink V v p = v\<lparr>inodes := (inodes v)(p \<mapsto> i\<lparr>i_nlink := Suc (i_nlink i)\<rparr>)\<rparr>"
    and "dentries v d = Some e \<Longrightarrow> d_instantiate V v d q = v\<lparr>dentries := (dentries v)(d \<mapsto> e\<lparr>d_inode := q\<rparr>)\<rparr>"
    and "dentries v d = Some e \<Longrightarrow> dget V v d = v\<lparr>dentries := (dentries v)(d \<mapsto> e\<lparr>d_count := Suc (d_count e)\<rparr>)\<rparr>"
    and "lookup_one_len V v name par = (Inl err, v') \<Longrightarrow> err \<noteq> 0 \<and> v' = v"
proof -
  note laws = assms [unfolded vfs_laws_def]
  show "new_inode V v sb = (NULL, v') \<Longrightarrow> v' = v"
    "new_inode V v sb = (p, v') \<Longrightarrow> p \<noteq> NULL \<Longrightarrow>
       inodes v p = None \<and> v' = v\<lparr>inodes := (inodes v)(p \<mapsto> blank_inode sb)\<rparr>"
    using laws unfolding new_inode_law_def by metis+
  show "inodes v p = Some i \<Longrightarrow> inc_nlink V v p = v\<lparr>inodes := (inodes v)(p \<mapsto> i\<lparr>i_nlink := Suc (i_nlink i)\<rparr>)\<rparr>"
    using laws unfolding inc_nlink_law_def by blast
  show "dentries v d = Some e \<Longrightarrow> d_instantiate V v d q = v\<lparr>dentries := (dentries v)(d \<mapsto> e\<lparr>d_inode := q\<rparr>)\<rparr>"
    "dentries v d = Some e \<Longrightarrow> dget V v d = v\<lparr>dentries := (dentries v)(d \<mapsto> e\<lparr>d_count := Suc (d_count e)\<rparr>)\<rparr>"
    using laws unfolding dentry_laws_def by blast+
  show "lookup_one_len V v name par = (Inl err, v') \<Longrightarrow> err \<noteq> 0 \<and> v' = v"
    using spec [OF spec [OF spec [OF laws [THEN conjunct2, THEN conjunct2, THEN conjunct2, unfolded lookup_law_def]]],
        of v name par] by simp
qed

lemma lookup_one_len_found:
  assumes "vfs_laws V" and "lookup_one_len V v name par = (Inr d, v')"
  shows "d \<noteq> NULL"
    and "children v (par, name) = Some d0 \<Longrightarrow> dentries v d0 = Some e \<Longrightarrow>
       d = d0 \<and> v' = v\<lparr>dentries := (dentries v)(d \<mapsto> e\<lparr>d_count := Suc (d_count e)\<rparr>)\<rparr>"
    and "children v (par, name) = None \<Longrightarrow> dentries v d = None \<and>
       v' = v\<lparr>dentries := (dentries v)(d \<mapsto> \<lparr>d_inode = NULL, d_count = 1\<rparr>), children := (children v)((par, name) \<mapsto> d)\<rparr>"
  using spec [OF spec [OF spec [OF assms(1) [unfolded vfs_laws_def, THEN conjunct2, THEN conjunct2, THEN conjunct2,
      unfolded lookup_law_def]]], of v name par] assms(2) by (simp_all split: option.splits)

text \<open>
  How a store grows: existing inodes at most gain links, new ones satisfy \<open>N\<close>, a dentry keeps the
  inode it has, and new names are in the directory \<open>p\<close>.
\<close>

definition grows :: "(inode \<Rightarrow> bool) \<Rightarrow> ptr \<Rightarrow> vstore \<Rightarrow> vstore \<Rightarrow> bool" where
  "grows N p v v' \<longleftrightarrow>
     (\<forall>q i. inodes v q = Some i \<longrightarrow> (\<exists>n \<ge> i_nlink i. inodes v' q = Some (i\<lparr>i_nlink := n\<rparr>)))
   \<and> (\<forall>q i. inodes v' q = Some i \<longrightarrow> inodes v q = None \<longrightarrow> N i)
   \<and> (\<forall>d e. dentries v d = Some e \<longrightarrow> d_inode e \<noteq> NULL \<longrightarrow> (\<exists>e'. dentries v' d = Some e' \<and> d_inode e' = d_inode e))
   \<and> (\<forall>q n. children v (q, n) = None \<longrightarrow> children v' (q, n) \<noteq> None \<longrightarrow> q = p)"

lemma growsI:
  assumes "\<And>q i. inodes v q = Some i \<Longrightarrow> \<exists>n \<ge> i_nlink i. inodes v' q = Some (i\<lparr>i_nlink := n\<rparr>)"
    and "\<And>q i. inodes v' q = Some i \<Longrightarrow> inodes v q = None \<Longrightarrow> N i"
    and "\<And>d e. dentries v d = Some e \<Longrightarrow> d_inode e \<noteq> NULL \<Longrightarrow> \<exists>e'. dentries v' d = Some e' \<and> d_inode e' = d_inode e"
    and "\<And>q n. children v (q, n) = None \<Longrightarrow> children v' (q, n) \<noteq> None \<Longrightarrow> q = p"
  shows "grows N p v v'"
  using assms unfolding grows_def by blast

lemma same_links: "\<exists>n \<ge> i_nlink i. i = i\<lparr>i_nlink := n\<rparr>"
  by (rule exI [of _ "i_nlink i"]) simp

lemma grows_refl: "grows N p v v"
  by (rule growsI) (simp_all add: same_links)

text \<open>Names and references, as a lookup changes them, and then anything.\<close>

lemma grows_after_lookup:
  assumes "inodes v1 = inodes v"
    and "\<forall>d e. dentries v d = Some e \<longrightarrow> (\<exists>e'. dentries v1 d = Some e' \<and> d_inode e' = d_inode e)"
    and "\<forall>q n. children v (q, n) = None \<longrightarrow> children v1 (q, n) \<noteq> None \<longrightarrow> q = p"
    and "grows N p v1 v2"
  shows "grows N p v v2"
proof (rule growsI)
  fix d e assume "dentries v d = Some e" "d_inode e \<noteq> NULL"
  then show "\<exists>e'. dentries v2 d = Some e' \<and> d_inode e' = d_inode e"
    using assms(2,4) unfolding grows_def by metis
next
  fix q n assume "children v (q, n) = None" "children v2 (q, n) \<noteq> None"
  then show "q = p" using assms(3,4) unfolding grows_def by blast
qed (use assms(1,4) in \<open>unfold grows_def, metis+\<close>)

text \<open>A lookup returns the dentry of the name and does not change the tree.\<close>

lemma lookup_keeps:
  assumes laws: "vfs_laws V" and wf: "vstore_wf v" and "positive v par"
    and look: "lookup_one_len V v name par = (Inr d, v')"
  shows "vstore_wf v' \<and> view v' = view v \<and> positive v' = positive v \<and> children v' (par, name) = Some d
     \<and> (\<exists>e. dentries v' d = Some e) \<and> d \<noteq> NULL \<and> dom (dentries v') = insert d (dom (dentries v)) \<and> inodes v' = inodes v \<and> supers v' = supers v \<and> mounts v' = mounts v
     \<and> (\<forall>x e. dentries v x = Some e \<longrightarrow> (\<exists>e'. dentries v' x = Some e' \<and> d_inode e' = d_inode e))
     \<and> (\<forall>q n. children v (q, n) = None \<longrightarrow> children v' (q, n) \<noteq> None \<longrightarrow> q = par)"
proof (cases "children v (par, name)")
  case None
  note n = lookup_one_len_found(3) [OF laws look None]
  have old: "d' \<noteq> d" if "children v k = Some d'" for k d'
    using vstore_wfD(2) [OF wf, of "fst k" "snd k" d'] that n by auto
  then have "view v' = view v" using n None by (auto simp: fun_eq_iff view_def split: option.splits)
  moreover have pos: "positive v' = positive v" using n by (auto simp: fun_eq_iff positive_def)
  moreover have "vstore_wf v'"
    unfolding vstore_wf_def pos
  proof (intro conjI allI impI)
    show "dentries v' NULL = None"
      using n wf lookup_one_len_found(1) [OF laws look] by (auto simp: vstore_wf_def)
  next
    fix p m x assume "children v' (p, m) = Some x"
    then show "positive v p" "dentries v' x \<noteq> None"
      using n assms(3) vstore_wfD(1,2) [OF wf, of p m x] by (auto split: if_splits)
  next
    fix k k' x assume "children v' k = Some x" "children v' k' = Some x"
    then show "k = k'"
      using n vstore_wfD(3) [OF wf, of k x k'] old [of k x] old [of k' x] by (auto split: if_splits)
  next
    fix x e assume "dentries v' x = Some e" "d_inode e \<noteq> NULL"
    then show "inodes v' (d_inode e) \<noteq> None" using n vstore_wfD(4) [OF wf, of x e] by (auto split: if_splits)
  qed
  moreover have "dentries v' d = Some \<lparr>d_inode = NULL, d_count = 1\<rparr>" using n by simp
  moreover have "\<forall>x e. dentries v x = Some e \<longrightarrow> (\<exists>e'. dentries v' x = Some e' \<and> d_inode e' = d_inode e)"
    using n by auto
  moreover have "dom (dentries v') = insert d (dom (dentries v))" using n by auto
  ultimately show ?thesis using n lookup_one_len_found(1) [OF laws look] by simp
next
  case (Some d0)
  then obtain e where e: "dentries v d0 = Some e" using vstore_wfD(2) [OF wf] by blast
  note n = lookup_one_len_found(2) [OF laws look Some e]
  then have "view v' = view v" using e by (auto simp: fun_eq_iff view_def split: option.splits)
  moreover have pos: "positive v' = positive v" using n e by (auto simp: fun_eq_iff positive_def)
  moreover have "vstore_wf v'" unfolding vstore_wf_def pos
    using n e wf unfolding vstore_wf_def by (auto split: if_splits)
  moreover have "\<forall>x e. dentries v x = Some e \<longrightarrow> (\<exists>e'. dentries v' x = Some e' \<and> d_inode e' = d_inode e)"
    using n e by auto
  moreover have "dom (dentries v') = insert d (dom (dentries v))" using n e by auto
  ultimately show ?thesis using n Some lookup_one_len_found(1) [OF laws look] by simp
qed

lemma room_insert:
  assumes "dom (dentries v') = insert d (dom (dentries v))" and "dom (inodes v') \<subseteq> insert i (dom (inodes v))"
    and "room v (Suc n)"
  shows "room v' n"
proof -
  have "card (dom (dentries v')) \<le> Suc (card (dom (dentries v)))" unfolding assms(1) by (rule card_insert_le_m1) simp_all
  moreover have "card (dom (inodes v')) \<le> Suc (card (dom (inodes v)))"
    using card_mono [OF _ assms(2)] card_insert_le_m1 [of "Suc (card (dom (inodes v)))" "dom (inodes v)" i]
    by simp
  ultimately show ?thesis using assms(3) unfolding room_def by simp
qed

text \<open>\<open>myfs_mknod\<close> on its three paths, for regular files and directories.\<close>

definition default_fop :: "u32 \<Rightarrow> string option" where
  "default_fop mode = (if mode AND S_IFMT = S_IFDIR then Some ''simple_dir_operations'' else None)"

definition file_or_dir :: "u32 \<Rightarrow> bool" where
  "file_or_dir mode \<longleftrightarrow> mode AND S_IFMT = S_IFREG \<or> mode AND S_IFMT = S_IFDIR"

definition dir_mode :: "u16 \<Rightarrow> bool" where
  "dir_mode m \<longleftrightarrow> m AND 0xF000 = 0x4000"

lemma file_type_ucast: "unat ((ucast mode :: u16) AND 0xF000) = unat (mode AND S_IFMT)"
proof -
  have "(ucast mode :: u16) AND 0xF000 = ucast (mode AND S_IFMT)" by (simp add: unsigned_and_eq S_IFMT_def)
  moreover have "unat (mode AND S_IFMT) < 2 ^ 16"
    using word_and_le1 [of mode S_IFMT] by (simp add: S_IFMT_def word_le_nat_alt)
  ultimately show ?thesis by (simp add: unsigned_ucast_eq take_bit_nat_eq_self)
qed

lemma dir_mode_ucast [simp]: "dir_mode (ucast mode) \<longleftrightarrow> mode AND S_IFMT = S_IFDIR"
  and reg_mode_ucast: "(ucast mode :: u16) AND 0xF000 = 0x8000 \<longleftrightarrow> mode AND S_IFMT = S_IFREG"
  by (simp_all add: dir_mode_def mode_defs(2,3) word_unat_eq_iff file_type_ucast)

text \<open>What a new inode of mode and operations \<open>x\<close> looks like.\<close>

definition made :: "vfs \<Rightarrow> node \<Rightarrow> inode \<Rightarrow> bool" where
  "made V x i \<longleftrightarrow> (i_mode i, i_fop i) = x \<and> i_uid i = current_fsuid V \<and> i_gid i = current_fsgid V
   \<and> i_op i = (if dir_mode (i_mode i) then Some ''simple_dir_inode_operations'' else None)
   \<and> i_nlink i = (if dir_mode (i_mode i) then 2 else 1)"

lemma myfs_mknod_exists:
  assumes "dentries (st s) d = Some e" and "d_inode e \<noteq> NULL"
  shows "myfs_mknod V s dir d mode dev = Inr (- EPERM, s)"
  using assms by (simp add: myfs_mknod_def)

lemma myfs_mknod_no_memory:
  assumes "vfs_laws V" and "dentries (st s) d = Some e" and "d_inode e = NULL" and "inodes (st s) dir = Some di"
    and "fst (new_inode V (st s) (i_sb di)) = NULL"
  shows "myfs_mknod V s dir d mode dev = Inr (- EPERM, s)"
proof -
  obtain v where "new_inode V (st s) (i_sb di) = (NULL, v)" using assms(5) by (cases "new_inode V (st s) (i_sb di)") auto
  then show ?thesis using vfs_lawsD(1) [OF assms(1)] assms by (simp add: myfs_mknod_def myfs_get_inode_def)
qed

lemma myfs_mknod_new:
  assumes laws: "vfs_laws V" and d: "dentries (st s) d = Some e" "d_inode e = NULL" and di: "inodes (st s) dir = Some di"
    and new: "fst (new_inode V (st s) (i_sb di)) = i" "i \<noteq> NULL" and mode: "file_or_dir mode"
  shows "\<exists>X l. myfs_mknod V s dir d mode dev = Inr (0, s\<lparr>klog := klog s @ l, st := attach (st s) d e i X\<rparr>)
     \<and> inodes (st s) i = None \<and> made V (ucast mode, default_fop mode) X \<and> calls l = []"
proof -
  obtain v where v: "new_inode V (st s) (i_sb di) = (i, v)" using new(1) by (cases "new_inode V (st s) (i_sb di)") auto
  note n = vfs_lawsD(2) [OF laws v new(2)]
  let ?F = "(blank_inode (i_sb di))\<lparr>i_mode := ucast mode, i_uid := current_fsuid V, i_gid := current_fsgid V,
     i_size := VMACACHE_SIZE, i_blocks := 0, i_time := current_time V v\<rparr>"
  let ?D = "?F\<lparr>i_op := Some ''simple_dir_inode_operations'', i_fop := Some ''simple_dir_operations'', i_nlink := Suc (Suc 0)\<rparr>"
  note unfolds = myfs_mknod_def myfs_get_inode_def upd_inode_def say_def vfs_lawsD(3) [OF laws]
    vfs_lawsD(4) [OF laws] vfs_lawsD(5) [OF laws] attach_def
  show ?thesis
  proof (cases "mode AND S_IFMT = S_IFDIR")
    case True
    then have "mode AND S_IFMT \<noteq> S_IFREG" by (simp add: mode_defs)
    then have "myfs_mknod V s dir d mode dev = Inr (0, s\<lparr>klog := klog s @ [Printk (''creat a dir, LAE'' @ nl) []],
        st := attach (st s) d e i ?D\<rparr>)"
      using True n v new(2) d di by (simp add: unfolds blank_inode_def)
    then show ?thesis using n True
      by (intro exI [of _ ?D] exI [of _ "[Printk (''creat a dir, LAE'' @ nl) []]"]) (simp add: default_fop_def made_def)
  next
    case False
    with mode have "mode AND S_IFMT = S_IFREG" by (simp add: file_or_dir_def)
    then have "myfs_mknod V s dir d mode dev = Inr (0, s\<lparr>klog := klog s @ [Printk (''creat a file, LAE'' @ nl) []],
        st := attach (st s) d e i ?F\<rparr>)"
      using False n v new(2) d di by (simp add: unfolds)
    then show ?thesis using n False
      by (intro exI [of _ ?F] exI [of _ "[Printk (''creat a file, LAE'' @ nl) []]"])
        (simp add: default_fop_def blank_inode_def made_def)
  qed
qed

subsection \<open>Lemmas: creating an entry\<close>

text \<open>The store after an entry was made: the new node, and one more link of the parent for a directory.\<close>

definition added :: "vstore \<Rightarrow> u32 \<Rightarrow> ptr \<Rightarrow> inode \<Rightarrow> ptr \<Rightarrow> dentry \<Rightarrow> ptr \<Rightarrow> inode \<Rightarrow> vstore" where
  "added v mode dir di d e i X =
     (if mode AND S_IFMT = S_IFDIR
      then (attach v d e i X)\<lparr>inodes := (inodes (attach v d e i X))(dir \<mapsto> di\<lparr>i_nlink := Suc (i_nlink di)\<rparr>)\<rparr>
      else attach v d e i X)"

lemma added_tree:
  assumes "vstore_wf v" and "children v k = Some d" and "dentries v d = Some e" and "d_inode e = NULL"
    and "inodes v i = None" and "i \<noteq> NULL" and "inodes v dir = Some di"
  shows "vstore_wf (added v mode dir di d e i X)"
    and "view (added v mode dir di d e i X) = (view v)(k \<mapsto> (d, i_mode X, i_fop X))"
    and "positive (added v mode dir di d e i X) x = (x = d \<or> positive v x)"
proof -
  have "inodes (attach v d e i X) dir = Some di" using assms(5,7) by (auto simp: attach_def)
  note inv = inode_update_invisible [OF this, of "di\<lparr>i_nlink := Suc (i_nlink di)\<rparr>"]
  show "vstore_wf (added v mode dir di d e i X)"
    "view (added v mode dir di d e i X) = (view v)(k \<mapsto> (d, i_mode X, i_fop X))"
    "positive (added v mode dir di d e i X) x = (x = d \<or> positive v x)"
    using inv attach_wf [OF assms(1,3,6)] view_attach [OF assms(1-6)] positive_attach [OF assms(6)]
    by (simp_all add: added_def)
qed

lemma added_fields:
  assumes "inodes v i = None" and "inodes v dir = Some di"
  shows "inodes (added v mode dir di d e i X) i = Some X"
    and "dentries (added v mode dir di d e i X) d = Some (e\<lparr>d_inode := i, d_count := Suc (d_count e)\<rparr>)"
    and "(added v mode dir di d e i X)\<lparr>inodes := (inodes (added v mode dir di d e i X))(i \<mapsto> X')\<rparr> =
       added v mode dir di d e i X'"
    and "supers (added v mode dir di d e i X) = supers v" "mounts (added v mode dir di d e i X) = mounts v"
proof -
  have "dir \<noteq> i" using assms by auto
  then show "inodes (added v mode dir di d e i X) i = Some X"
    "(added v mode dir di d e i X)\<lparr>inodes := (inodes (added v mode dir di d e i X))(i \<mapsto> X')\<rparr> =
       added v mode dir di d e i X'"
    by (simp_all add: added_def attach_def fun_upd_twist)
  show "dentries (added v mode dir di d e i X) d = Some (e\<lparr>d_inode := i, d_count := Suc (d_count e)\<rparr>)"
    "supers (added v mode dir di d e i X) = supers v" "mounts (added v mode dir di d e i X) = mounts v"
    by (simp_all add: added_def attach_def)
qed

lemma mode_absorbs:
  "mode AND S_IFMT = S_IFDIR \<Longrightarrow> mode OR S_IFDIR = mode" "mode AND S_IFMT = S_IFREG \<Longrightarrow> mode OR S_IFREG = mode"
proof -
  have "mode OR (mode AND S_IFMT) = mode" by (rule bit_eqI) (auto simp: bit_simps)
  then show "mode AND S_IFMT = S_IFDIR \<Longrightarrow> mode OR S_IFDIR = mode" "mode AND S_IFMT = S_IFREG \<Longrightarrow> mode OR S_IFREG = mode"
    by simp_all
qed

lemma added_grows:
  assumes "inodes v i = None" and "inodes v dir = Some di" and "dentries v d = Some e" and "d_inode e = NULL" and "N X"
  shows "grows N p v (added v mode dir di d e i X)"
proof (rule growsI)
  fix q j assume "inodes v q = Some j"
  moreover have "\<exists>n \<ge> i_nlink di. di\<lparr>i_nlink := Suc (i_nlink di)\<rparr> = di\<lparr>i_nlink := n\<rparr>"
    by (rule exI [of _ "Suc (i_nlink di)"]) simp
  ultimately show "\<exists>n \<ge> i_nlink j. inodes (added v mode dir di d e i X) q = Some (j\<lparr>i_nlink := n\<rparr>)"
    using assms(1,2) same_links [of j] by (auto simp: added_def attach_def)
qed (use assms in \<open>auto simp: added_def attach_def split: if_splits\<close>)

text \<open>The call under the parent's lock.\<close>

definition make_entry :: "vfs \<Rightarrow> myfs_st \<Rightarrow> ptr \<Rightarrow> ptr \<Rightarrow> u32 \<Rightarrow> kfault + int \<times> myfs_st" where
  "make_entry V s dir d mode =
     (if mode AND S_IFMT = S_IFDIR then myfs_mkdir V s dir d mode else myfs_creat V s dir d mode)"

lemma make_entry_eq:
  assumes "file_or_dir mode"
  shows "make_entry V s dir d mode =
     and_then (myfs_mknod V s dir d mode 0) (\<lambda>(res, s1).
       Inr (res, if res = 0 \<and> mode AND S_IFMT = S_IFDIR then s1\<lparr>st := inc_nlink V (st s1) dir\<rparr> else s1))"
  using assms mode_absorbs [of mode]
  by (cases "mode AND S_IFMT = S_IFDIR"; cases "myfs_mknod V s dir d mode 0")
    (auto simp: make_entry_def myfs_mkdir_def myfs_creat_def file_or_dir_def)

lemma make_entry_new:
  assumes laws: "vfs_laws V" and d: "dentries (st s) d = Some e" "d_inode e = NULL" and di: "inodes (st s) dir = Some di"
    and new: "fst (new_inode V (st s) (i_sb di)) = i" "i \<noteq> NULL" and mode: "file_or_dir mode"
  shows "\<exists>X l. make_entry V s dir d mode = Inr (0, s\<lparr>klog := klog s @ l, st := added (st s) mode dir di d e i X\<rparr>)
     \<and> inodes (st s) i = None \<and> made V (ucast mode, default_fop mode) X \<and> calls l = []"
proof -
  obtain X l where X: "myfs_mknod V s dir d mode 0 = Inr (0, s\<lparr>klog := klog s @ l, st := attach (st s) d e i X\<rparr>)"
    "inodes (st s) i = None" "made V (ucast mode, default_fop mode) X" "calls l = []"
    using myfs_mknod_new [OF laws d di new mode, of 0] by blast
  have "inodes (attach (st s) d e i X) dir = Some di" using X(2) di by (auto simp: attach_def)
  then have "make_entry V s dir d mode = Inr (0, s\<lparr>klog := klog s @ l, st := added (st s) mode dir di d e i X\<rparr>)"
    using X(1) vfs_lawsD(3) [OF laws] by (simp add: make_entry_eq [OF mode] added_def)
  then show ?thesis using X(2-) by blast
qed

text \<open>
  Creating an entry in an existing directory, whatever the kernel answers: the result is \<open>NULL\<close> and
  the tree is as before, or the new dentry and the tree has exactly one more node. It never faults,
  and locks and unlocks the directory once.
\<close>

definition creates :: "vfs \<Rightarrow> myfs_st \<Rightarrow> ptr \<times> string \<Rightarrow> node \<Rightarrow> ptr \<Rightarrow> myfs_st \<Rightarrow> bool" where
  "creates V s k x d s' \<longleftrightarrow>
     vstore_wf (st s') \<and> supers (st s') = supers (st s) \<and> mounts (st s') = mounts (st s)
   \<and> myfs_mount s' = myfs_mount s
   \<and> (\<exists>i. calls (klog s') = calls (klog s) @ [Inode_lock i, Inode_unlock i])
   \<and> grows (made V x) (fst k) (st s) (st s')
   \<and> (\<forall>n. room (st s) (Suc n) \<longrightarrow> room (st s') n)
   \<and> (if d = NULL
      then view (st s') = view (st s) \<and> positive (st s') = positive (st s)
         \<and> (view (st s) k \<noteq> None \<or> \<not> vfs_grants V \<or> \<not> room (st s) 1)
      else view (st s) k = None \<and> \<not> positive (st s) d
         \<and> view (st s') = (view (st s))(k \<mapsto> (d, x))
         \<and> positive (st s') = (\<lambda>y. y = d \<or> positive (st s) y))"

text \<open>The part of \<open>myfs_creat_by_name\<close> once the parent is known.\<close>

lemma creat_by_name_eq:
  assumes "default_parent s parent = Inr p" and "p \<noteq> NULL"
    and "dentries (st s) p = Some pd" and "d_inode pd \<noteq> NULL"
    and "lookup_one_len V (st s) name p = (r, v)"
  shows "myfs_creat_by_name V s name mode parent =
     and_then (case r of
          Inl err \<Rightarrow> Inr (err, s\<lparr>klog := klog s @ [Inode_lock (d_inode pd)], st := v\<rparr>)
        | Inr d \<Rightarrow> make_entry V (s\<lparr>klog := klog s @ [Inode_lock (d_inode pd)], st := v\<rparr>) (d_inode pd) d mode)
       (\<lambda>(error, s3). Inr (error, r, s3\<lparr>klog := klog s3 @ [Inode_unlock (d_inode pd)]\<rparr>))"
  using assms by (cases r) (simp_all add: myfs_creat_by_name_def make_entry_def Let_def)

lemma default_parent_cong:
  assumes "mounts (st s1) = mounts (st s)" and "supers (st s1) = supers (st s)" and "myfs_mount s1 = myfs_mount s"
  shows "default_parent s1 p = default_parent s p"
  unfolding default_parent_def assms by (rule refl)

lemma myfs_creat_file_spec:
  assumes laws: "vfs_laws V" and wf: "vstore_wf (st s)"
    and par: "default_parent s parent = Inr p" "p \<noteq> NULL" "positive (st s) p" and mode: "file_or_dir mode"
  shows "\<exists>d s'. myfs_creat_file V s name mode parent NULL fops = Inr (d, s')
     \<and> creates V s (p, name) (ucast mode, if fops = None then default_fop mode else fops) d s'"
proof -
  define s1 where "s1 = say creating_msg [KStr name] s"
  have "default_parent s1 parent = default_parent s parent"
    by (rule default_parent_cong) (simp_all add: s1_def say_def)
  then have s1: "st s1 = st s" "myfs_mount s1 = myfs_mount s" "default_parent s1 parent = Inr p"
    "calls (klog s1) = calls (klog s)" using par(1) by (simp_all add: s1_def say_def)
  obtain pd where pd: "dentries (st s) p = Some pd" "d_inode pd \<noteq> NULL"
    using par(3) by (auto simp: positive_def split: option.splits)
  obtain r v where look: "lookup_one_len V (st s) name p = (r, v)" by fastforce
  let ?s2 = "s1\<lparr>klog := klog s1 @ [Inode_lock (d_inode pd)], st := v\<rparr>"
  note run = creat_by_name_eq [of s1 parent p pd V name r v mode, unfolded s1(1), OF s1(3) par(2) pd look]
  note creat = myfs_creat_file_def s1_def [symmetric] run apply_file_ops_def
  show ?thesis
  proof (cases r)
    case (Inl err)
    then have "err \<noteq> 0" "v = st s" using vfs_lawsD(6) [OF laws] look by auto
    moreover have "\<not> vfs_grants V \<or> \<not> room (st s) 1"
    proof (rule ccontr)
      assume "\<not> ?thesis"
      then have "vfs_grants V" "card (dom (dentries (st s))) < 256" by (auto simp: room_def)
      then obtain d where "fst (lookup_one_len V (st s) name p) = Inr d" using wf unfolding vfs_grants_def by blast
      then show False using look Inl by simp
    qed
    ultimately show ?thesis using Inl wf s1 by (auto simp: creat creates_def room_def grows_refl)
  next
    case (Inr d)
    note k = lookup_keeps [OF laws wf par(3), of name d v] look [unfolded Inr]
    then have v: "vstore_wf v" "view v = view (st s)" "positive v = positive (st s)" "children v (p, name) = Some d"
        "inodes v = inodes (st s)" "supers v = supers (st s)" "mounts v = mounts (st s)" "d \<noteq> NULL"
        "dom (dentries v) = insert d (dom (dentries (st s)))"
        "\<forall>d e. dentries (st s) d = Some e \<longrightarrow> (\<exists>e'. dentries v d = Some e' \<and> d_inode e' = d_inode e)"
        "\<forall>q n. children (st s) (q, n) = None \<longrightarrow> children v (q, n) \<noteq> None \<longrightarrow> q = p" by auto
    note grown = grows_after_lookup [OF v(5,10,11)]
    obtain e where e: "dentries v d = Some e" using k by auto
    obtain di where di: "inodes v (d_inode pd) = Some di" using vstore_wfD(4) [OF wf pd] v(5) by auto
    show ?thesis
    proof (cases "d_inode e = NULL \<and> fst (new_inode V v (i_sb di)) \<noteq> NULL")
      case False
      have room: "room (st s) (Suc n) \<longrightarrow> room v n" for n using room_insert [OF v(9), of NULL n] v(5) by auto
      have "view v (p, name) \<noteq> None \<or> \<not> vfs_grants V \<or> \<not> room (st s) 1"
      proof (cases "d_inode e = NULL")
        case True then show ?thesis using False v(5) unfolding vfs_grants_def room_def by auto
      next
        case False then show ?thesis using vstore_wfD(4) [OF v(1) e False] v(4) e by (auto simp: view_def)
      qed
      moreover have "make_entry V ?s2 (d_inode pd) d mode = Inr (- EPERM, ?s2)"
        using False myfs_mknod_exists [of ?s2 d e V "d_inode pd" mode 0] e
          myfs_mknod_no_memory [OF laws, of ?s2 d e "d_inode pd" di mode 0] di
        by (cases "d_inode e = NULL") (simp_all add: make_entry_eq [OF mode] errno_defs)
      ultimately show ?thesis using Inr v(1-9) s1 room grown [OF grows_refl] by (auto simp: creat creates_def errno_defs)
    next
      case True
      define i where "i = fst (new_inode V v (i_sb di))"
      obtain X l where X: "make_entry V ?s2 (d_inode pd) d mode =
            Inr (0, ?s2\<lparr>klog := klog ?s2 @ l, st := added v mode (d_inode pd) di d e i X\<rparr>)"
          "inodes v i = None" "made V (ucast mode, default_fop mode) X" "calls l = []"
        using make_entry_new [OF laws, of ?s2 d e "d_inode pd" di i mode] e di True mode i_def by auto
      let ?X = "if fops = None then X else X\<lparr>i_fop := fops\<rparr>"
      let ?v = "added v mode (d_inode pd) di d e i"
      have i0: "i \<noteq> NULL" using True i_def by simp
      note f = added_fields [OF X(2) di, of mode d e]
      note t = added_tree [OF v(1) v(4) e _ X(2) i0 di, of mode ?X]
      have N: "made V (ucast mode, if fops = None then default_fop mode else fops) ?X"
        using X(3) by (simp add: made_def)
      have g: "grows (made V (ucast mode, if fops = None then default_fop mode else fops)) p (st s) (?v ?X)"
        by (rule grown, rule added_grows [OF X(2) di e]) (use True N in simp_all)
      have "myfs_creat_file V s name mode parent NULL fops =
          Inr (d, ?s2\<lparr>klog := klog ?s2 @ l @ [Inode_unlock (d_inode pd)], st := ?v ?X\<rparr>)"
        using X(1) f i0 Inr by (simp add: creat upd_inode_def)
      moreover have "view v (p, name) = None" "\<not> positive v d"
        using v(4) e True by (simp_all add: view_def positive_def)
      moreover have "view (?v ?X) = (view (st s))((p, name) \<mapsto> (d, ucast mode, if fops = None then default_fop mode else fops))"
        using t(2) True X(3) v(2) by (simp add: made_def)
      moreover have "room (st s) (Suc n) \<longrightarrow> room (?v ?X) n" for n
      proof
        have "dom (dentries (?v ?X)) = insert d (dom (dentries (st s)))" using v(9) by (auto simp: added_def attach_def)
        moreover have "dom (inodes (?v ?X)) \<subseteq> insert i (dom (inodes (st s)))"
          using v(5) di by (auto simp: added_def attach_def)
        moreover assume "room (st s) (Suc n)"
        ultimately show "room (?v ?X) n" by (rule room_insert)
      qed
      ultimately show ?thesis using t(1,3) True v(1-9) s1 f X(4) g
        by (auto simp: creates_def fun_eq_iff)
    qed
  qed
qed

subsection \<open>Lemmas: mounting and populating\<close>

lemma view_no_children:
  assumes "vstore_wf v" and "\<not> positive v d"
  shows "view v (d, n) = None"
  using vstore_wfD(1) [OF assms(1), of d n] assms(2) by (cases "children v (d, n)") (auto simp: view_def)

lemma myfs_mount_root:
  assumes laws: "mount_laws V" and wf: "vstore_wf v" and none: "supers v = Map.empty"
    and mnt: "kern_mount V v (myfs_get_sb V) = (Inr m, v')"
  shows "\<exists>root mnt b. root \<noteq> NULL \<and> positive v' root \<and> \<not> positive v root \<and> view v' = view v \<and> vstore_wf v'
     \<and> m \<noteq> NULL \<and> mounts v' m = Some mnt \<and> mnt_sb mnt \<noteq> NULL \<and> supers v' (mnt_sb mnt) = Some b \<and> s_root b = root
     \<and> (\<forall>n. room v (Suc n) \<longrightarrow> room v' n)
     \<and> grows root_inode root v v' \<and> (\<exists>e X. dentries v' root = Some e \<and> inodes v' (d_inode e) = Some X \<and> root_inode X)"
proof -
  obtain root v1 sb b where g: "m \<noteq> NULL" "myfs_get_sb V v = (Inr root, v1)" "sb \<noteq> NULL" "supers v1 sb = Some b"
      "s_root b = root" "v' = v1\<lparr>mounts := (mounts v1)(m \<mapsto> \<lparr>mnt_sb = sb\<rparr>)\<rparr>"
    using laws mnt unfolding mount_laws_def by blast
  obtain sb' b' where f: "myfs_fill_super V (v\<lparr>supers := [sb' \<mapsto> \<lparr>s_root = NULL, s_magic = 0\<rparr>]\<rparr>) sb' = (0, v1)"
      "supers v1 sb' = Some b'" "s_root b' = root"
    using laws none g(2) unfolding mount_laws_def myfs_get_sb_def by blast
  obtain root' i X where r: "root' \<noteq> NULL" "i \<noteq> NULL" "dentries v root' = None" "inodes v i = None" "root_inode X"
      "v1 = v\<lparr>inodes := (inodes v)(i \<mapsto> X), dentries := (dentries v)(root' \<mapsto> \<lparr>d_inode = i, d_count = 1\<rparr>),
              supers := [sb' \<mapsto> \<lparr>s_root = root', s_magic = MYFS_MAGIC\<rparr>]\<rparr>"
  proof -
    let ?w = "v\<lparr>supers := [sb' \<mapsto> \<lparr>s_root = NULL, s_magic = 0\<rparr>]\<rparr>"
    obtain root' i X where "root' \<noteq> NULL" "i \<noteq> NULL" "dentries ?w root' = None" "inodes ?w i = None" "root_inode X"
        "v1 = ?w\<lparr>inodes := (inodes ?w)(i \<mapsto> X), dentries := (dentries ?w)(root' \<mapsto> \<lparr>d_inode = i, d_count = 1\<rparr>),
                supers := (supers ?w)(sb' \<mapsto> \<lparr>s_root = root', s_magic = MYFS_MAGIC\<rparr>)\<rparr>"
      using laws f(1) unfolding mount_laws_def myfs_fill_super_def by meson
    then show thesis using that by simp
  qed
  have rr: "root' = root" using r(6) f(2,3) by auto
  have notpos: "\<not> positive v root" using r(3) rr by (simp add: positive_def)
  have "\<not> positive v d \<Longrightarrow> children v (d, n) = None" for d n
    using vstore_wfD(1) [OF wf, of d n] by (cases "children v (d, n)") auto
  have old: "d \<noteq> root" if "children v k = Some d" for k d
    using vstore_wfD(2) [OF wf, of "fst k" "snd k" d] that r(3) rr by auto
  have pos: "positive v' = (\<lambda>x. x = root \<or> positive v x)"
    using g(6) r(2,6) rr by (auto simp: fun_eq_iff positive_def)
  have view: "view v' = view v"
  proof
    fix k
    show "view v' k = view v k"
    proof (cases "children v k")
      case None then show ?thesis using g(6) r(6) by (simp add: view_def)
    next
      case (Some d)
      moreover have "d_inode e \<noteq> i" if "dentries v d = Some e" "d_inode e \<noteq> NULL" for e
        using vstore_wfD(4) [OF wf that] r(4) by auto
      ultimately show ?thesis using g(6) r(6) rr old [OF Some] by (auto simp: view_def split: option.splits)
    qed
  qed
  have wf': "vstore_wf v'"
    using wf g(6) r(1,2,6) rr unfolding vstore_wf_def pos by auto
  have "room v' n" if "room v (Suc n)" for n
    by (rule room_insert [OF _ _ that, of _ root i]) (use g(6) r(6) rr in auto)
  moreover have "grows root_inode root v v'"
    by (rule growsI) (use g(6) r rr same_links in \<open>auto split: if_splits\<close>)
  moreover have "\<exists>e X. dentries v' root = Some e \<and> inodes v' (d_inode e) = Some X \<and> root_inode X"
    using g(6) r rr by simp
  ultimately show ?thesis using g r(1) rr notpos pos view wf' by (intro exI [of _ root]) auto
qed

lemma myfs_creat_file_granted:
  assumes "vfs_laws V" and "vfs_grants V" and "vstore_wf (st s)" and "default_parent s parent = Inr p"
    and "p \<noteq> NULL" and "positive (st s) p" and "file_or_dir mode" and "view (st s) (p, name) = None" and "room (st s) (Suc n)"
  obtains d s' where "myfs_creat_file V s name mode parent NULL fops = Inr (d, s')" and "d \<noteq> NULL"
    and "vstore_wf (st s')" and "\<not> positive (st s) d" and "positive (st s') = (\<lambda>y. y = d \<or> positive (st s) y)"
    and "view (st s') = (view (st s))((p, name) \<mapsto> (d, ucast mode, if fops = None then default_fop mode else fops))"
    and "\<forall>q. default_parent s' q = default_parent s q" and "room (st s') n"
proof -
  obtain d s' where c: "myfs_creat_file V s name mode parent NULL fops = Inr (d, s')"
      "creates V s (p, name) (ucast mode, if fops = None then default_fop mode else fops) d s'"
    using myfs_creat_file_spec [OF assms(1,3-7)] by blast
  have "room (st s) 1" using assms(9) by (simp add: room_def)
  then have "d \<noteq> NULL" using c(2) assms(2,8) by (auto simp: creates_def)
  moreover have "default_parent s' q = default_parent s q" for q
    by (rule default_parent_cong) (use c(2) in \<open>simp_all add: creates_def\<close>)
  ultimately show thesis using that c assms(9) unfolding creates_def by auto
qed

text \<open>What the module means to build: two directories with two files each.\<close>

definition myfs_layout :: "u16 \<Rightarrow> u16 \<Rightarrow> (string list \<times> node) list" where
  "myfs_layout one two =
     [([''First''], (0x41E4, Some ''simple_dir_operations'')),
      ([''First'', ''one''], (one, Some ''myfs_file_operations'')),
      ([''First'', ''two''], (two, Some ''myfs_file_operations'')),
      ([''Second''], (0x41E4, Some ''simple_dir_operations'')),
      ([''Second'', ''one''], (0x81A4, Some ''myfs_file_operations'')),
      ([''Second'', ''two''], (0x81A4, Some ''myfs_file_operations''))]"

text \<open>A tree given by its entries: two directories under the root, two files in each, nothing below the files.\<close>

lemma stat_two_dirs:
  assumes root: "\<And>n. view v (root, n) =
      (if n = ''First'' then Some (d1, x1) else if n = ''Second'' then Some (d2, x2) else None)"
    and sub1: "\<And>n. view v (d1, n) = (if n = ''one'' then Some (f1, y1) else if n = ''two'' then Some (f2, y2) else None)"
    and sub2: "\<And>n. view v (d2, n) = (if n = ''one'' then Some (g1, z1) else if n = ''two'' then Some (g2, z2) else None)"
    and leaf: "\<And>n. view v (f1, n) = None" "\<And>n. view v (f2, n) = None" "\<And>n. view v (g1, n) = None" "\<And>n. view v (g2, n) = None"
  shows "stat v root path = map_of [([''First''], x1), ([''First'', ''one''], y1), ([''First'', ''two''], y2),
     ([''Second''], x2), ([''Second'', ''one''], z1), ([''Second'', ''two''], z2)] path"
proof (cases path)
  case (Cons a rest)
  show ?thesis
  proof (cases rest)
    case Nil
    then show ?thesis using Cons by (simp add: root)
  next
    case (Cons b rest')
    then show ?thesis using \<open>path = a # rest\<close>
      by (cases rest') (simp_all add: root sub1 sub2 leaf)
  qed
qed simp

lemma myfs_modes:
  "file_or_dir (S_IFDIR OR S_IRWXU OR S_IRUGO)" "file_or_dir (S_IFREG OR S_IRUGO OR S_IWUSR)"
  "file_or_dir (S_IFREG OR S_IRUGO)" "file_or_dir (S_IFREG OR S_IRUGO OR S_IWUGO)"
  "default_fop (S_IFDIR OR S_IRWXU OR S_IRUGO) = Some ''simple_dir_operations''"
  "ucast (S_IFDIR OR S_IRWXU OR S_IRUGO) = (0x41E4 :: u16)" "ucast (S_IFREG OR S_IRUGO OR S_IWUSR) = (0x81A4 :: u16)"
  "ucast (S_IFREG OR S_IRUGO) = (0x8124 :: u16)" "ucast (S_IFREG OR S_IRUGO OR S_IWUGO) = (0x81B6 :: u16)"
  by (simp_all add: file_or_dir_def default_fop_def mode_defs)

lemma default_parent_given: "p \<noteq> NULL \<Longrightarrow> default_parent s p = Inr p"
  by (simp add: default_parent_def)

text \<open>One directory with its two files, made in a store with enough room.\<close>

lemma populate_dir:
  assumes laws: "vfs_laws V" "vfs_grants V" and wf: "vstore_wf (st s)"
    and root: "default_parent s NULL = Inr root" "root \<noteq> NULL" "positive (st s) root"
    and free: "view (st s) (root, name) = None" and room: "room (st s) (Suc (Suc (Suc n)))"
    and modes: "file_or_dir one" "file_or_dir two"
  obtains d s1 f s2 g s3
  where "myfs_creat_dir V s name NULL = Inr (d, s1)"
    and "myfs_creat_file V s1 ''one'' one d NULL (Some ''myfs_file_operations'') = Inr (f, s2)"
    and "myfs_creat_file V s2 ''two'' two d NULL (Some ''myfs_file_operations'') = Inr (g, s3)"
    and "vstore_wf (st s3)" and "default_parent s3 NULL = Inr root" and "room (st s3) n"
    and "distinct [d, f, g]" and "\<forall>x \<in> {d, f, g}. \<not> positive (st s) x"
    and "positive (st s3) = (\<lambda>y. y \<in> {d, f, g} \<or> positive (st s) y)"
    and "view (st s3) = (view (st s))((root, name) \<mapsto> (d, 0x41E4, Some ''simple_dir_operations''),
       (d, ''one'') \<mapsto> (f, ucast one, Some ''myfs_file_operations''),
       (d, ''two'') \<mapsto> (g, ucast two, Some ''myfs_file_operations''))"
proof -
  note creat = myfs_creat_file_granted [OF laws]
  let ?dir = "S_IFDIR OR S_IRWXU OR S_IRUGO"
  obtain d s1 where c1: "myfs_creat_file V s name ?dir NULL NULL None = Inr (d, s1)" "d \<noteq> NULL" "vstore_wf (st s1)"
      "\<not> positive (st s) d" "positive (st s1) = (\<lambda>y. y = d \<or> positive (st s) y)"
      "view (st s1) = (view (st s))((root, name) \<mapsto> (d, ucast ?dir, if (None :: string option) = None then default_fop ?dir else None))"
      "\<forall>q. default_parent s1 q = default_parent s q" "room (st s1) (Suc (Suc n))"
    by (rule creat [OF wf root myfs_modes(1) free room, where fops = None])
  have dr: "d \<noteq> root" using c1(4) root(3) by auto
  have v: "view (st s1) (d, m) = None" for m
    using view_no_children [OF wf c1(4)] dr by (simp add: c1(6))
  have p: "positive (st s1) d" by (simp add: c1(5))
  obtain f s2 where c2: "myfs_creat_file V s1 ''one'' one d NULL (Some ''myfs_file_operations'') = Inr (f, s2)" "f \<noteq> NULL"
      "vstore_wf (st s2)" "\<not> positive (st s1) f" "positive (st s2) = (\<lambda>y. y = f \<or> positive (st s1) y)"
      "view (st s2) = (view (st s1))((d, ''one'') \<mapsto> (f, ucast one, if Some ''myfs_file_operations'' = None then default_fop one else Some ''myfs_file_operations''))"
      "\<forall>q. default_parent s2 q = default_parent s1 q" "room (st s2) (Suc n)"
    by (rule creat [OF c1(3) default_parent_given [OF c1(2)] c1(2) p modes(1) v c1(8)])
  have v2: "view (st s2) (d, ''two'') = None" using v by (simp add: c2(6))
  have p2: "positive (st s2) d" using p by (simp add: c2(5))
  obtain g s3 where c3: "myfs_creat_file V s2 ''two'' two d NULL (Some ''myfs_file_operations'') = Inr (g, s3)" "g \<noteq> NULL"
      "vstore_wf (st s3)" "\<not> positive (st s2) g" "positive (st s3) = (\<lambda>y. y = g \<or> positive (st s2) y)"
      "view (st s3) = (view (st s2))((d, ''two'') \<mapsto> (g, ucast two, if Some ''myfs_file_operations'' = None then default_fop two else Some ''myfs_file_operations''))"
      "\<forall>q. default_parent s3 q = default_parent s2 q" "room (st s3) n"
    by (rule creat [OF c2(3) default_parent_given [OF c1(2)] c1(2) p2 modes(2) v2 c2(8)])
  show thesis
  proof (rule that [OF c1(1) [folded myfs_creat_dir_def] c2(1) c3(1) c3(3) _ c3(8)])
    show "default_parent s3 NULL = Inr root" using root(1) by (simp add: c1(7) c2(7) c3(7))
    show "distinct [d, f, g]" using c2(4) c3(4) by (auto simp: c1(5) c2(5))
    show "\<forall>x \<in> {d, f, g}. \<not> positive (st s) x"
      using c1(4) c2(4) c3(4) by (auto simp: c1(5) c2(5))
    show "positive (st s3) = (\<lambda>y. y \<in> {d, f, g} \<or> positive (st s) y)" by (auto simp: c1(5) c2(5) c3(5))
    show "view (st s3) = (view (st s))((root, name) \<mapsto> (d, 0x41E4, Some ''simple_dir_operations''),
       (d, ''one'') \<mapsto> (f, ucast one, Some ''myfs_file_operations''),
       (d, ''two'') \<mapsto> (g, ucast two, Some ''myfs_file_operations''))"
      by (simp add: c1(6) c2(6) c3(6) myfs_modes)
  qed
qed

lemma myfs_populate_tree:
  assumes laws: "vfs_laws V" "vfs_grants V" and wf: "vstore_wf (st s)"
    and root: "default_parent s NULL = Inr root" "root \<noteq> NULL" "positive (st s) root"
    and empty: "\<And>n. view (st s) (root, n) = None" and room: "room (st s) 6"
    and modes: "file_or_dir one" "file_or_dir two"
  shows "\<exists>s'. myfs_populate V one two s = Inr s' \<and> vstore_wf (st s') \<and> default_parent s' NULL = Inr root
     \<and> (\<forall>path. stat (st s') root path = map_of (myfs_layout (ucast one) (ucast two)) path)"
proof -
  have r: "room (st s) (Suc (Suc (Suc 3)))" using room by simp
  obtain d s1 f s2 g s3
    where a: "myfs_creat_dir V s ''First'' NULL = Inr (d, s1)"
        "myfs_creat_file V s1 ''one'' one d NULL (Some ''myfs_file_operations'') = Inr (f, s2)"
        "myfs_creat_file V s2 ''two'' two d NULL (Some ''myfs_file_operations'') = Inr (g, s3)"
      and s3: "vstore_wf (st s3)" "default_parent s3 NULL = Inr root" "room (st s3) 3"
      and new: "distinct [d, f, g]" "\<forall>x \<in> {d, f, g}. \<not> positive (st s) x"
        "positive (st s3) = (\<lambda>y. y \<in> {d, f, g} \<or> positive (st s) y)"
      and v3: "view (st s3) = (view (st s))((root, ''First'') \<mapsto> (d, 0x41E4, Some ''simple_dir_operations''),
         (d, ''one'') \<mapsto> (f, ucast one, Some ''myfs_file_operations''),
         (d, ''two'') \<mapsto> (g, ucast two, Some ''myfs_file_operations''))"
    by (rule populate_dir [OF laws wf root empty [of "''First''"] r modes])
  have ne: "root \<notin> {d, f, g}" using new(2) root(3) by blast
  have v: "view (st s3) (root, ''Second'') = None" using empty ne by (simp add: v3)
  have p: "positive (st s3) root" using root(3) by (simp add: new(3))
  have r: "room (st s3) (Suc (Suc (Suc 0)))" using s3(3) by (simp add: numeral_3_eq_3)
  obtain d' s4 f' s5 g' s6
    where b: "myfs_creat_dir V s3 ''Second'' NULL = Inr (d', s4)"
        "myfs_creat_file V s4 ''one'' (S_IFREG OR S_IRUGO OR S_IWUSR) d' NULL (Some ''myfs_file_operations'') = Inr (f', s5)"
        "myfs_creat_file V s5 ''two'' (S_IFREG OR S_IRUGO OR S_IWUSR) d' NULL (Some ''myfs_file_operations'') = Inr (g', s6)"
      and s6: "vstore_wf (st s6)" "default_parent s6 NULL = Inr root" "room (st s6) 0"
      and new': "distinct [d', f', g']" "\<forall>x \<in> {d', f', g'}. \<not> positive (st s3) x"
        "positive (st s6) = (\<lambda>y. y \<in> {d', f', g'} \<or> positive (st s3) y)"
      and v6: "view (st s6) = (view (st s3))((root, ''Second'') \<mapsto> (d', 0x41E4, Some ''simple_dir_operations''),
         (d', ''one'') \<mapsto> (f', ucast (S_IFREG OR S_IRUGO OR S_IWUSR), Some ''myfs_file_operations''),
         (d', ''two'') \<mapsto> (g', ucast (S_IFREG OR S_IRUGO OR S_IWUSR), Some ''myfs_file_operations''))"
    by (rule populate_dir [OF laws s3(1,2) root(2) p v r myfs_modes(2,2)])
  have ne': "x \<notin> {root, d, f, g}" if "x \<in> {d', f', g'}" for x using bspec [OF new'(2) that] root(3) by (auto simp: new(3))
  then have ne2: "d' \<notin> {root, d, f, g}" "f' \<notin> {root, d, f, g}" "g' \<notin> {root, d, f, g}" by blast+
  have bare: "view (st s) (x, n) = None" if "x \<in> {root, d, f, g, d', f', g'}" for x n
    using that empty view_no_children [OF wf] new(2) new'(2) by (auto simp: new(3))
  have "stat (st s6) root path = map_of (myfs_layout (ucast one) (ucast two)) path" for path
    unfolding myfs_layout_def
    by (rule stat_two_dirs [of _ _ d _ d' _ f _ g _ f' _ g'])
      (use ne ne2 new(1) new'(1) bare in \<open>auto simp: v6 v3 myfs_modes\<close>)
  moreover have "myfs_populate V one two s = Inr s6" using a b by (simp add: myfs_populate_def)
  ultimately show ?thesis using s6 by blast
qed

subsection \<open>Lemmas: loading and unloading\<close>

definition myfs_owned :: "myfs_st \<Rightarrow> resource multiset" where
  "myfs_owned s = {#RFilesystem MYFS#} + (case myfs_mount s of Inl _ \<Rightarrow> {#} | Inr m \<Rightarrow> {#RMount m#})"

definition mountable :: "vfs \<Rightarrow> myfs_st \<Rightarrow> bool" where
  "mountable V s = (case fst (kern_mount V (st s) (myfs_get_sb V)) of Inl _ \<Rightarrow> False | Inr _ \<Rightarrow> True)"

text \<open>The two functions as the module loader sees them.\<close>

definition myfs_init_ret :: "u32 \<Rightarrow> u32 \<Rightarrow> vfs \<Rightarrow> kernel \<Rightarrow> (myfs_st, int) state" where
  "myfs_init_ret one two V K = State (\<lambda>s. case myfs_init_with one two V K s of Inl _ \<Rightarrow> (- 1, s) | Inr rs \<Rightarrow> rs)"

definition myfs_exit_ret :: "kernel \<Rightarrow> (myfs_st, unit) state" where
  "myfs_exit_ret K = modify (myfs_exit K)"

lemma and_then_Inr: "and_then r f = Inr y \<longleftrightarrow> (\<exists>x. r = Inr x \<and> f x = Inr y)"
  by (cases r) simp_all

text \<open>Making entries acquires and releases nothing and leaves the mount alone.\<close>

definition sig :: "myfs_st \<Rightarrow> resource multiset \<times> (int + ptr)" where
  "sig s = (held (klog s), myfs_mount s)"

lemma sig_upd [simp]:
  "sig (s\<lparr>st := v\<rparr>) = sig s" "sig (say fmt args s) = sig s"
  "sig (s\<lparr>klog := klog s @ [Inode_lock p]\<rparr>) = sig s" "sig (s\<lparr>klog := klog s @ [Inode_unlock p]\<rparr>) = sig s"
  "sig (s\<lparr>klog := klog s @ [Inode_lock p], st := v\<rparr>) = sig s"
  by (simp_all add: sig_def say_def)

lemma sig_upd_inode: "upd_inode p f s = Inr s' \<Longrightarrow> sig s' = sig s"
  by (auto simp: upd_inode_def and_then_Inr)

lemma sig_get_inode: "myfs_get_inode V s sb mode dev = Inr (p, s') \<Longrightarrow> sig s' = sig s"
  by (auto simp: myfs_get_inode_def Let_def and_then_Inr split: prod.splits if_splits dest!: sig_upd_inode)

lemma sig_mknod: "myfs_mknod V s dir d mode dev = Inr (r, s') \<Longrightarrow> sig s' = sig s"
  by (auto simp: myfs_mknod_def and_then_Inr split: if_splits dest!: sig_get_inode)

lemma sig_make_entry: "make_entry V s dir d mode = Inr (r, s') \<Longrightarrow> sig s' = sig s"
  by (auto simp: make_entry_def myfs_mkdir_def myfs_creat_def and_then_Inr split: if_splits dest!: sig_mknod)

lemma sig_creat_by_name:
  assumes run: "myfs_creat_by_name V s name mode parent = Inr (r, d, s')"
  shows "sig s' = sig s"
proof -
  obtain p where p: "default_parent s parent = Inr p" using run by (auto simp: myfs_creat_by_name_def and_then_Inr)
  show ?thesis
  proof (cases "p = NULL")
    case True
    with run p show ?thesis by (auto simp: myfs_creat_by_name_def)
  next
    case False
    obtain pd where pd: "dentries (st s) p = Some pd"
      using run p False by (cases "dentries (st s) p") (auto simp: myfs_creat_by_name_def deref_def)
    have nz: "d_inode pd \<noteq> NULL" using run p False pd by (auto simp: myfs_creat_by_name_def)
    obtain q v where look: "lookup_one_len V (st s) name p = (q, v)" by fastforce
    show ?thesis using run creat_by_name_eq [OF p False pd nz look]
      by (cases q) (auto simp: and_then_Inr sig_def [of "_\<lparr>st := _, klog := _\<rparr>"] sig_def [of s] dest!: sig_make_entry)
  qed
qed

lemma sig_apply_file_ops: "apply_file_ops dentry data fops s = Inr (d, s') \<Longrightarrow> sig s' = sig s"
  by (auto simp: apply_file_ops_def and_then_Inr split: if_splits dest!: sig_upd_inode)

lemma sig_creat_file: "myfs_creat_file V s name mode parent data fops = Inr (d, s') \<Longrightarrow> sig s' = sig s"
  by (auto simp: myfs_creat_file_def and_then_Inr split: if_splits sum.splits
      dest!: sig_creat_by_name sig_apply_file_ops)

lemma sig_populate: "myfs_populate V one two s = Inr s' \<Longrightarrow> sig s' = sig s"
  unfolding myfs_populate_def myfs_creat_dir_def
  by (auto simp: and_then_Inr dest!: sig_creat_file)

lemma myfs_init_held:
  assumes "myfs_init_with one two V K s = Inr (0, s')" and "mountable V s"
  shows "held (klog s') = held (klog s) + myfs_owned s'"
proof -
  obtain m v where mnt: "kern_mount V (st s) (myfs_get_sb V) = (Inr m, v)"
    using assms(2) by (cases "kern_mount V (st s) (myfs_get_sb V)") (auto simp: mountable_def split: sum.splits)
  have reg: "register_filesystem_ans K (klog s) MYFS = 0"
    using assms(1) by (auto simp: myfs_init_with_def Let_def and_then_Inr split: if_splits)
  let ?s2 = "s\<lparr>klog := klog s @ [Register_filesystem MYFS 0, Kern_mount MYFS (Inr m)], st := v, myfs_mount := Inr m\<rparr>"
  have "myfs_populate V one two ?s2 = Inr s'"
    using assms(1) mnt reg by (simp add: myfs_init_with_def and_then_Inr)
  then have "sig s' = sig ?s2" by (rule sig_populate)
  then show ?thesis by (simp add: sig_def myfs_owned_def)
qed

interpretation myfs: kmodule "myfs_init_ret one two V" myfs_exit_ret myfs_owned "mountable V" "\<lambda>_. True" for one two V
proof
  fix K s s'
  assume "mountable V s" "run_state (myfs_init_ret one two V K) s = (0, s')"
  then have i: "myfs_init_with one two V K s = Inr (0, s')"
    by (simp add: myfs_init_ret_def split: sum.splits)
  then show "held (klog s') = held (klog s) + myfs_owned s'" using \<open>mountable V s\<close> by (rule myfs_init_held)
  fix l s''
  assume "run_state (myfs_exit_ret K) (s'\<lparr>klog := l\<rparr>) = ((), s'')"
  then show "held (klog s'') = held l - myfs_owned s'"
    by (cases "myfs_mount s'") (auto simp: myfs_exit_ret_def kmonad myfs_exit_def myfs_owned_def add_mset_commute)
qed

subsection \<open>A concrete VFS for the witnesses\<close>

text \<open>Objects live at the addresses 1 to 256, the super block and the mount at fixed ones.\<close>

definition free_addr :: "(ptr \<rightharpoonup> 'a) \<Rightarrow> ptr" where
  "free_addr m = (case find (\<lambda>n. m (of_nat n) = None) [1..<257] of None \<Rightarrow> NULL | Some n \<Rightarrow> of_nat n)"

definition simple_vfs :: vfs where
  "simple_vfs = \<lparr>
     new_inode = (\<lambda>v sb. let p = free_addr (inodes v) in
        (p, if p = NULL then v else v\<lparr>inodes := (inodes v)(p \<mapsto> blank_inode sb)\<rparr>)),
     init_special_inode = (\<lambda>v _ _ _. v),
     inc_nlink = (\<lambda>v p. case inodes v p of None \<Rightarrow> v
        | Some i \<Rightarrow> v\<lparr>inodes := (inodes v)(p \<mapsto> i\<lparr>i_nlink := Suc (i_nlink i)\<rparr>)\<rparr>),
     d_instantiate = (\<lambda>v d p. case dentries v d of None \<Rightarrow> v
        | Some e \<Rightarrow> v\<lparr>dentries := (dentries v)(d \<mapsto> e\<lparr>d_inode := p\<rparr>)\<rparr>),
     dget = (\<lambda>v d. case dentries v d of None \<Rightarrow> v
        | Some e \<Rightarrow> v\<lparr>dentries := (dentries v)(d \<mapsto> e\<lparr>d_count := Suc (d_count e)\<rparr>)\<rparr>),
     lookup_one_len = (\<lambda>v name par. case children v (par, name) of
          Some d \<Rightarrow> if d = NULL then (Inl (- 12), v) else (Inr d, case dentries v d of None \<Rightarrow> v
             | Some e \<Rightarrow> v\<lparr>dentries := (dentries v)(d \<mapsto> e\<lparr>d_count := Suc (d_count e)\<rparr>)\<rparr>)
        | None \<Rightarrow> let d = free_addr (dentries v) in
            if d = NULL then (Inl (- 12), v)
            else (Inr d, v\<lparr>dentries := (dentries v)(d \<mapsto> \<lparr>d_inode = NULL, d_count = 1\<rparr>),
                          children := (children v)((par, name) \<mapsto> d)\<rparr>)),
     simple_fill_super = (\<lambda>v sb magic _. let root = free_addr (dentries v); i = free_addr (inodes v) in
        if root = NULL \<or> i = NULL then (- 12, v)
        else (0, v\<lparr>inodes := (inodes v)(i \<mapsto> (blank_inode sb)\<lparr>i_mode := 0x41ED, i_nlink := 2,
                     i_op := Some ''simple_dir_inode_operations'', i_fop := Some ''simple_dir_operations''\<rparr>),
                   dentries := (dentries v)(root \<mapsto> \<lparr>d_inode = i, d_count = 1\<rparr>),
                   supers := (supers v)(sb \<mapsto> \<lparr>s_root = root, s_magic = magic\<rparr>)\<rparr>)),
     mount_single = (\<lambda>v fill. let (r, v') = fill (v\<lparr>supers := [0x90000 \<mapsto> \<lparr>s_root = NULL, s_magic = 0\<rparr>]\<rparr>) 0x90000 in
        if r \<noteq> 0 then (Inl r, v')
        else (case supers v' 0x90000 of None \<Rightarrow> (Inl (- 22), v') | Some b \<Rightarrow> (Inr (s_root b), v'))),
     kern_mount = (\<lambda>v get. let (r, v') = get v in
        (case r of Inl e \<Rightarrow> (Inl e, v')
         | Inr root \<Rightarrow> (case supers v' 0x90000 of
             None \<Rightarrow> (Inl (- 22), v')
           | Some b \<Rightarrow> if s_root b = root then (Inr 0x80000, v'\<lparr>mounts := (mounts v')(0x80000 \<mapsto> \<lparr>mnt_sb = 0x90000\<rparr>)\<rparr>)
                       else (Inl (- 22), v')))),
     current_fsuid = 0, current_fsgid = 0, current_time = (\<lambda>_. 0)\<rparr>"

lemma find_Some_sat: "find P xs = Some x \<Longrightarrow> P x \<and> x \<in> set xs"
  by (induction xs) (auto split: if_splits)

lemma unat_small_addr: "n < 257 \<Longrightarrow> unat (of_nat n :: ptr) = n"
  unfolding unat_of_nat by (rule mod_less) simp

lemma free_addr_free: "free_addr m \<noteq> NULL \<Longrightarrow> m (free_addr m) = None"
  unfolding free_addr_def by (auto split: option.splits dest!: find_Some_sat)

lemma free_addr_grants:
  fixes m :: "ptr \<rightharpoonup> 'a"
  assumes "card (dom m) < 256"
  shows "free_addr m \<noteq> NULL"
proof -
  have inj: "inj_on (of_nat :: nat \<Rightarrow> ptr) {1..<257}"
    by (rule inj_on_inverseI [where g = unat]) (simp add: unat_small_addr)
  have "\<exists>n \<in> {1..<257}. m (of_nat n) = None"
  proof (rule ccontr)
    assume "\<not> ?thesis"
    then have "(of_nat :: nat \<Rightarrow> ptr) ` {1..<257} \<subseteq> dom m" by auto
    then have "card ((of_nat :: nat \<Rightarrow> ptr) ` {1..<257}) \<le> card (dom m)" by (rule card_mono [rotated]) simp
    then show False using assms card_image [OF inj] by simp
  qed
  then obtain n where n: "find (\<lambda>n. m (of_nat n) = None) [1..<257] = Some n" by (fastforce simp: find_None_iff)
  then have "n \<in> {1..<257}" using find_Some_sat by fastforce
  then have "unat (of_nat n :: ptr) \<noteq> 0" using unat_small_addr [of n] by simp
  then have "(of_nat n :: ptr) \<noteq> 0" by (metis unat_0)
  then show ?thesis using n by (simp add: free_addr_def)
qed

lemma simple_vfs_laws: "vfs_laws simple_vfs"
  unfolding vfs_laws_def new_inode_law_def inc_nlink_law_def dentry_laws_def lookup_law_def
  by (auto simp: simple_vfs_def Let_def free_addr_free split: option.splits)

lemma simple_vfs_grants: "vfs_grants simple_vfs"
  unfolding vfs_grants_def
  by (auto simp: simple_vfs_def Let_def free_addr_grants split: option.splits dest: vstore_wf_no_null)

lemma simple_vfs_mounts: "mount_laws simple_vfs"
  unfolding mount_laws_def
proof (intro conjI allI impI)
  fix v get m v'
  assume "kern_mount simple_vfs v get = (Inr m, v')"
  then obtain root v1 b where "get v = (Inr root, v1)" "supers v1 0x90000 = Some b" "s_root b = root" "m = 0x80000"
      "v' = v1\<lparr>mounts := (mounts v1)(0x80000 \<mapsto> \<lparr>mnt_sb = 0x90000\<rparr>)\<rparr>"
    by (auto simp: simple_vfs_def split: option.splits prod.splits sum.splits if_splits)
  then show "m \<noteq> NULL" "\<exists>root v1 sb b. get v = (Inr root, v1) \<and> sb \<noteq> NULL \<and> supers v1 sb = Some b \<and> s_root b = root
      \<and> v' = v1\<lparr>mounts := (mounts v1)(m \<mapsto> \<lparr>mnt_sb = sb\<rparr>)\<rparr>"
    by (auto intro!: exI [of _ "0x90000"])
next
  fix v fill root v'
  assume "mount_single simple_vfs v fill = (Inr root, v')"
  then show "\<exists>sb b. fill (v\<lparr>supers := [sb \<mapsto> \<lparr>s_root = NULL, s_magic = 0\<rparr>]\<rparr>) sb = (0, v')
      \<and> supers v' sb = Some b \<and> s_root b = root"
    by (auto simp: simple_vfs_def split: option.splits prod.splits if_splits)
next
  fix v sb magic v'
  assume "simple_fill_super simple_vfs v sb magic [''''] = (0, v')"
  then show "\<exists>root i X. root \<noteq> NULL \<and> i \<noteq> NULL \<and> dentries v root = None \<and> inodes v i = None \<and> root_inode X
      \<and> v' = v\<lparr>inodes := (inodes v)(i \<mapsto> X), dentries := (dentries v)(root \<mapsto> \<lparr>d_inode = i, d_count = 1\<rparr>),
               supers := (supers v)(sb \<mapsto> \<lparr>s_root = root, s_magic = magic\<rparr>)\<rparr>"
    by (intro exI [of _ "free_addr (dentries v)"] exI [of _ "free_addr (inodes v)"]
        exI [of _ "(blank_inode sb)\<lparr>i_mode := 0x41ED, i_nlink := 2, i_op := Some ''simple_dir_inode_operations'',
          i_fop := Some ''simple_dir_operations''\<rparr>"])
      (auto simp: simple_vfs_def Let_def free_addr_free root_inode_def blank_inode_def split: if_splits)
qed

lemma simple_vfs_mountable: "mountable simple_vfs (myfs_start l empty_vstore)"
proof -
  have "free_addr (Map.empty :: ptr \<rightharpoonup> inode) \<noteq> NULL" "free_addr (Map.empty :: ptr \<rightharpoonup> dentry) \<noteq> NULL"
    by (rule free_addr_grants; simp)+
  then show ?thesis
    by (simp add: mountable_def simple_vfs_def myfs_get_sb_def myfs_fill_super_def myfs_start_def empty_vstore_def Let_def)
qed

lemma empty_vstore_facts: "vstore_wf empty_vstore" "supers empty_vstore = Map.empty" "room empty_vstore 8"
  by (simp_all add: vstore_wf_def empty_vstore_def room_def)

text \<open>Without a mount there is no parent, and nothing is created.\<close>

lemma myfs_creat_file_no_parent:
  assumes "myfs_mount s = Inr NULL"
  obtains s' where "myfs_creat_file V s name mode NULL data fops = Inr (NULL, s')" and "st s' = st s"
    and "myfs_mount s' = Inr NULL" and "calls (klog s') = calls (klog s)"
proof (rule that)
  show "myfs_creat_file V s name mode NULL data fops =
      Inr (NULL, say ''can't find a parent'' [] (say creating_msg [KStr name] s))"
    using assms by (simp add: myfs_creat_file_def myfs_creat_by_name_def default_parent_def say_def errno_defs)
qed (use assms in \<open>simp_all add: say_def\<close>)

lemma myfs_populate_no_parent:
  assumes "myfs_mount s = Inr NULL"
  shows "\<exists>s'. myfs_populate V one two s = Inr s' \<and> st s' = st s \<and> myfs_mount s' = Inr NULL
     \<and> calls (klog s') = calls (klog s)"
proof -
  have dir: "\<exists>s'. and_then (myfs_creat_file V s name mode NULL data fops) (\<lambda>(d, s). F d s) = Inr s' \<and> st s' = st s
      \<and> myfs_mount s' = Inr NULL \<and> calls (klog s') = calls (klog s)"
    if "myfs_mount s = Inr NULL" "\<And>s. myfs_mount s = Inr NULL \<Longrightarrow> \<exists>s'. F NULL s = Inr s' \<and> st s' = st s
      \<and> myfs_mount s' = Inr NULL \<and> calls (klog s') = calls (klog s)" for s name mode data fops F
    using myfs_creat_file_no_parent [OF that(1), of V name mode data fops] that(2)
    by (metis and_then_simps(1) case_prod_conv)
  show ?thesis unfolding myfs_populate_def myfs_creat_dir_def
    by (rule dir [OF assms], rule dir, assumption, rule dir, assumption, rule dir, assumption,
        rule dir, assumption, rule dir, assumption) simp
qed

lemma myfs_init_with_tree:
  assumes "vfs_laws V" and "vfs_grants V" and "mount_laws V" and "mountable V s"
    and "vstore_wf (st s)" and "supers (st s) = Map.empty" and "room (st s) 8"
    and "register_filesystem_ans K (klog s) MYFS = 0" and "file_or_dir m1" and "file_or_dir m2"
  shows "\<exists>s' root. myfs_init_with m1 m2 V K s = Inr (0, s') \<and> default_parent s' NULL = Inr root \<and> vstore_wf (st s')
     \<and> (\<forall>path. stat (st s') root path = map_of (myfs_layout (ucast m1) (ucast m2)) path)"
proof -
  obtain m v where mnt: "kern_mount V (st s) (myfs_get_sb V) = (Inr m, v)"
    using assms(4) by (cases "kern_mount V (st s) (myfs_get_sb V)") (auto simp: mountable_def split: sum.splits)
  let ?s2 = "s\<lparr>klog := klog s @ [Register_filesystem MYFS 0, Kern_mount MYFS (Inr m)], st := v, myfs_mount := Inr m\<rparr>"
  obtain root mt b where r: "root \<noteq> NULL" "positive v root" "\<not> positive (st s) root" "view v = view (st s)" "vstore_wf v"
      "m \<noteq> NULL" "mounts v m = Some mt" "mnt_sb mt \<noteq> NULL" "supers v (mnt_sb mt) = Some b" "s_root b = root"
      "\<forall>n. room (st s) (Suc n) \<longrightarrow> room v n"
    using myfs_mount_root [OF assms(3,5,6) mnt] by blast
  have par: "default_parent ?s2 NULL = Inr root" using r by (simp add: default_parent_def)
  have "view v (root, n) = None" for n using view_no_children [OF assms(5) r(3)] r(4) by simp
  moreover have "room v 6" using r(11) assms(7) by (auto simp: room_def)
  ultimately obtain s' where "myfs_populate V m1 m2 ?s2 = Inr s'" "vstore_wf (st s')" "default_parent s' NULL = Inr root"
      "\<forall>path. stat (st s') root path = map_of (myfs_layout (ucast m1) (ucast m2)) path"
    using myfs_populate_tree [OF assms(1,2) _ par r(1), of m1 m2] r(2,5) assms(9,10) by auto
  then show ?thesis using mnt assms(8) by (simp add: myfs_init_with_def)
qed

subsection \<open>Properties\<close>

text \<open>
  Property C2. Loading either version builds exactly the intended tree: with a kernel that registers
  and mounts the file system and whose VFS behaves as documented and does not run out of memory,
  \<open>myfs_init\<close> returns 0 without a fault, and following any path from the root of the mounted file
  system finds precisely the two directories and their four files, with the types, permissions and
  file operations the module asks for, and nothing else.
\<close>

theorem myfs_init_builds_tree:
  assumes "vfs_laws V" and "vfs_grants V" and "mount_laws V" and "mountable V s"
    and "vstore_wf (st s)" and "supers (st s) = Map.empty" and "room (st s) 8"
    and "register_filesystem_ans K (klog s) MYFS = 0"
    and "(init, one, two) = (myfs_init, 0x81A4, 0x8124) \<or> (init, one, two) = (myfs_init_ubuntu, 0x81B6, 0x81A4)"
  shows "\<exists>s' root. init V K s = Inr (0, s') \<and> default_parent s' NULL = Inr root \<and> vstore_wf (st s')
     \<and> (\<forall>path. stat (st s') root path = map_of (myfs_layout one two) path)"
proof -
  obtain m1 m2 where init: "init = myfs_init_with m1 m2" "ucast m1 = one" "ucast m2 = two" "file_or_dir m1" "file_or_dir m2"
    using assms(9) myfs_modes by (auto simp: myfs_init_def myfs_init_ubuntu_def)
  then show ?thesis using myfs_init_with_tree [OF assms(1-8) init(4,5)] by simp
qed

theorem myfs_init_builds_tree_witness:
  "\<exists>s' root. myfs_init simple_vfs granting_kernel (myfs_start [] empty_vstore) = Inr (0, s')
     \<and> default_parent s' NULL = Inr root
     \<and> stat (st s') root [''First'', ''two''] = Some (0x8124, Some ''myfs_file_operations'')
     \<and> stat (st s') root [''Third''] = None"
proof -
  have "register_filesystem_ans granting_kernel (klog (myfs_start [] empty_vstore)) MYFS = 0"
    by (simp add: granting_kernel_def)
  then obtain s' root where *: "myfs_init simple_vfs granting_kernel (myfs_start [] empty_vstore) = Inr (0, s')"
      "default_parent s' NULL = Inr root"
      "\<forall>path. stat (st s') root path = map_of (myfs_layout 0x81A4 0x8124) path"
    using myfs_init_builds_tree [of simple_vfs "myfs_start [] empty_vstore" granting_kernel myfs_init "0x81A4" "0x8124"]
      simple_vfs_laws simple_vfs_grants simple_vfs_mounts simple_vfs_mountable empty_vstore_facts
    by (auto simp: myfs_start_def)
  moreover have "stat (st s') root [''First'', ''two''] = Some (0x8124, Some ''myfs_file_operations'')"
    "stat (st s') root [''Third''] = None"
    using *(3) by (simp_all add: myfs_layout_def del: stat.simps)
  ultimately show ?thesis by blast
qed

text \<open>
  Property C12. Creating one entry, whatever the VFS answers within its documentation: there is no
  fault, the store stays well formed, the parent's lock is taken and given back once, and either the
  result is \<open>NULL\<close> and the tree is unchanged (the name exists, or memory ran out), or the name was
  free and the tree has exactly the new entry more.
\<close>

theorem myfs_creat_file_extends_tree:
  assumes "vfs_laws V" and "vstore_wf (st s)"
    and "default_parent s parent = Inr p" and "p \<noteq> NULL" and "positive (st s) p" and "file_or_dir mode"
  shows "\<exists>d s' i. myfs_creat_file V s name mode parent NULL fops = Inr (d, s') \<and> vstore_wf (st s')
     \<and> calls (klog s') = calls (klog s) @ [Inode_lock i, Inode_unlock i]
     \<and> (if d = NULL
        then view (st s') = view (st s) \<and> (view (st s) (p, name) \<noteq> None \<or> \<not> vfs_grants V \<or> \<not> room (st s) 1)
        else view (st s) (p, name) = None \<and> view (st s') = (view (st s))((p, name) \<mapsto>
               (d, ucast mode, if fops = None then default_fop mode else fops)))"
proof -
  obtain d s' where run: "myfs_creat_file V s name mode parent NULL fops = Inr (d, s')"
      and c: "creates V s (p, name) (ucast mode, if fops = None then default_fop mode else fops) d s'"
    using myfs_creat_file_spec [OF assms] by blast
  obtain i where "calls (klog s') = calls (klog s) @ [Inode_lock i, Inode_unlock i]" using c unfolding creates_def by blast
  then show ?thesis using run c unfolding creates_def
    by (intro exI [of _ d] exI [of _ s'] exI [of _ i]) (cases "d = NULL", simp_all)
qed

lemma demo_root:
  defines "v \<equiv> empty_vstore\<lparr>inodes := [7 \<mapsto> blank_inode 9], dentries := [8 \<mapsto> \<lparr>d_inode = 7, d_count = 1\<rparr>]\<rparr>"
  shows "vstore_wf v" and "positive v 8" and "view v (8, n) = None" and "room v 1"
  by (auto simp: v_def vstore_wf_def positive_def view_def empty_vstore_def room_def split: if_splits)

theorem myfs_creat_file_extends_tree_witness:
  "\<exists>d s'. myfs_creat_file simple_vfs (myfs_start [] (empty_vstore\<lparr>inodes := [7 \<mapsto> blank_inode 9],
       dentries := [8 \<mapsto> \<lparr>d_inode = 7, d_count = 1\<rparr>]\<rparr>)) ''one'' S_IFREG 8 NULL None = Inr (d, s')
     \<and> view (st s') (8, ''one'') = Some (d, 0x8000, None)"
proof -
  let ?v = "empty_vstore\<lparr>inodes := [7 \<mapsto> blank_inode 9], dentries := [8 \<mapsto> \<lparr>d_inode = 7, d_count = 1\<rparr>]\<rparr>"
  have "st (myfs_start [] ?v) = ?v" by (simp add: myfs_start_def)
  moreover have "file_or_dir S_IFREG" "default_fop S_IFREG = None" "ucast S_IFREG = (0x8000 :: u16)"
    by (simp_all add: file_or_dir_def default_fop_def mode_defs)
  ultimately show ?thesis
    using myfs_creat_file_extends_tree [of simple_vfs "myfs_start [] ?v" 8 8 S_IFREG "''one''" None]
      simple_vfs_laws simple_vfs_grants demo_root default_parent_given [of 8 "myfs_start [] ?v"]
    by (auto split: if_splits)
qed

text \<open>
  Loading and unloading: when the file system could be mounted and \<open>myfs_init\<close> (of
  either version) returns 0, the module holds the registration and the mount, and \<open>myfs_exit\<close> gives
  both back, leaving what other code holds.
\<close>

lemma myfs_load_unload_balanced:
  assumes "mountable V s" and "init = myfs_init \<or> init = myfs_init_ubuntu" and "init V K s = Inr (0, s')"
    and "held l = R + myfs_owned s'"
  shows "held (klog s') = held (klog s) + myfs_owned s' \<and> held (klog (myfs_exit K (s'\<lparr>klog := l\<rparr>))) = R"
proof -
  obtain one two where "myfs_init_with one two V K s = Inr (0, s')"
    using assms(2,3) by (auto simp: myfs_init_def myfs_init_ubuntu_def)
  then have init: "run_state (myfs_init_ret one two V K) s = (0, s')" by (simp add: myfs_init_ret_def)
  have ex: "run_state (myfs_exit_ret K) (s'\<lparr>klog := l\<rparr>) = ((), myfs_exit K (s'\<lparr>klog := l\<rparr>))"
    by (simp add: myfs_exit_ret_def kmonad)
  show ?thesis
    using myfs.init_acquires [OF TrueI assms(1) init] myfs.unload_later [OF TrueI assms(1) init assms(4) ex] by simp
qed



end
