(* ===== verification/Byte_Fifo.thy ===== *)
theory Byte_Fifo
  imports Prelude
begin

section \<open>The contract of a bounded FIFO\<close>

text \<open>
  What writers and readers of a bounded first-in first-out buffer rely on: a write takes as much of
  the data as there is room for and says how much, a read takes from the front. The client's
  lemmas are proved once in the locale: over any sequence of reads and writes nothing is lost,
  duplicated or reordered, and the buffer never exceeds its capacity. The file operations of the
  course-design file system interpret the locale.
\<close>

datatype 'b fifo_op = Put "'b list" | Get nat

text \<open>A run; the result has the data that was taken in and the data that was read, both in order.\<close>

fun fifo_run ::
  "('s \<Rightarrow> 'b list \<Rightarrow> (nat \<times> 's) option) \<Rightarrow> ('s \<Rightarrow> nat \<Rightarrow> ('b list \<times> 's) option) \<Rightarrow> 's \<Rightarrow> 'b fifo_op list \<Rightarrow>
     ('b list \<times> 'b list \<times> 's) option" where
  "fifo_run enq deq s [] = Some ([], [], s)"
| "fifo_run enq deq s (Put xs # ops) =
     (case enq s xs of
        None \<Rightarrow> None
      | Some (n, s') \<Rightarrow> map_option (\<lambda>(ins, outs, s''). (take n xs @ ins, outs, s'')) (fifo_run enq deq s' ops))"
| "fifo_run enq deq s (Get n # ops) =
     (case deq s n of
        None \<Rightarrow> None
      | Some (ys, s') \<Rightarrow> map_option (\<lambda>(ins, outs, s''). (ins, ys @ outs, s'')) (fifo_run enq deq s' ops))"

text \<open>Sizes a single call may have.\<close>

fun small_op :: "nat \<Rightarrow> 'b fifo_op \<Rightarrow> bool" where
  "small_op lim (Put xs) = (length xs < lim)"
| "small_op lim (Get n) = (n < lim)"

locale byte_fifo =
  fixes wf :: "'s \<Rightarrow> bool"
    and contents :: "'s \<Rightarrow> 'b list"
    and cap :: nat
    and lim :: nat
    and enq :: "'s \<Rightarrow> 'b list \<Rightarrow> (nat \<times> 's) option"
    and deq :: "'s \<Rightarrow> nat \<Rightarrow> ('b list \<times> 's) option"
  assumes bounded: "wf s \<Longrightarrow> length (contents s) \<le> cap"
    and enq_takes: "wf s \<Longrightarrow> length xs < lim \<Longrightarrow>
      \<exists>s'. enq s xs = Some (min (length xs) (cap - length (contents s)), s') \<and> wf s'
         \<and> contents s' = contents s @ take (cap - length (contents s)) xs"
    and deq_takes: "wf s \<Longrightarrow> n < lim \<Longrightarrow>
      \<exists>s'. deq s n = Some (take n (contents s), s') \<and> wf s' \<and> contents s' = drop n (contents s)"
begin

lemma run_conserves:
  assumes "wf s" and "list_all (small_op lim) ops"
  shows "\<exists>ins outs s'. fifo_run enq deq s ops = Some (ins, outs, s') \<and> wf s'
     \<and> contents s @ ins = outs @ contents s'"
  using assms
proof (induction ops arbitrary: s)
  case (Cons a ops)
  show ?case
  proof (cases a)
    case (Put xs)
    let ?n = "min (length xs) (cap - length (contents s))"
    obtain s1 where s1: "enq s xs = Some (?n, s1)" "wf s1" "contents s1 = contents s @ take ?n xs"
      using enq_takes [of s xs] Cons.prems Put by (auto simp: min_def)
    then show ?thesis using Cons.IH [OF s1(2)] Cons.prems Put by fastforce
  next
    case (Get n)
    obtain s1 where s1: "deq s n = Some (take n (contents s), s1)" "wf s1" "contents s1 = drop n (contents s)"
      using deq_takes [of s n] Cons.prems Get by auto
    then obtain ins outs s' where "fifo_run enq deq s1 ops = Some (ins, outs, s')" "wf s'"
        "contents s1 @ ins = outs @ contents s'"
      using Cons.IH [OF s1(2)] Cons.prems by auto
    moreover have "contents s @ ins = take n (contents s) @ contents s1 @ ins"
      using s1(3) append_take_drop_id [of n "contents s"] by (metis append.assoc)
    ultimately show ?thesis using s1 Get by simp
  qed
qed simp

text \<open>From an empty buffer: what was read is a prefix of what was written, the rest is still there.\<close>

lemma run_from_empty:
  assumes "wf s" and "contents s = []" and "list_all (small_op lim) ops"
    and "fifo_run enq deq s ops = Some (ins, outs, s')"
  shows "ins = outs @ contents s' \<and> length ins \<le> length outs + cap"
  using run_conserves [OF assms(1,3)] assms(2,4) bounded [of s'] by auto

end

end
