(* ===== verification/Myfs_File.thy ===== *)
theory Myfs_File
  imports Kernel Byte_Fifo
begin

section \<open>The file system of the course design: file operations\<close>

text \<open>
  The operations \<open>myfs_file_open\<close>, \<open>read\<close>, \<open>write\<close> and \<open>release\<close> of
  \<^verbatim>\<open>src/course_design/myfs_kernel.c\<close> and \<^verbatim>\<open>src/course_design/myfs_kernel_ubuntu.c\<close>, which every file of
  the file system shares, and the test programs \<^verbatim>\<open>test1.c\<close>, \<^verbatim>\<open>test2.c\<close>, \<^verbatim>\<open>test1rdonly.c\<close> and
  \<^verbatim>\<open>test2rdonly.c\<close>. All files read from and write to one kernel FIFO of 64 bytes. The FIFO is the
  parameter \<open>kfifo\<close> over its own state \<open>'q\<close> with the laws \<open>kfifo_laws\<close>; the record that \<open>kmalloc\<close>
  returns is not initialised, so the counter in it starts from the parameter \<open>kmalloc_junk\<close>.
\<close>

subsection \<open>State\<close>

text \<open>
  \<open>kfifo_to_user\<close> answers a return code and the bytes it copied out, \<open>kfifo_from_user\<close> a return
  code and how many bytes it took.
\<close>

record 'q kfifo =
  kfifo_to_user :: "'q \<Rightarrow> u64 \<Rightarrow> int \<times> bytes \<times> 'q"
  kfifo_from_user :: "'q \<Rightarrow> bytes \<Rightarrow> int \<times> nat \<times> 'q"

record myfs_file_info =
  open_time :: u64
  open_count :: u32

record 'q myfs_file_st = kctx +
  mydemo_fifo :: 'q
  file_private :: "ptr \<rightharpoonup> ptr"
  infos :: "ptr \<rightharpoonup> myfs_file_info"

definition myfs_file_start :: "klog \<Rightarrow> 'q \<Rightarrow> 'q myfs_file_st" where
  "myfs_file_start l q = \<lparr>klog = l, mydemo_fifo = q, file_private = Map.empty, infos = Map.empty\<rparr>"

text \<open>What \<open>open\<close> finds: uninitialised memory, the time, and the answer of \<open>inode_permission\<close> (0 for yes).\<close>

record open_env =
  kmalloc_junk :: "klog \<Rightarrow> u32"
  now_sec :: "klog \<Rightarrow> u64"
  inode_permission :: "klog \<Rightarrow> ptr \<Rightarrow> int"

subsection \<open>The operations\<close>

text \<open>The message of two emoji, as the bytes of the source file.\<close>

definition water_and_fire :: string where
  "water_and_fire = [CHR 0xF0, CHR 0x9F, CHR 0x92, CHR 0xA6, CHR 0xF0, CHR 0x9F, CHR 0x94, CHR 0xA5]"

text \<open>
  The check refuses when \<open>!inode_permission(..)\<close> holds, which is when the permission is granted, and
  \<open>!uid == 0\<close>, which is when the user is not root. The other version has the check commented out.
\<close>

definition myfs_file_open_with ::
  "bool \<Rightarrow> kernel \<Rightarrow> open_env \<Rightarrow> ptr \<Rightarrow> ptr \<Rightarrow> u32 \<Rightarrow> u32 \<Rightarrow> ('q myfs_file_st, int) state" where
  "myfs_file_open_with checked K E inode file f_mode f_flags = do {
     printk ''File open called.'' [];
     printk water_and_fire [];
     info \<leftarrow> kmalloc K 24;
     if info = NULL then do {
       printk (KERN_ALERT @ ''myfs: Failed to allocate memory for file info'' @ nl) [];
       State_Monad.return (- ENOMEM)
     } else do {
       junk \<leftarrow> gets (\<lambda>s. kmalloc_junk E (klog s));
       t \<leftarrow> gets (\<lambda>s. now_sec E (klog s));
       modify (\<lambda>s. s\<lparr>infos := (infos s)(info \<mapsto> \<lparr>open_time = t, open_count = junk + 1\<rparr>),
                     file_private := (file_private s)(file \<mapsto> info)\<rparr>);
       printk (''Recorded file operation: open_time=%lld, open_count=%d, LAE'' @ nl)
         [KInt (sint t), KInt (sint (junk + 1))];
       if checked then do {
         uid \<leftarrow> gets (\<lambda>s. current_uid_val K (klog s));
         printk (''Uid %d is tring to open file, checking permission, LAE'' @ nl) [KInt (sint uid)];
         perm \<leftarrow> gets (\<lambda>s. inode_permission E (klog s) inode);
         uid2 \<leftarrow> gets (\<lambda>s. current_uid_val K (klog s));
         if perm = 0 \<and> uid2 \<noteq> 0 then do {
           printk (''Permission denied, LAE'' @ nl) [];
           State_Monad.return (- EACCES)
         } else do {
           printk (''File opened: inode=%p, file->f_mode=%x, file->f_flags=%x, LAE'' @ nl)
             [KPtr inode, KInt (uint f_mode), KInt (uint f_flags)];
           State_Monad.return 0
         }
       } else do {
         printk (''File opened: inode=%p, file->f_mode=%x, file->f_flags=%x, LAE'' @ nl)
           [KPtr inode, KInt (uint f_mode), KInt (uint f_flags)];
         State_Monad.return 0
       }
     }
   }"

definition myfs_file_open ::
  "kernel \<Rightarrow> open_env \<Rightarrow> ptr \<Rightarrow> ptr \<Rightarrow> u32 \<Rightarrow> u32 \<Rightarrow> ('q myfs_file_st, int) state" where
  "myfs_file_open = myfs_file_open_with True"

definition myfs_file_open_ubuntu ::
  "kernel \<Rightarrow> open_env \<Rightarrow> ptr \<Rightarrow> ptr \<Rightarrow> u32 \<Rightarrow> u32 \<Rightarrow> ('q myfs_file_st, int) state" where
  "myfs_file_open_ubuntu = myfs_file_open_with False"

text \<open>Reading and writing: the return value, for a read the bytes copied to the caller, and the state.\<close>

definition myfs_file_read ::
  "'q kfifo \<Rightarrow> 'q myfs_file_st \<Rightarrow> u64 \<Rightarrow> u64 \<Rightarrow> int \<times> bytes \<times> 'q myfs_file_st" where
  "myfs_file_read F s cnt ppos =
     (let (ret, data, q) = kfifo_to_user F (mydemo_fifo s) cnt; s1 = s\<lparr>mydemo_fifo := q\<rparr>
      in if ret \<noteq> 0 then (- EIO, data, s1)
         else (int (length data), data,
               snd (run_state (printk (''File read: actual_readed=%d, pos=%lld, LAE'' @ nl)
                 [KInt (int (length data)), KInt (sint ppos)]) s1)))"

definition myfs_file_write ::
  "'q kfifo \<Rightarrow> 'q myfs_file_st \<Rightarrow> bytes \<Rightarrow> u64 \<Rightarrow> int \<times> 'q myfs_file_st" where
  "myfs_file_write F s buf ppos =
     (let (ret, n, q) = kfifo_from_user F (mydemo_fifo s) buf; s1 = s\<lparr>mydemo_fifo := q\<rparr>
      in if ret \<noteq> 0 then (- EIO, s1)
         else (int n, snd (run_state (printk (''File write: actual_write=%d, ppos=%lld, LAE'' @ nl)
                 [KInt (int n), KInt (sint ppos)]) s1)))"

definition myfs_file_release :: "'q myfs_file_st \<Rightarrow> ptr \<Rightarrow> kfault + int \<times> 'q myfs_file_st" where
  "myfs_file_release s file =
     (case file_private s file of
        None \<Rightarrow> Inl Bad_access
      | Some p \<Rightarrow>
          (case infos s p of
             None \<Rightarrow> Inl Bad_access
           | Some info \<Rightarrow>
               Inr (run_state (do {
                 printk ''File release called, LAE.'' [];
                 printk ''It is required to print auther name here, but I don't want to do so.'' [];
                 printk ''So let's write something else here'' [];
                 printk ''Why Linux is so hard to learn? But a fancinating OS?'' [];
                 printk ''I have used Unix based OS since I was 14 years old. But for a very long time, I havn't learned about its kernel.'' [];
                 printk (''File released: open_time=%lld, open_count=%d, LAE'' @ nl)
                   [KInt (sint (open_time info)), KInt (sint (open_count info))];
                 kfree p;
                 modify (\<lambda>s. s\<lparr>infos := (infos s)(p := None)\<rparr>);
                 State_Monad.return 0 }) s)))"

subsection \<open>The test programs\<close>

text \<open>
  \<open>test_rdwr\<close> is \<^verbatim>\<open>test1.c\<close> and \<^verbatim>\<open>test2.c\<close>, which differ only in the file they open, \<open>test_rdonly\<close> the
  read-only versions. What the programs get from outside is \<open>user_env\<close>: whether path lookup and the
  kernel's own permission check let the open through and with which \<open>f_mode\<close> and \<open>f_flags\<close>, and
  whether \<open>malloc\<close> succeeds. The result is the exit status with what was printed, and the state
  when \<open>main\<close> returns; \<open>%s\<close> of a buffer without a NUL and \<open>memset\<close> of a null pointer are faults. On
  the early \<open>return -1\<close> after a failed write the program does not close the file.
\<close>

record user_env =
  vfs_open :: "(u32 \<times> u32) option"
  malloc_ok :: bool

definition test_message :: bytes where
  "test_message = cstring ''I am myfs''"

type_synonym printed = "(string \<times> karg list) list"

text \<open>What the C library makes of the result of a system call.\<close>

definition sysret :: "int \<Rightarrow> int" where
  "sysret r = (if r < 0 then - 1 else r)"

definition open_file ::
  "user_env \<Rightarrow> kernel \<Rightarrow> open_env \<Rightarrow> ptr \<Rightarrow> ptr \<Rightarrow> 'q myfs_file_st \<Rightarrow> bool \<times> 'q myfs_file_st" where
  "open_file U K E inode file s =
     (case vfs_open U of
        None \<Rightarrow> (False, s)
      | Some (f_mode, f_flags) \<Rightarrow>
          let (r, s') = run_state (myfs_file_open K E inode file f_mode f_flags) s in (r = 0, s'))"

definition read_and_print ::
  "'q kfifo \<Rightarrow> user_env \<Rightarrow> ptr \<Rightarrow> 'q myfs_file_st \<Rightarrow> kfault + (int \<times> printed) \<times> 'q myfs_file_st" where
  "read_and_print F U file s =
     (if \<not> malloc_ok U then Inl Bad_access
      else let len = length test_message; (ret, data, s1) = myfs_file_read F s (of_nat (2 * len)) 0;
               buffer = data @ replicate (2 * len - length data) 0
           in case strlen buffer of
                None \<Rightarrow> Inl Bad_access
              | Some n \<Rightarrow>
                  (case myfs_file_release s1 file of
                     Inl e \<Rightarrow> Inl e
                   | Inr (_, s2) \<Rightarrow> Inr ((0, [(''read %d bytes'' @ nl, [KInt (sysret ret)]),
                        (''read buffer=%s'' @ nl, [KStr (map (\<lambda>b. char_of (unat b)) (take n buffer))])]), s2)))"

definition test_rdwr ::
  "'q kfifo \<Rightarrow> user_env \<Rightarrow> kernel \<Rightarrow> open_env \<Rightarrow> ptr \<Rightarrow> ptr \<Rightarrow> 'q myfs_file_st \<Rightarrow>
     kfault + (int \<times> printed) \<times> 'q myfs_file_st" where
  "test_rdwr F U K E inode file s =
     (let (opened, s1) = open_file U K E inode file s
      in if \<not> opened then Inr ((- 1, [(''wrong open'' @ nl, [])]), s1)
         else let (ret, s2) = myfs_file_write F s1 test_message 0
              in if sysret ret \<noteq> int (length test_message) then Inr ((- 1, [(''wrong write'' @ nl, [])]), s2)
                 else read_and_print F U file s2)"

definition test_rdonly ::
  "'q kfifo \<Rightarrow> user_env \<Rightarrow> kernel \<Rightarrow> open_env \<Rightarrow> ptr \<Rightarrow> ptr \<Rightarrow> 'q myfs_file_st \<Rightarrow>
     kfault + (int \<times> printed) \<times> 'q myfs_file_st" where
  "test_rdonly F U K E inode file s =
     (let (opened, s1) = open_file U K E inode file s
      in if \<not> opened then Inr ((- 1, [(''wrong open'' @ nl, [])]), s1)
         else read_and_print F U file s1)"

subsection \<open>What the FIFO promises\<close>

text \<open>
  The documented behaviour of \<^verbatim>\<open>DEFINE_KFIFO(mydemo_fifo, char, 64)\<close> when the caller's buffer is
  accessible: \<open>kfifo_from_user\<close> takes what there is room for, \<open>kfifo_to_user\<close> copies out what there is,
  at most as much as asked for. Both take their length as a 32-bit number.
\<close>

definition FIFO_SIZE :: nat where
  "FIFO_SIZE = 64"

definition kfifo_laws :: "'q kfifo \<Rightarrow> ('q \<Rightarrow> bool) \<Rightarrow> ('q \<Rightarrow> bytes) \<Rightarrow> bool" where
  "kfifo_laws F W C \<longleftrightarrow>
     (\<forall>q. W q \<longrightarrow> length (C q) \<le> FIFO_SIZE)
   \<and> (\<forall>q buf. W q \<and> length buf < 2 ^ 32 \<longrightarrow>
        (\<exists>q'. kfifo_from_user F q buf = (0, min (length buf) (FIFO_SIZE - length (C q)), q') \<and> W q'
            \<and> C q' = C q @ take (FIFO_SIZE - length (C q)) buf))
   \<and> (\<forall>q n. W q \<and> unat n < 2 ^ 32 \<longrightarrow>
        (\<exists>q'. kfifo_to_user F q n = (0, take (unat n) (C q), q') \<and> W q' \<and> C q' = drop (unat n) (C q)))"

text \<open>A FIFO that keeps them.\<close>

definition list_kfifo :: "bytes kfifo" where
  "list_kfifo = \<lparr>
     kfifo_to_user = (\<lambda>q n. (0, take (unat n) q, drop (unat n) q)),
     kfifo_from_user = (\<lambda>q buf. (0, min (length buf) (FIFO_SIZE - length q), q @ take (FIFO_SIZE - length q) buf))\<rparr>"

text \<open>The write and read operation as a client sees them, \<open>None\<close> for a negative result.\<close>

definition file_put :: "'q kfifo \<Rightarrow> 'q myfs_file_st \<Rightarrow> bytes \<Rightarrow> (nat \<times> 'q myfs_file_st) option" where
  "file_put F s buf = (case myfs_file_write F s buf 0 of (r, s') \<Rightarrow> if r < 0 then None else Some (nat r, s'))"

definition file_get :: "'q kfifo \<Rightarrow> 'q myfs_file_st \<Rightarrow> nat \<Rightarrow> (bytes \<times> 'q myfs_file_st) option" where
  "file_get F s n =
     (case myfs_file_read F s (of_nat n) 0 of (r, data, s') \<Rightarrow> if r < 0 then None else Some (take (nat r) data, s'))"

subsection \<open>Lemmas\<close>

lemma list_kfifo_laws: "kfifo_laws list_kfifo (\<lambda>q. length q \<le> FIFO_SIZE) (\<lambda>q. q)"
  by (auto simp: kfifo_laws_def list_kfifo_def)

lemma kfifo_bounded: "kfifo_laws F W C \<Longrightarrow> W q \<Longrightarrow> length (C q) \<le> FIFO_SIZE"
  by (simp add: kfifo_laws_def)

lemma printk_only_logs:
  obtains l' where "snd (run_state (printk fmt args) s) = s\<lparr>klog := l'\<rparr>" and "held l' = held (klog s)"
  by (rule that [of "klog s @ [Printk fmt args]"]) (simp_all add: kmonad)

lemma myfs_file_write_takes:
  assumes "kfifo_laws F W C" "W (mydemo_fifo s)" "length buf < 2 ^ 32"
  defines "room \<equiv> FIFO_SIZE - length (C (mydemo_fifo s))"
  shows "\<exists>q' l'. myfs_file_write F s buf pos = (int (min (length buf) room), s\<lparr>mydemo_fifo := q', klog := l'\<rparr>)
     \<and> W q' \<and> C q' = C (mydemo_fifo s) @ take room buf \<and> held l' = held (klog s)"
proof -
  obtain q' where "kfifo_from_user F (mydemo_fifo s) buf = (0, min (length buf) room, q')" "W q'"
      "C q' = C (mydemo_fifo s) @ take room buf"
    using assms unfolding kfifo_laws_def room_def by meson
  moreover obtain l' where "snd (run_state (printk (''File write: actual_write=%d, ppos=%lld, LAE'' @ nl)
      [KInt (int (min (length buf) room)), KInt (sint pos)]) (s\<lparr>mydemo_fifo := q'\<rparr>)) = s\<lparr>mydemo_fifo := q', klog := l'\<rparr>"
      "held l' = held (klog (s\<lparr>mydemo_fifo := q'\<rparr>))"
    by (rule printk_only_logs)
  ultimately show ?thesis unfolding myfs_file_write_def by (intro exI [of _ q'] exI [of _ l']) simp
qed

lemma myfs_file_read_takes:
  assumes "kfifo_laws F W C" "W (mydemo_fifo s)" "unat n < 2 ^ 32"
  shows "\<exists>q' l'. myfs_file_read F s n pos =
       (int (length (take (unat n) (C (mydemo_fifo s)))), take (unat n) (C (mydemo_fifo s)), s\<lparr>mydemo_fifo := q', klog := l'\<rparr>)
     \<and> W q' \<and> C q' = drop (unat n) (C (mydemo_fifo s)) \<and> held l' = held (klog s)"
proof -
  obtain q' where "kfifo_to_user F (mydemo_fifo s) n = (0, take (unat n) (C (mydemo_fifo s)), q')" "W q'"
      "C q' = drop (unat n) (C (mydemo_fifo s))"
    using assms unfolding kfifo_laws_def by meson
  moreover obtain l' where "snd (run_state (printk (''File read: actual_readed=%d, pos=%lld, LAE'' @ nl)
      [KInt (int (length (take (unat n) (C (mydemo_fifo s))))), KInt (sint pos)]) (s\<lparr>mydemo_fifo := q'\<rparr>))
        = s\<lparr>mydemo_fifo := q', klog := l'\<rparr>" "held l' = held (klog (s\<lparr>mydemo_fifo := q'\<rparr>))"
    by (rule printk_only_logs)
  ultimately show ?thesis unfolding myfs_file_read_def by (intro exI [of _ q'] exI [of _ l']) simp
qed

lemma unat_of_nat_u64: "n < 2 ^ 32 \<Longrightarrow> unat (of_nat n :: u64) = n"
  by (simp add: unsigned_of_nat take_bit_nat_eq_self)

lemma file_put_takes:
  assumes "kfifo_laws F W C" "W (mydemo_fifo s)" "length buf < 2 ^ 32"
  shows "\<exists>s'. file_put F s buf = Some (min (length buf) (FIFO_SIZE - length (C (mydemo_fifo s))), s')
     \<and> W (mydemo_fifo s') \<and> C (mydemo_fifo s') = C (mydemo_fifo s) @ take (FIFO_SIZE - length (C (mydemo_fifo s))) buf"
proof -
  obtain q' l' where "myfs_file_write F s buf 0 =
      (int (min (length buf) (FIFO_SIZE - length (C (mydemo_fifo s)))), s\<lparr>mydemo_fifo := q', klog := l'\<rparr>)"
      "W q'" "C q' = C (mydemo_fifo s) @ take (FIFO_SIZE - length (C (mydemo_fifo s))) buf"
    using myfs_file_write_takes [OF assms, of 0] by blast
  then show ?thesis by (intro exI [of _ "s\<lparr>mydemo_fifo := q', klog := l'\<rparr>"]) (simp add: file_put_def)
qed

lemma file_get_takes:
  assumes "kfifo_laws F W C" "W (mydemo_fifo s)" "n < 2 ^ 32"
  shows "\<exists>s'. file_get F s n = Some (take n (C (mydemo_fifo s)), s')
     \<and> W (mydemo_fifo s') \<and> C (mydemo_fifo s') = drop n (C (mydemo_fifo s))"
proof -
  obtain q' l' where "myfs_file_read F s (of_nat n) 0 =
      (int (length (take n (C (mydemo_fifo s)))), take n (C (mydemo_fifo s)), s\<lparr>mydemo_fifo := q', klog := l'\<rparr>)"
      "W q'" "C q' = drop n (C (mydemo_fifo s))"
    using myfs_file_read_takes [OF assms(1,2), of "of_nat n" 0] assms(3) by (auto simp: unat_of_nat_u64)
  then show ?thesis by (intro exI [of _ "s\<lparr>mydemo_fifo := q', klog := l'\<rparr>"]) (simp add: file_get_def min_def)
qed

interpretation myfs_fifo: byte_fifo "\<lambda>s. kfifo_laws F W C \<and> W (mydemo_fifo s)" "\<lambda>s. C (mydemo_fifo s)"
    FIFO_SIZE "2 ^ 32" "file_put F" "file_get F" for F W C
  by unfold_locales (auto dest: kfifo_bounded file_put_takes file_get_takes)

subsection \<open>Reading and writing\<close>



subsection \<open>Opening and closing\<close>

text \<open>
  The three outcomes of \<open>open\<close>. What the operation does to the state is the same whether it is
  refused or not; \<open>open_effect\<close> says what that is.
\<close>

definition open_effect :: "ptr \<Rightarrow> 'q myfs_file_st \<Rightarrow> 'q myfs_file_st \<Rightarrow> ptr \<Rightarrow> myfs_file_info \<Rightarrow> bool" where
  "open_effect file s s' p i \<longleftrightarrow>
     p \<noteq> NULL \<and> held (klog s') = held (klog s) + {#RMem p#} \<and> mydemo_fifo s' = mydemo_fifo s
   \<and> file_private s' = (file_private s)(file \<mapsto> p) \<and> infos s' = (infos s)(p \<mapsto> i)"

lemma myfs_file_open_with_effect:
  assumes "run_state (myfs_file_open_with c K E inode file f_mode f_flags) s = (r, s')"
  shows "if r = - ENOMEM then held (klog s') = held (klog s) \<and> infos s' = infos s \<and> file_private s' = file_private s
    else (r = 0 \<or> c \<and> r = - EACCES) \<and> (let p = the (file_private s' file) in open_effect file s s' p (the (infos s' p)))"
  using assms unfolding myfs_file_open_with_def open_effect_def
  by (elim kelim; simp add: errno_defs)

lemma myfs_file_open_with_result:
  assumes "\<forall>l. kmalloc_ans K l 24 = p" and "\<forall>l. now_sec E l = t" and "\<forall>l. kmalloc_junk E l = j"
    and "\<forall>l. inode_permission E l inode = perm" and "\<forall>l. current_uid_val K l = uid"
    and "run_state (myfs_file_open_with c K E inode file f_mode f_flags) s = (r, s')"
  shows "r = (if p = NULL then - ENOMEM else if c \<and> perm = 0 \<and> uid \<noteq> 0 then - EACCES else 0)"
    and "p \<noteq> NULL \<longrightarrow> open_effect file s s' p \<lparr>open_time = t, open_count = j + 1\<rparr>"
proof -
  have ends: "r = fst (run_state (myfs_file_open_with c K E inode file f_mode f_flags) s)"
      "s' = snd (run_state (myfs_file_open_with c K E inode file f_mode f_flags) s)"
    using assms(6) by simp_all
  show "r = (if p = NULL then - ENOMEM else if c \<and> perm = 0 \<and> uid \<noteq> 0 then - EACCES else 0)"
    unfolding ends by (simp add: myfs_file_open_with_def kmonad assms(1-5))
  show "p \<noteq> NULL \<longrightarrow> open_effect file s s' p \<lparr>open_time = t, open_count = j + 1\<rparr>"
    unfolding ends open_effect_def by (simp add: myfs_file_open_with_def kmonad assms(1-5))
qed

text \<open>
  Property C16. The permission check of \<open>myfs_file_open\<close> is inverted: a process other than root is
  refused exactly when \<open>inode_permission\<close> grants the access (answers 0), and let in when it denies
  it; root is always let in. The version for Ubuntu, with the check commented out, refuses nobody.
  An opened file gets a record with the time of opening and a counter one above whatever the
  uninitialised memory held.
\<close>

theorem myfs_file_open_result:
  assumes "\<forall>l. kmalloc_ans K l 24 = p" and "\<forall>l. now_sec E l = t" and "\<forall>l. kmalloc_junk E l = j"
    and "\<forall>l. inode_permission E l inode = perm" and "\<forall>l. current_uid_val K l = uid"
    and run: "run_state (myfs_file_open K E inode file f_mode f_flags) s = (r, s')"
    and run_ubuntu: "run_state (myfs_file_open_ubuntu K E inode file f_mode f_flags) s = (ru, su)"
  shows "r = (if p = NULL then - ENOMEM else if perm = 0 \<and> uid \<noteq> 0 then - EACCES else 0)
    \<and> ru = (if p = NULL then - ENOMEM else 0)
    \<and> (p \<noteq> NULL \<longrightarrow> infos s' = (infos s)(p \<mapsto> \<lparr>open_time = t, open_count = j + 1\<rparr>) \<and> infos su = infos s'
          \<and> file_private s' = (file_private s)(file \<mapsto> p) \<and> file_private su = file_private s')"
  using myfs_file_open_with_result [OF assms(1-5) run [unfolded myfs_file_open_def]]
    myfs_file_open_with_result [OF assms(1-5) run_ubuntu [unfolded myfs_file_open_ubuntu_def]]
  by (simp add: open_effect_def)

text \<open>A process of user 1000 on a file that \<open>inode_permission\<close> lets it use.\<close>

definition user_kernel :: kernel where
  "user_kernel = granting_kernel\<lparr>current_uid_val := (\<lambda>_. 1000)\<rparr>"

definition some_env :: "int \<Rightarrow> open_env" where
  "some_env perm = \<lparr>kmalloc_junk = (\<lambda>_. 41), now_sec = (\<lambda>_. 1700000000), inode_permission = (\<lambda>_ _. perm)\<rparr>"

theorem myfs_file_open_result_witness:
  "fst (run_state (myfs_file_open user_kernel (some_env 0) 1 2 3 4) (myfs_file_start [] ([] :: bytes))) = - EACCES
   \<and> fst (run_state (myfs_file_open_ubuntu user_kernel (some_env 0) 1 2 3 4) (myfs_file_start [] ([] :: bytes))) = 0"
proof -
  have "\<forall>l. kmalloc_ans user_kernel l 24 = 0x20000" "\<forall>l. now_sec (some_env 0) l = 1700000000"
      "\<forall>l. kmalloc_junk (some_env 0) l = 41" "\<forall>l. inode_permission (some_env 0) l 1 = 0"
      "\<forall>l. current_uid_val user_kernel l = 1000"
    by (simp_all add: user_kernel_def granting_kernel_def some_env_def)
  from myfs_file_open_result [where s = "myfs_file_start [] ([] :: bytes)", OF this surjective_pairing surjective_pairing]
  show ?thesis by simp
qed

lemma myfs_file_release_frees:
  assumes "file_private s file = Some p" and "infos s p = Some i"
  shows "\<exists>s'. myfs_file_release s file = Inr (0, s') \<and> held (klog s') = held (klog s) - releases (Kfree p)
     \<and> infos s' = (infos s)(p := None) \<and> mydemo_fifo s' = mydemo_fifo s"
  by (simp add: myfs_file_release_def assms kmonad)

text \<open>
  Property C36. Opening and closing: after a successful open, release returns 0 without a fault, frees
  the record and leaves exactly the memory that was held before. A refused open, which is never
  released, leaves its record allocated for ever; an open that finds no memory changes nothing.
\<close>

theorem myfs_open_release_balanced:
  assumes "run_state (myfs_file_open_with c K E inode file f_mode f_flags) s = (r, s')"
  shows "(r = 0 \<longrightarrow> (\<exists>s''. myfs_file_release s' file = Inr (0, s'') \<and> held (klog s'') = held (klog s)
        \<and> (\<forall>p. file_private s' file = Some p \<longrightarrow> infos s'' = (infos s)(p := None))))
    \<and> (r = - EACCES \<longrightarrow> c \<and> (\<exists>p. file_private s' file = Some p \<and> held (klog s') = held (klog s) + {#RMem p#}))
    \<and> (r = - ENOMEM \<longrightarrow> held (klog s') = held (klog s) \<and> infos s' = infos s \<and> file_private s' = file_private s)
    \<and> r \<in> {0, - EACCES, - ENOMEM}"
proof (cases "r = - ENOMEM")
  case True
  then show ?thesis using myfs_file_open_with_effect [OF assms] by (simp add: errno_defs)
next
  case False
  define p where "p = the (file_private s' file)"
  define i where "i = the (infos s' p)"
  have e: "open_effect file s s' p i" and r: "r = 0 \<or> c \<and> r = - EACCES"
    using myfs_file_open_with_effect [OF assms] False by (simp_all add: p_def i_def Let_def)
  have f: "file_private s' file = Some p" "infos s' p = Some i" and h: "held (klog s') = held (klog s) + {#RMem p#}"
    and n: "infos s' = (infos s)(p \<mapsto> i)" and "p \<noteq> NULL"
    using e by (simp_all add: open_effect_def)
  with myfs_file_release_frees [OF f] obtain s'' where "myfs_file_release s' file = Inr (0, s'')"
      "held (klog s'') = held (klog s)" "infos s'' = (infos s)(p := None)" by auto
  then show ?thesis using r h f(1) by (auto simp: errno_defs)
qed

theorem myfs_open_release_balanced_witness:
  "\<exists>s''. myfs_file_release (snd (run_state (myfs_file_open_with True granting_kernel (some_env 0) 1 2 3 4)
       (myfs_file_start [] ([] :: bytes)))) 2 = Inr (0, s'') \<and> held (klog s'') = {#}"
proof -
  have "fst (run_state (myfs_file_open_with True granting_kernel (some_env 0) 1 2 3 4) (myfs_file_start [] ([] :: bytes))) = 0"
    by (simp add: myfs_file_open_with_def kmonad granting_kernel_def some_env_def)
  then show ?thesis
    using myfs_open_release_balanced [OF surjective_pairing, of True granting_kernel "some_env 0" 1 2 3 4
        "myfs_file_start [] ([] :: bytes)"]
    by (auto simp: myfs_file_start_def)
qed

subsection \<open>The test programs on the file system\<close>

text \<open>What a program prints that has read these bytes into its cleared buffer of 20 bytes.\<close>

definition report :: "bytes \<Rightarrow> kfault + printed" where
  "report data =
     (case strlen (data @ replicate (20 - length data) 0) of
        None \<Rightarrow> Inl Bad_access
      | Some n \<Rightarrow> Inr [(''read %d bytes'' @ nl, [KInt (int (length data))]),
           (''read buffer=%s'' @ nl, [KStr (map (\<lambda>b. char_of (unat b)) (take n (data @ replicate (20 - length data) 0)))])])"

lemma open_file_root:
  assumes "vfs_open U \<noteq> None" "\<forall>l. kmalloc_ans K l 24 \<noteq> NULL" "\<forall>l. current_uid_val K l = 0"
  shows "\<exists>s' p i. open_file U K E inode file s = (True, s') \<and> open_effect file s s' p i"
proof -
  obtain m f where v: "vfs_open U = Some (m, f)" using assms(1) by auto
  obtain r s' where run: "run_state (myfs_file_open_with True K E inode file m f) s = (r, s')" by fastforce
  have "r = fst (run_state (myfs_file_open_with True K E inode file m f) s)" using run by simp
  then have "r = 0" by (simp add: myfs_file_open_with_def kmonad assms(2,3))
  then show ?thesis using run myfs_file_open_with_effect [OF run] v
    by (auto simp: open_file_def myfs_file_open_def errno_defs Let_def)
qed

lemma length_test_message [simp]: "length test_message = 10"
  by (simp add: test_message_def)

lemma read_and_print_reports:
  assumes "kfifo_laws F W C" "W (mydemo_fifo s)" "malloc_ok U" "file_private s file = Some p" "infos s p = Some i"
  defines "D \<equiv> C (mydemo_fifo s)"
  shows "case report (take 20 D) of
     Inl e \<Rightarrow> read_and_print F U file s = Inl e
   | Inr out \<Rightarrow> \<exists>s'. read_and_print F U file s = Inr ((0, out), s') \<and> W (mydemo_fifo s')
       \<and> C (mydemo_fifo s') = drop 20 D \<and> held (klog s') = held (klog s) - releases (Kfree p)"
proof -
  obtain q l where r: "myfs_file_read F s 20 0 = (int (length (take 20 D)), take 20 D, s\<lparr>mydemo_fifo := q, klog := l\<rparr>)"
      and q: "W q" "C q = drop 20 D" "held l = held (klog s)"
    using myfs_file_read_takes [OF assms(1,2), of 20 0] unfolding D_def by auto
  have f: "file_private (s\<lparr>mydemo_fifo := q, klog := l\<rparr>) file = Some p" "infos (s\<lparr>mydemo_fifo := q, klog := l\<rparr>) p = Some i"
    using assms(4,5) by simp_all
  obtain s' where "myfs_file_release (s\<lparr>mydemo_fifo := q, klog := l\<rparr>) file = Inr (0, s')" 
      "held (klog s') = held l - releases (Kfree p)" "mydemo_fifo s' = q"
    using myfs_file_release_frees [OF f] by auto
  then show ?thesis using r q assms(3)
    by (simp add: read_and_print_def report_def sysret_def split: option.split)
qed

text \<open>
  Property C17. The test programs, run by root, use one FIFO through all files. With \<open>D\<close> left in it,
  \<open>test1\<close> and \<open>test2\<close> fail with \<open>wrong write\<close> if their ten bytes do not fit, leaving a truncated
  message behind; otherwise they print the oldest twenty bytes of \<open>D\<close> followed by their message,
  so only on an empty FIFO what they wrote, and twenty bytes without a NUL make \<open>printf\<close> run past the buffer. The
  read-only programs print whatever is oldest. Closing gives the file's record back.
\<close>

theorem test_programs_result:
  assumes "kfifo_laws F W C" and "W (mydemo_fifo s)" and "malloc_ok U" and "vfs_open U \<noteq> None"
    and "\<forall>l. kmalloc_ans K l 24 \<noteq> NULL" and "\<forall>l. current_uid_val K l = 0"
  defines "D \<equiv> C (mydemo_fifo s)"
  shows "(length D \<le> 54 \<longrightarrow>
       (case report (take 20 (D @ test_message)) of
          Inl e \<Rightarrow> test_rdwr F U K E inode file s = Inl e
        | Inr out \<Rightarrow> \<exists>s'. test_rdwr F U K E inode file s = Inr ((0, out), s')
            \<and> C (mydemo_fifo s') = drop 20 (D @ test_message) \<and> held (klog s') = held (klog s)))
   \<and> (54 < length D \<longrightarrow>
       (\<exists>s'. test_rdwr F U K E inode file s = Inr ((- 1, [(''wrong write'' @ nl, [])]), s')
          \<and> C (mydemo_fifo s') = D @ take (64 - length D) test_message))
   \<and> (case report (take 20 D) of
        Inl e \<Rightarrow> test_rdonly F U K E inode file s = Inl e
      | Inr out \<Rightarrow> \<exists>s'. test_rdonly F U K E inode file s = Inr ((0, out), s')
          \<and> C (mydemo_fifo s') = drop 20 D \<and> held (klog s') = held (klog s))"
proof -
  obtain s1 p i where s1: "open_file U K E inode file s = (True, s1)" and e: "open_effect file s s1 p i"
    using open_file_root [OF assms(4-6)] by blast
  have fifo: "mydemo_fifo s1 = mydemo_fifo s" and f: "file_private s1 file = Some p" "infos s1 p = Some i"
    and h: "held (klog s1) = held (klog s) + {#RMem p#}" and "p \<noteq> NULL"
    using e by (simp_all add: open_effect_def)
  obtain q l where w: "myfs_file_write F s1 test_message 0 =
      (int (min 10 (64 - length D)), s1\<lparr>mydemo_fifo := q, klog := l\<rparr>)"
      and q: "W q" "C q = D @ take (64 - length D) test_message" "held l = held (klog s1)"
    using myfs_file_write_takes [OF assms(1), of s1 test_message 0] assms(2) by (auto simp: fifo FIFO_SIZE_def D_def)
  let ?s2 = "s1\<lparr>mydemo_fifo := q, klog := l\<rparr>"
  define n where "n = min 10 (64 - length D)"
  have fits: "n = 10 \<longleftrightarrow> length D \<le> 54" by (auto simp: n_def)
  have rdwr: "test_rdwr F U K E inode file s = (if length D \<le> 54 then read_and_print F U file ?s2
      else Inr ((- 1, [(''wrong write'' @ nl, [])]), ?s2))"
    by (simp add: test_rdwr_def s1 w [folded n_def] sysret_def fits)
  have rdonly: "test_rdonly F U K E inode file s = read_and_print F U file s1"
    by (simp add: test_rdonly_def s1)
  have "W (mydemo_fifo ?s2)" "file_private ?s2 file = Some p" "infos ?s2 p = Some i" "W (mydemo_fifo s1)"
    using q f assms(2) by (simp_all add: fifo)
  note reads = read_and_print_reports [OF assms(1) this(1) assms(3) this(2,3)]
    read_and_print_reports [OF assms(1) this(4) assms(3) f]
  show ?thesis
    unfolding rdwr rdonly using reads q h \<open>p \<noteq> NULL\<close>
    by (auto simp: fifo D_def [symmetric] split: sum.splits)
qed

theorem test_programs_result_witness:
  "\<exists>s'. test_rdwr list_kfifo \<lparr>vfs_open = Some (3, 2), malloc_ok = True\<rparr> granting_kernel (some_env 0) 1 2
       (myfs_file_start [] []) =
     Inr ((0, [(''read %d bytes'' @ nl, [KInt 10]), (''read buffer=%s'' @ nl, [KStr ''I am myfs''])]), s')
     \<and> mydemo_fifo s' = []"
proof -
  have r: "report (take 20 test_message) =
      Inr [(''read %d bytes'' @ nl, [KInt 10]), (''read buffer=%s'' @ nl, [KStr ''I am myfs''])]"
    by code_simp
  show ?thesis
    using test_programs_result [OF list_kfifo_laws, of "myfs_file_start [] []" "\<lparr>vfs_open = Some (3, 2), malloc_ok = True\<rparr>"
        granting_kernel "some_env 0" 1 2] r
    by (auto simp: myfs_file_start_def granting_kernel_def)
qed

end
