(* ===== verification/Myfs_Access.thy ===== *)
theory Myfs_Access
  imports Myfs_Tree Myfs_File
begin

section \<open>The file system of the course design: types, owners and access\<close>

text \<open>
  What the directory tree of \<open>Myfs_Tree\<close> means for the test programs that open its files by name,
  \<^verbatim>\<open>src/course_design/test1.c\<close>, \<^verbatim>\<open>test2.c\<close>, \<^verbatim>\<open>test1rdonly.c\<close> and \<^verbatim>\<open>test2rdonly.c\<close>. First, the store stays
  well typed whatever the VFS answers: every inode is a directory or a regular file with the operations
  of its kind and the module's owner, and names are in directories only. Then the whole way of an
  \<open>open\<close>: the kernel walks down the path and asks for search permission on every directory before it
  calls \<open>myfs_file_open\<close>. The kernel's permission check and its path walk are the parameter
  \<open>access\<close> with the laws \<open>access_laws\<close>, which are those of the manual pages inode(7) and path_resolution(7).
\<close>

subsection \<open>Well-typed stores\<close>

definition inode_at :: "vstore \<Rightarrow> ptr \<Rightarrow> inode option" where
  "inode_at v d = (case dentries v d of
     None \<Rightarrow> None
   | Some e \<Rightarrow> if d_inode e = NULL then None else inodes v (d_inode e))"

definition directory :: "vstore \<Rightarrow> ptr \<Rightarrow> bool" where
  "directory v d = (case inode_at v d of None \<Rightarrow> False | Some i \<Rightarrow> dir_mode (i_mode i))"

text \<open>Mode and file operations that fit together.\<close>

definition node_ok :: "node \<Rightarrow> bool" where
  "node_ok x \<longleftrightarrow> dir_mode (fst x) \<and> snd x = Some ''simple_dir_operations''
     \<or> fst x AND 0xF000 = 0x8000 \<and> (snd x = None \<or> snd x = Some ''myfs_file_operations'')"

definition inode_ok :: "vfs \<Rightarrow> inode \<Rightarrow> bool" where
  "inode_ok V i \<longleftrightarrow> node_ok (i_mode i, i_fop i)
   \<and> (i_uid i, i_gid i) \<in> {(0, 0), (current_fsuid V, current_fsgid V)}
   \<and> i_op i = (if dir_mode (i_mode i) then Some ''simple_dir_inode_operations'' else None)
   \<and> (if dir_mode (i_mode i) then 2 else 1) \<le> i_nlink i"

definition typed :: "vfs \<Rightarrow> vstore \<Rightarrow> bool" where
  "typed V v \<longleftrightarrow> (\<forall>q i. inodes v q = Some i \<longrightarrow> inode_ok V i)
   \<and> (\<forall>d n. children v (d, n) \<noteq> None \<longrightarrow> directory v d)"

lemma view_inode_at:
  "view v k = (case children v k of None \<Rightarrow> None
     | Some d \<Rightarrow> map_option (\<lambda>i. (d, i_mode i, i_fop i)) (inode_at v d))"
  by (simp add: view_def inode_at_def split: option.split)

lemma directory_positive: "directory v d \<Longrightarrow> positive v d"
  by (auto simp: directory_def inode_at_def positive_def split: option.splits if_splits)

lemma directory_cases:
  assumes "directory v d"
  obtains e i where "dentries v d = Some e" and "d_inode e \<noteq> NULL" and "inodes v (d_inode e) = Some i"
    and "dir_mode (i_mode i)"
  using assms by (auto simp: directory_def inode_at_def split: option.splits if_splits)

lemma directoryI:
  "dentries v d = Some e \<Longrightarrow> d_inode e \<noteq> NULL \<Longrightarrow> inodes v (d_inode e) = Some i \<Longrightarrow> dir_mode (i_mode i) \<Longrightarrow> directory v d"
  by (simp add: directory_def inode_at_def)

lemma grows_directory:
  assumes "grows N p v v'" and "directory v d"
  shows "directory v' d"
proof -
  obtain e i where e: "dentries v d = Some e" "d_inode e \<noteq> NULL" "inodes v (d_inode e) = Some i" "dir_mode (i_mode i)"
    using assms(2) by (rule directory_cases)
  obtain e' where e': "dentries v' d = Some e'" "d_inode e' = d_inode e"
    using assms(1) e(1,2) unfolding grows_def by blast
  obtain n where "inodes v' (d_inode e) = Some (i\<lparr>i_nlink := n\<rparr>)"
    using assms(1) e(3) unfolding grows_def by blast
  then show ?thesis using e e' by (intro directoryI [of v' d e' "i\<lparr>i_nlink := n\<rparr>"]) simp_all
qed

lemma grows_typed:
  assumes g: "grows N p v v'" and t: "typed V v" and "\<And>i. N i \<Longrightarrow> inode_ok V i" and "directory v' p"
  shows "typed V v'"
  unfolding typed_def
proof (intro conjI allI impI)
  fix q i assume i: "inodes v' q = Some i"
  show "inode_ok V i"
  proof (cases "inodes v q")
    case None
    then show ?thesis using g i assms(3) unfolding grows_def by blast
  next
    case (Some i0)
    then obtain n where n: "n \<ge> i_nlink i0" "inodes v' q = Some (i0\<lparr>i_nlink := n\<rparr>)"
      using g unfolding grows_def by blast
    have "inode_ok V i0" using t Some unfolding typed_def by blast
    then show ?thesis using n i by (auto simp: inode_ok_def)
  qed
next
  fix d n assume c: "children v' (d, n) \<noteq> None"
  show "directory v' d"
  proof (cases "children v (d, n)")
    case None
    then have "d = p" using g c unfolding grows_def by blast
    then show ?thesis using assms(4) by simp
  next
    case (Some x)
    then have "directory v d" using t unfolding typed_def by blast
    then show ?thesis by (rule grows_directory [OF g])
  qed
qed

lemma made_ok: "made V x i \<Longrightarrow> node_ok x \<Longrightarrow> inode_ok V i"
  by (auto simp: made_def inode_ok_def)

lemma root_inode_ok: "root_inode i \<Longrightarrow> inode_ok V i"
  by (simp add: root_inode_def inode_ok_def node_ok_def dir_mode_def)

subsection \<open>Creating entries keeps the store well typed\<close>

text \<open>An entry the module may ask for: a directory with the default operations, or a regular file.\<close>

definition entry_ok :: "u32 \<Rightarrow> string option \<Rightarrow> bool" where
  "entry_ok mode fops \<longleftrightarrow> mode AND S_IFMT = S_IFDIR \<and> fops = None
     \<or> mode AND S_IFMT = S_IFREG \<and> (fops = None \<or> fops = Some ''myfs_file_operations'')"

lemma entry_node_ok: "entry_ok mode fops \<Longrightarrow> node_ok (ucast mode, if fops = None then default_fop mode else fops)"
  by (auto simp: entry_ok_def node_ok_def default_fop_def reg_mode_ucast mode_defs(2,3))

lemma entry_file_or_dir: "entry_ok mode fops \<Longrightarrow> file_or_dir mode"
  by (auto simp: entry_ok_def file_or_dir_def)

lemma view_directory:
  assumes "view v k = Some (d, m, f)" and "dir_mode m"
  shows "directory v d"
  using assms by (auto simp: view_inode_at directory_def split: option.splits)

text \<open>
  The module's situation between two creations: a well-formed, well-typed store in which the mounted
  root is a directory. A variable for the parent holds nothing or a directory.
\<close>

definition ready :: "vfs \<Rightarrow> ptr \<Rightarrow> myfs_st \<Rightarrow> bool" where
  "ready V root s \<longleftrightarrow> vstore_wf (st s) \<and> typed V (st s) \<and> default_parent s NULL = Inr root \<and> root \<noteq> NULL
     \<and> directory (st s) root"

definition slot_ok :: "ptr \<Rightarrow> myfs_st \<Rightarrow> bool" where
  "slot_ok d s \<longleftrightarrow> d = NULL \<or> directory (st s) d"

lemma myfs_creat_file_typed:
  assumes laws: "vfs_laws V" and r: "ready V root s" and slot: "slot_ok parent s" and e: "entry_ok mode fops"
  obtains d s' where "myfs_creat_file V s name mode parent NULL fops = Inr (d, s')" and "ready V root s'"
    and "mode AND S_IFMT = S_IFDIR \<longrightarrow> slot_ok d s'" and "\<forall>x. slot_ok x s \<longrightarrow> slot_ok x s'"
proof -
  define p where "p = (if parent = NULL then root else parent)"
  have p: "default_parent s parent = Inr p" "p \<noteq> NULL" "directory (st s) p"
    using r slot default_parent_given [of parent s] by (auto simp: p_def ready_def slot_ok_def)
  let ?x = "(ucast mode, if fops = None then default_fop mode else fops) :: node"
  obtain d s' where run: "myfs_creat_file V s name mode parent NULL fops = Inr (d, s')"
      and c: "creates V s (p, name) ?x d s'"
    using myfs_creat_file_spec [OF laws _ p(1,2) directory_positive [OF p(3)] entry_file_or_dir [OF e]] r
    unfolding ready_def by blast
  have g: "grows (made V ?x) p (st s) (st s')" and wf: "vstore_wf (st s')"
    using c unfolding creates_def by simp_all
  have dirs: "directory (st s) x \<Longrightarrow> directory (st s') x" for x by (rule grows_directory [OF g])
  have "typed V (st s')"
    by (rule grows_typed [OF g _ made_ok [OF _ entry_node_ok [OF e]] dirs [OF p(3)]]) (use r in \<open>simp_all add: ready_def\<close>)
  moreover have "default_parent s' NULL = default_parent s NULL"
    by (rule default_parent_cong) (use c in \<open>simp_all add: creates_def\<close>)
  ultimately have "ready V root s'" using r wf dirs by (simp add: ready_def)
  moreover have "slot_ok d s'" if "mode AND S_IFMT = S_IFDIR"
  proof (cases "d = NULL")
    case False
    then have "view (st s') (p, name) = Some (d, ?x)" using c by (simp add: creates_def)
    then have "directory (st s') d" by (rule view_directory) (use that in simp)
    then show ?thesis by (simp add: slot_ok_def)
  qed (simp add: slot_ok_def)
  ultimately show thesis using that run dirs by (auto simp: slot_ok_def)
qed

lemma myfs_populate_typed:
  assumes laws: "vfs_laws V" and r: "ready V root s" and e: "entry_ok one (Some ''myfs_file_operations'')"
      "entry_ok two (Some ''myfs_file_operations'')"
  shows "\<exists>s'. myfs_populate V one two s = Inr s' \<and> ready V root s'"
proof -
  let ?dir = "S_IFDIR OR S_IRWXU OR S_IRUGO" and ?f = "Some ''myfs_file_operations''"
  let ?rw = "S_IFREG OR S_IRUGO OR S_IWUSR"
  have m: "entry_ok ?dir None" "entry_ok ?rw ?f" "?dir AND S_IFMT = S_IFDIR" by (simp_all add: entry_ok_def mode_defs)
  have null: "slot_ok NULL t" for t by (simp add: slot_ok_def)
  note creat = myfs_creat_file_typed [OF laws]
  obtain d1 s1 where 1: "myfs_creat_file V s ''First'' ?dir NULL NULL None = Inr (d1, s1)" "ready V root s1" "slot_ok d1 s1"
    by (rule creat [OF r null m(1), of "''First''"]) (use m(3) in blast)
  obtain d2 s2 where 2: "myfs_creat_file V s1 ''one'' one d1 NULL ?f = Inr (d2, s2)" "ready V root s2" "slot_ok d1 s2"
    by (rule creat [OF 1(2,3) e(1), of "''one''"]) (use 1(3) in blast)
  obtain d3 s3 where 3: "myfs_creat_file V s2 ''two'' two d1 NULL ?f = Inr (d3, s3)" "ready V root s3"
    by (rule creat [OF 2(2,3) e(2), of "''two''"])
  obtain d4 s4 where 4: "myfs_creat_file V s3 ''Second'' ?dir NULL NULL None = Inr (d4, s4)" "ready V root s4" "slot_ok d4 s4"
    by (rule creat [OF 3(2) null m(1), of "''Second''"]) (use m(3) in blast)
  obtain d5 s5 where 5: "myfs_creat_file V s4 ''one'' ?rw d4 NULL ?f = Inr (d5, s5)" "ready V root s5" "slot_ok d4 s5"
    by (rule creat [OF 4(2,3) m(2), of "''one''"]) (use 4(3) in blast)
  obtain d6 s6 where 6: "myfs_creat_file V s5 ''two'' ?rw d4 NULL ?f = Inr (d6, s6)" "ready V root s6"
    by (rule creat [OF 5(2,3) m(2), of "''two''"])
  show ?thesis using 1 2 3 4 5 6 by (simp add: myfs_populate_def myfs_creat_dir_def)
qed

lemma myfs_mounted_ready:
  assumes "mount_laws V" and "vstore_wf (st s)" and "typed V (st s)" and "supers (st s) = Map.empty"
    and mnt: "kern_mount V (st s) (myfs_get_sb V) = (Inr m, v)"
  obtains root where "ready V root (s\<lparr>klog := l, st := v, myfs_mount := Inr m\<rparr>)"
proof -
  obtain root mt b e X where r: "root \<noteq> NULL" "vstore_wf v" "m \<noteq> NULL" "mounts v m = Some mt" "mnt_sb mt \<noteq> NULL"
      "supers v (mnt_sb mt) = Some b" "s_root b = root" "positive v root" and g: "grows root_inode root (st s) v"
      and X: "dentries v root = Some e" "inodes v (d_inode e) = Some X" "root_inode X"
    using myfs_mount_root [OF assms(1,2,4) mnt] by blast
  have "d_inode e \<noteq> NULL" using r(8) X(1) by (simp add: positive_def)
  then have d: "directory v root" using X by (intro directoryI [of v root e X]) (simp_all add: root_inode_def dir_mode_def)
  have "typed V v" by (rule grows_typed [OF g assms(3) root_inode_ok d])
  then show thesis using r d by (intro that [of root]) (simp add: ready_def default_parent_def)
qed

lemma myfs_init_ready:
  assumes "vfs_laws V" and "mount_laws V" and "mountable V s" and "register_filesystem_ans K (klog s) MYFS = 0"
    and "vstore_wf (st s)" and "typed V (st s)" and "supers (st s) = Map.empty"
    and "entry_ok one (Some ''myfs_file_operations'')" and "entry_ok two (Some ''myfs_file_operations'')"
  shows "\<exists>s' root. myfs_init_with one two V K s = Inr (0, s') \<and> ready V root s'"
proof -
  obtain m v where mnt: "kern_mount V (st s) (myfs_get_sb V) = (Inr m, v)"
    using assms(3) by (cases "kern_mount V (st s) (myfs_get_sb V)") (auto simp: mountable_def split: sum.splits)
  obtain root where "ready V root (s\<lparr>klog := klog s @ [Register_filesystem MYFS 0, Kern_mount MYFS (Inr m)],
      st := v, myfs_mount := Inr m\<rparr>)"
    by (rule myfs_mounted_ready [OF assms(2,5,6,7) mnt])
  from myfs_populate_typed [OF assms(1) this assms(8,9)] show ?thesis
    using assms(4) mnt by (auto simp: myfs_init_with_def)
qed

lemma myfs_modes_ok:
  "entry_ok (S_IFREG OR S_IRUGO OR S_IWUSR) (Some ''myfs_file_operations'')"
  "entry_ok (S_IFREG OR S_IRUGO) (Some ''myfs_file_operations'')"
  "entry_ok (S_IFREG OR S_IRUGO OR S_IWUGO) (Some ''myfs_file_operations'')"
  by (simp_all add: entry_ok_def mode_defs)


text \<open>A VFS that has no inodes left once the root is made.\<close>

definition full_vfs :: vfs where
  "full_vfs = simple_vfs\<lparr>new_inode := \<lambda>v sb. (NULL, v)\<rparr>"

lemma full_vfs_fields:
  "new_inode full_vfs = (\<lambda>v sb. (NULL, v))" "inc_nlink full_vfs = inc_nlink simple_vfs"
  "d_instantiate full_vfs = d_instantiate simple_vfs" "dget full_vfs = dget simple_vfs"
  "lookup_one_len full_vfs = lookup_one_len simple_vfs" "simple_fill_super full_vfs = simple_fill_super simple_vfs"
  "mount_single full_vfs = mount_single simple_vfs" "kern_mount full_vfs = kern_mount simple_vfs"
  by (simp_all add: full_vfs_def)

lemma full_vfs_laws: "vfs_laws full_vfs" "mount_laws full_vfs" "mountable full_vfs (myfs_start l empty_vstore)"
proof -
  have "inc_nlink_law full_vfs = inc_nlink_law simple_vfs" "dentry_laws full_vfs = dentry_laws simple_vfs"
      "lookup_law full_vfs = lookup_law simple_vfs" "mount_laws full_vfs = mount_laws simple_vfs"
    by (simp_all only: inc_nlink_law_def dentry_laws_def lookup_law_def mount_laws_def full_vfs_fields)
  moreover have "new_inode_law full_vfs" by (simp add: new_inode_law_def full_vfs_fields)
  moreover have "mountable full_vfs s = mountable simple_vfs s" for s
    by (simp only: mountable_def myfs_get_sb_def [abs_def] myfs_fill_super_def [abs_def] full_vfs_fields)
  ultimately show "vfs_laws full_vfs" "mount_laws full_vfs" "mountable full_vfs (myfs_start l empty_vstore)"
    using simple_vfs_laws simple_vfs_mounts simple_vfs_mountable [of l] by (simp_all add: vfs_laws_def)
qed

lemma empty_vstore_typed: "typed V empty_vstore"
  by (simp add: typed_def empty_vstore_def)


subsection \<open>Who may open the files\<close>

text \<open>A process; \<open>heap_ok\<close> is whether its \<open>malloc\<close> succeeds.\<close>

record process =
  uid :: u32
  groups :: "u32 list"
  heap_ok :: bool

definition MAY_EXEC :: u16 where "MAY_EXEC = 1"
definition MAY_WRITE :: u16 where "MAY_WRITE = 2"
definition MAY_READ :: u16 where "MAY_READ = 4"

lemmas mask_defs = MAY_EXEC_def MAY_WRITE_def MAY_READ_def

record access =
  may :: "process \<Rightarrow> inode \<Rightarrow> u16 \<Rightarrow> bool"
  path_open :: "process \<Rightarrow> vstore \<Rightarrow> ptr \<Rightarrow> string list \<Rightarrow> u16 \<Rightarrow> bool"
  open_modes :: "u16 \<Rightarrow> u32 \<times> u32"

text \<open>
  The rules of the manual pages. The permission bits that count are those of the owner, the group
  or the others; root may read and write everything and search every directory. A path is followed
  from directory to directory, each of which must be searchable; at its end the asked access is
  checked, and directories cannot be written.
\<close>

definition class_bits :: "process \<Rightarrow> inode \<Rightarrow> u16" where
  "class_bits P i =
     (if i_uid i = uid P then drop_bit 6 (i_mode i)
      else if i_gid i \<in> set (groups P) then drop_bit 3 (i_mode i) else i_mode i) AND 7"

fun walk :: "(inode \<Rightarrow> u16 \<Rightarrow> bool) \<Rightarrow> vstore \<Rightarrow> ptr \<Rightarrow> string list \<Rightarrow> u16 \<Rightarrow> bool" where
  "walk m v d [] acc =
     (case inode_at v d of
        None \<Rightarrow> False
      | Some i \<Rightarrow> m i acc \<and> (acc AND MAY_WRITE = 0 \<or> \<not> dir_mode (i_mode i)))"
| "walk m v d (n # ns) acc =
     (case inode_at v d of
        None \<Rightarrow> False
      | Some i \<Rightarrow> dir_mode (i_mode i) \<and> m i MAY_EXEC
          \<and> (case children v (d, n) of None \<Rightarrow> False | Some d' \<Rightarrow> walk m v d' ns acc))"

definition access_laws :: "access \<Rightarrow> bool" where
  "access_laws A \<longleftrightarrow>
     (\<forall>P i acc. may A P i acc \<longleftrightarrow>
        (if uid P = 0 then dir_mode (i_mode i) \<or> acc AND MAY_EXEC = 0 \<or> i_mode i AND 0x49 \<noteq> 0
         else acc AND NOT (class_bits P i) = 0))
   \<and> (\<forall>P v d path acc. path_open A P v d path acc \<longleftrightarrow> walk (may A P) v d path acc)"

text \<open>
  The four programs with the file each of them names (below the mount point \<^verbatim>\<open>/mnt/myfs\<close>) and the access it asks for.
  \<open>inode\<close> and \<open>file\<close> are the objects the kernel hands to \<open>myfs_file_open\<close>.
\<close>

definition opened_by :: "access \<Rightarrow> process \<Rightarrow> vstore \<Rightarrow> ptr \<Rightarrow> string list \<Rightarrow> u16 \<Rightarrow> user_env" where
  "opened_by A P v root path acc =
     \<lparr>vfs_open = (if path_open A P v root path acc then Some (open_modes A acc) else None), malloc_ok = heap_ok P\<rparr>"

type_synonym 'q test_program =
  "'q kfifo \<Rightarrow> access \<Rightarrow> process \<Rightarrow> vstore \<Rightarrow> ptr \<Rightarrow> kernel \<Rightarrow> open_env \<Rightarrow> ptr \<Rightarrow> ptr \<Rightarrow> 'q myfs_file_st \<Rightarrow>
     kfault + (int \<times> printed) \<times> 'q myfs_file_st"

definition test1 :: "'q test_program" where
  "test1 F A P v root = test_rdwr F (opened_by A P v root [''First'', ''one''] (MAY_READ OR MAY_WRITE))"

definition test2 :: "'q test_program" where
  "test2 F A P v root = test_rdwr F (opened_by A P v root [''First'', ''two''] (MAY_READ OR MAY_WRITE))"

definition test1rdonly :: "'q test_program" where
  "test1rdonly F A P v root = test_rdonly F (opened_by A P v root [''First'', ''one''] MAY_READ)"

definition test2rdonly :: "'q test_program" where
  "test2rdonly F A P v root = test_rdonly F (opened_by A P v root [''First'', ''two''] MAY_READ)"

subsection \<open>Lemmas\<close>

text \<open>A path of two names in the tree, as the path walk sees it.\<close>

lemma stat_path2:
  assumes "stat v root [a] = Some (m, f)" and "stat v root [a, b] = Some (m', f')"
  obtains d d' i i' where "children v (root, a) = Some d" and "inode_at v d = Some i" and "i_mode i = m"
    and "children v (d, b) = Some d'" and "inode_at v d' = Some i'" and "i_mode i' = m'"
proof -
  obtain d where d: "view v (root, a) = Some (d, m, f)" using assms(1) by (auto split: option.splits)
  obtain d' where d': "view v (d, b) = Some (d', m', f')" using assms(2) d by (auto split: option.splits)
  show thesis using that d d' by (auto simp: view_inode_at split: option.splits)
qed

lemma walk_stops:
  assumes "children v (root, a) = Some d" and "inode_at v d = Some i" and "\<not> m i MAY_EXEC"
  shows "\<not> walk m v root [a, b] acc"
  using assms by (simp split: option.split)

lemma walk_through:
  assumes "children v (root, a) = Some d" and "inode_at v d = Some i" and "m i MAY_EXEC" and "dir_mode (i_mode i)"
    and "children v (d, b) = Some d'" and "inode_at v d' = Some i'" and "m i' acc" and "\<not> dir_mode (i_mode i')"
    and "inode_at v root = Some j" and "dir_mode (i_mode j)" and "m j MAY_EXEC"
  shows "walk m v root [a, b] acc"
  using assms by simp

text \<open>\<open>First\<close> has mode 0744: its search bit is set for the owner only.\<close>

lemma stranger_stopped:
  assumes A: "access_laws A" and u: "uid P \<noteq> 0" "i_uid i = 0" and m: "i_mode i = 0x41E4"
  shows "\<not> may A P i MAY_EXEC"
proof -
  have "class_bits P i = 4" using u m by (simp add: class_bits_def)
  moreover have "may A P i MAY_EXEC \<longleftrightarrow> MAY_EXEC AND NOT (class_bits P i) = 0"
    using A u(1) unfolding access_laws_def by simp
  ultimately show ?thesis by (simp add: MAY_EXEC_def)
qed

lemma root_may:
  assumes "access_laws A" and "uid P = 0"
  shows "dir_mode (i_mode i) \<Longrightarrow> may A P i acc" and "acc AND MAY_EXEC = 0 \<Longrightarrow> may A P i acc"
  using assms unfolding access_laws_def by simp_all

lemma files_of_First:
  assumes A: "access_laws A" and t: "typed V v" "current_fsuid V = 0" and d: "directory v root"
    and First: "stat v root [''First''] = Some (0x41E4, f)" and entry: "stat v root [''First'', n] = Some (m, g)"
    and reg: "\<not> dir_mode m" and acc: "acc AND MAY_EXEC = 0"
  shows "path_open A P v root [''First'', n] acc \<longleftrightarrow> uid P = 0"
proof -
  obtain d d' i i' where c: "children v (root, ''First'') = Some d" "inode_at v d = Some i" "i_mode i = 0x41E4"
      "children v (d, n) = Some d'" "inode_at v d' = Some i'" "i_mode i' = m"
    by (rule stat_path2 [OF First entry])
  obtain j where j: "inode_at v root = Some j" "dir_mode (i_mode j)"
    using d by (auto simp: directory_def split: option.splits)
  have "i_uid i = 0"
    using t c(2) by (auto simp: typed_def inode_ok_def inode_at_def split: option.splits if_splits)
  then have "\<not> walk (may A P) v root [''First'', n] acc" if "uid P \<noteq> 0"
    using walk_stops [OF c(1,2)] stranger_stopped [OF A that _ c(3)] by blast
  moreover have "walk (may A P) v root [''First'', n] acc" if "uid P = 0"
  proof -
    have "dir_mode (i_mode i)" "\<not> dir_mode (i_mode i')" using c(3,6) reg by (simp_all add: dir_mode_def)
    with root_may [OF A that] show ?thesis
      by (intro walk_through [OF c(1,2) _ _ c(4,5) _ _ j]) (simp_all add: j(2) acc)
  qed
  ultimately show ?thesis using A unfolding access_laws_def by blast
qed

lemma myfs_loaded:
  assumes "vfs_laws V" and "vfs_grants V" and "mount_laws V" and "mountable V s"
    and "vstore_wf (st s)" and "supers (st s) = Map.empty" and "room (st s) 8"
    and "register_filesystem_ans K (klog s) MYFS = 0" and "typed V (st s)"
    and "init = myfs_init \<or> init = myfs_init_ubuntu"
  obtains s' root one two where "init V K s = Inr (0, s')" and "ready V root s'"
    and "\<And>path. stat (st s') root path = map_of (myfs_layout one two) path" and "\<not> dir_mode one" and "\<not> dir_mode two"
proof -
  obtain m1 m2 where init: "init = myfs_init_with m1 m2" and m: "file_or_dir m1" "file_or_dir m2"
      and ok: "entry_ok m1 (Some ''myfs_file_operations'')" "entry_ok m2 (Some ''myfs_file_operations'')"
    using assms(10) myfs_modes myfs_modes_ok by (auto simp: myfs_init_def myfs_init_ubuntu_def)
  obtain s' root where t: "myfs_init_with m1 m2 V K s = Inr (0, s')" "default_parent s' NULL = Inr root"
      "\<forall>path. stat (st s') root path = map_of (myfs_layout (ucast m1) (ucast m2)) path"
    using myfs_init_with_tree [OF assms(1-8) m] by blast
  obtain s'' root' where "myfs_init_with m1 m2 V K s = Inr (0, s'')" "ready V root' s''"
    using myfs_init_ready [OF assms(1,3,4,8,5,9,6) ok] by blast
  then have "ready V root s'" using t by (simp add: ready_def)
  moreover have "\<not> dir_mode (ucast m1)" "\<not> dir_mode (ucast m2)" using ok by (auto simp: entry_ok_def mode_defs)
  ultimately show thesis using that t init by blast
qed

definition wrong_open :: "int \<times> printed" where
  "wrong_open = (- 1, [(''wrong open'' @ nl, [])])"

lemma test_refused:
  "vfs_open U = None \<Longrightarrow> test_rdwr F U K E inode file t = Inr (wrong_open, t)"
  "vfs_open U = None \<Longrightarrow> test_rdonly F U K E inode file t = Inr (wrong_open, t)"
  by (simp_all add: test_rdwr_def test_rdonly_def open_file_def wrong_open_def)

lemma read_and_print_status: "read_and_print F U file t = Inr ((r, out), t') \<Longrightarrow> r = 0"
  by (auto simp: read_and_print_def Let_def split: if_splits prod.splits option.splits sum.splits)

lemma test_let_in:
  assumes "vfs_open U \<noteq> None" and "\<forall>l. kmalloc_ans K l 24 \<noteq> NULL" and "\<forall>l. current_uid_val K l = 0"
  shows "test_rdwr F U K E inode file t \<noteq> Inr (wrong_open, t')"
    and "test_rdonly F U K E inode file t \<noteq> Inr (wrong_open, t')"
proof -
  obtain t1 where o: "open_file U K E inode file t = (True, t1)" using open_file_root [OF assms] by blast
  show "test_rdonly F U K E inode file t \<noteq> Inr (wrong_open, t')"
    by (auto simp: test_rdonly_def o wrong_open_def dest: read_and_print_status)
  show "test_rdwr F U K E inode file t \<noteq> Inr (wrong_open, t')"
    by (auto simp: test_rdwr_def o wrong_open_def split: prod.splits if_splits dest: read_and_print_status)
qed

lemma test_program_by_user:
  assumes "\<And>n acc. n \<in> {''one'', ''two''} \<Longrightarrow> acc \<in> {MAY_READ, MAY_READ OR MAY_WRITE} \<Longrightarrow>
      path_open A P v root [''First'', n] acc \<longleftrightarrow> uid P = 0"
    and "prog \<in> {test1, test2, test1rdonly, test2rdonly}"
  shows "uid P \<noteq> 0 \<Longrightarrow> prog F A P v root K E inode file t = Inr (wrong_open, t)"
    and "uid P = 0 \<Longrightarrow> \<forall>l. kmalloc_ans K l 24 \<noteq> NULL \<Longrightarrow> \<forall>l. current_uid_val K l = 0 \<Longrightarrow>
      prog F A P v root K E inode file t \<noteq> Inr (wrong_open, t')"
proof -
  have v: "vfs_open (opened_by A P v root [''First'', n] acc) = (if uid P = 0 then Some (open_modes A acc) else None)"
    if "n \<in> {''one'', ''two''}" "acc \<in> {MAY_READ, MAY_READ OR MAY_WRITE}" for n acc
    using assms(1) [OF that] by (simp add: opened_by_def)
  show "prog F A P v root K E inode file t = Inr (wrong_open, t)" if "uid P \<noteq> 0"
    using assms(2) v that
    by (auto simp: test1_def test2_def test1rdonly_def test2rdonly_def intro!: test_refused)
  show "prog F A P v root K E inode file t \<noteq> Inr (wrong_open, t')"
    if "uid P = 0" "\<forall>l. kmalloc_ans K l 24 \<noteq> NULL" "\<forall>l. current_uid_val K l = 0"
  proof -
    have w: "vfs_open (opened_by A P v root [''First'', n] acc) \<noteq> None"
      if "n \<in> {''one'', ''two''}" "acc \<in> {MAY_READ, MAY_READ OR MAY_WRITE}" for n acc
      using v [OF that] \<open>uid P = 0\<close> by simp
    note let_in = test_let_in [OF w that(2,3)]
    show ?thesis using assms(2) unfolding test1_def test2_def test1rdonly_def test2rdonly_def
      by (elim insertE emptyE; hypsubst; intro let_in; simp)
  qed
qed

text \<open>
  Property C18. Only root can use the files: after loading either version as root, each of the four
  test programs run by any other user prints \<open>wrong open\<close> and \<open>myfs_file_open\<close> is never called,
  although \<open>First/one\<close> may be read, and in the version for Ubuntu written, by everyone. The
  reason is the directory \<open>First\<close>, made with mode 0744, which only its owner may search. Run by root
  every program gets past its \<open>open\<close>.
\<close>

theorem test_programs_access:
  assumes "vfs_laws V" and "vfs_grants V" and "mount_laws V" and "mountable V s"
    and "vstore_wf (st s)" and "supers (st s) = Map.empty" and "room (st s) 8"
    and "register_filesystem_ans K (klog s) MYFS = 0" and "typed V (st s)"
    and "init = myfs_init \<or> init = myfs_init_ubuntu"
    and A: "access_laws A" and root: "current_fsuid V = 0"
  shows "\<exists>s' root. init V K s = Inr (0, s') \<and> default_parent s' NULL = Inr root
     \<and> (\<forall>prog \<in> {test1, test2, test1rdonly, test2rdonly}. \<forall>F P K' E inode file t.
          (uid P \<noteq> 0 \<longrightarrow> prog F A P (st s') root K' E inode file t = Inr (wrong_open, t))
        \<and> (uid P = 0 \<longrightarrow> (\<forall>l. kmalloc_ans K' l 24 \<noteq> NULL) \<longrightarrow> (\<forall>l. current_uid_val K' l = 0) \<longrightarrow>
             (\<forall>t'. prog F A P (st s') root K' E inode file t \<noteq> Inr (wrong_open, t'))))"
proof -
  obtain s' root one two where l: "init V K s = Inr (0, s')" "ready V root s'"
      "\<And>path. stat (st s') root path = map_of (myfs_layout one two) path" "\<not> dir_mode one" "\<not> dir_mode two"
    using myfs_loaded [OF assms(1-10)] by blast
  have First: "stat (st s') root [''First''] = Some (0x41E4, Some ''simple_dir_operations'')"
    and one: "stat (st s') root [''First'', ''one''] = Some (one, Some ''myfs_file_operations'')"
    and two: "stat (st s') root [''First'', ''two''] = Some (two, Some ''myfs_file_operations'')"
    unfolding l(3) by (simp_all add: myfs_layout_def)
  have r: "typed V (st s')" "directory (st s') root" "default_parent s' NULL = Inr root"
    using l(2) by (simp_all add: ready_def)
  have x: "(MAY_READ OR MAY_WRITE) AND MAY_EXEC = 0" "MAY_READ AND MAY_EXEC = 0" by (simp_all add: mask_defs)
  note opens = files_of_First [OF A r(1) root r(2) First one l(4)] files_of_First [OF A r(1) root r(2) First two l(5)]
  have "path_open A P (st s') root [''First'', n] acc \<longleftrightarrow> uid P = 0"
    if "n \<in> {''one'', ''two''}" "acc \<in> {MAY_READ, MAY_READ OR MAY_WRITE}" for P n acc
    using that opens x by auto
  note user = test_program_by_user [OF this]
  show ?thesis
    by (intro exI [of _ s'] exI [of _ root] conjI ballI allI impI l(1) r(3)) (rule user; assumption)+
qed

text \<open>Access checks as the manual pages have them, and an ordinary user.\<close>

definition manual_may :: "process \<Rightarrow> inode \<Rightarrow> u16 \<Rightarrow> bool" where
  "manual_may P i acc =
     (if uid P = 0 then dir_mode (i_mode i) \<or> acc AND MAY_EXEC = 0 \<or> i_mode i AND 0x49 \<noteq> 0
      else acc AND NOT (class_bits P i) = 0)"

definition manual_access :: access where
  "manual_access = \<lparr>may = manual_may, path_open = (\<lambda>P. walk (manual_may P)), open_modes = (\<lambda>_. (3, 2))\<rparr>"

definition alice :: process where
  "alice = \<lparr>uid = 1000, groups = [1000, 4], heap_ok = True\<rparr>"

lemma manual_access_laws: "access_laws manual_access"
  by (simp add: access_laws_def manual_access_def manual_may_def)

theorem test_programs_access_witness:
  "\<exists>s' root. myfs_init_ubuntu simple_vfs granting_kernel (myfs_start [] empty_vstore) = Inr (0, s')
     \<and> test1 list_kfifo manual_access alice (st s') root user_kernel (some_env 0) 1 2 (myfs_file_start [] [])
         = Inr (wrong_open, myfs_file_start [] [])"
proof -
  have s: "st (myfs_start [] empty_vstore) = empty_vstore" by (simp add: myfs_start_def)
  have c: "register_filesystem_ans granting_kernel (klog (myfs_start [] empty_vstore)) MYFS = 0"
      "current_fsuid simple_vfs = 0" "uid alice \<noteq> 0"
    by (simp_all add: granting_kernel_def simple_vfs_def alice_def)
  show ?thesis
    using test_programs_access [of simple_vfs "myfs_start [] empty_vstore" granting_kernel myfs_init_ubuntu manual_access,
        OF simple_vfs_laws simple_vfs_grants simple_vfs_mounts simple_vfs_mountable _ _ _ c(1) _ _ manual_access_laws c(2)]
      empty_vstore_facts empty_vstore_typed c(3)
    by (fastforce simp: s)
qed

end
