(* ===== verification/Myfs_Ubuntu.thy ===== *)
theory Myfs_Ubuntu
  imports Myfs_Tree Myfs_File
begin

unbundle bit_operations_syntax

section \<open>The file system of the course design: the version for Ubuntu\<close>

text \<open>
  \<^verbatim>\<open>src/course_design/myfs_kernel_ubuntu.c\<close>, translated a second time and statement by statement: every
  assignment through a pointer is a step of its own, in the order of the source, in the option
  monad (\<open>None\<close> is a fault), with the state passed along. \<open>Myfs_Tree\<close> and \<open>Myfs_File\<close> translate the
  sister file \<^verbatim>\<open>myfs_kernel.c\<close> into bigger steps. That both agree function by function is the
  equivalence below: the port changes the modes of two files and leaves out the permission check of
  \<open>open\<close>, and nothing else. The names are those of the source with the suffix \<open>_u\<close>.
\<close>

subsection \<open>Statements\<close>

text \<open>An assignment to a field of the inode at \<open>p\<close>, and a call of a VFS function for its effect.\<close>

definition assign :: "ptr \<Rightarrow> (inode \<Rightarrow> inode) \<Rightarrow> myfs_st \<Rightarrow> myfs_st option" where
  "assign p f s = do {
     i \<leftarrow> inodes (st s) p;
     Some (s\<lparr>st := (st s)\<lparr>inodes := (inodes (st s))(p \<mapsto> f i)\<rparr>\<rparr>)
   }"

definition vfs_call :: "(vstore \<Rightarrow> vstore) \<Rightarrow> myfs_st \<Rightarrow> myfs_st" where
  "vfs_call f s = s\<lparr>st := f (st s)\<rparr>"

definition log_call :: "kevent \<Rightarrow> myfs_st \<Rightarrow> myfs_st" where
  "log_call e s = s\<lparr>klog := klog s @ [e]\<rparr>"

subsection \<open>Inodes and directory entries\<close>

definition myfs_get_inode_u :: "vfs \<Rightarrow> ptr \<Rightarrow> u32 \<Rightarrow> u32 \<Rightarrow> myfs_st \<Rightarrow> (ptr \<times> myfs_st) option" where
  "myfs_get_inode_u V sb mode dev s = do {
     let (inode, v) = new_inode V (st s) sb;
     let s = s\<lparr>st := v\<rparr>;
     s \<leftarrow> (if inode \<noteq> NULL then do {
         s \<leftarrow> assign inode (\<lambda>i. i\<lparr>i_mode := ucast mode\<rparr>) s;
         s \<leftarrow> assign inode (\<lambda>i. i\<lparr>i_uid := current_fsuid V\<rparr>) s;
         s \<leftarrow> assign inode (\<lambda>i. i\<lparr>i_gid := current_fsgid V\<rparr>) s;
         s \<leftarrow> assign inode (\<lambda>i. i\<lparr>i_size := VMACACHE_SIZE\<rparr>) s;
         s \<leftarrow> assign inode (\<lambda>i. i\<lparr>i_blocks := 0\<rparr>) s;
         s \<leftarrow> assign inode (\<lambda>i. i\<lparr>i_time := current_time V v\<rparr>) s;
         if mode AND S_IFMT = S_IFREG then Some (log_call (Printk (''creat a file, LAE'' @ nl) []) s)
         else if mode AND S_IFMT = S_IFDIR then do {
           let s = log_call (Printk (''creat a dir, LAE'' @ nl) []) s;
           s \<leftarrow> assign inode (\<lambda>i. i\<lparr>i_op := Some ''simple_dir_inode_operations''\<rparr>) s;
           s \<leftarrow> assign inode (\<lambda>i. i\<lparr>i_fop := Some ''simple_dir_operations''\<rparr>) s;
           Some (vfs_call (\<lambda>v. inc_nlink V v inode) s)
         }
         else Some (vfs_call (\<lambda>v. init_special_inode V v inode mode dev) s)
       } else Some s);
     Some (inode, s)
   }"

definition myfs_mknod_u :: "vfs \<Rightarrow> ptr \<Rightarrow> ptr \<Rightarrow> u32 \<Rightarrow> u32 \<Rightarrow> myfs_st \<Rightarrow> (int \<times> myfs_st) option" where
  "myfs_mknod_u V dir dentry mode dev s = do {
     let error = - EPERM;
     d \<leftarrow> dentries (st s) dentry;
     if d_inode d \<noteq> NULL then Some (- EPERM, s)
     else do {
       i \<leftarrow> inodes (st s) dir;
       (inode, s) \<leftarrow> myfs_get_inode_u V (i_sb i) mode dev s;
       let (error, s) =
         (if inode \<noteq> NULL
          then (0, vfs_call (\<lambda>v. dget V v dentry) (vfs_call (\<lambda>v. d_instantiate V v dentry inode) s))
          else (error, s));
       Some (error, s)
     }
   }"

definition myfs_mkdir_u :: "vfs \<Rightarrow> ptr \<Rightarrow> ptr \<Rightarrow> u32 \<Rightarrow> myfs_st \<Rightarrow> (int \<times> myfs_st) option" where
  "myfs_mkdir_u V dir dentry mode s = do {
     (res, s) \<leftarrow> myfs_mknod_u V dir dentry (mode OR S_IFDIR) 0 s;
     let s = (if res = 0 then vfs_call (\<lambda>v. inc_nlink V v dir) s else s);
     Some (res, s)
   }"

definition myfs_creat_u :: "vfs \<Rightarrow> ptr \<Rightarrow> ptr \<Rightarrow> u32 \<Rightarrow> myfs_st \<Rightarrow> (int \<times> myfs_st) option" where
  "myfs_creat_u V dir dentry mode s = myfs_mknod_u V dir dentry (mode OR S_IFREG) 0 s"

text \<open>The default parent: following \<open>myfs_mount\<close> when it is an error pointer is a fault.\<close>

definition find_parent_u :: "ptr \<Rightarrow> myfs_st \<Rightarrow> ptr option" where
  "find_parent_u parent s =
     (if parent = NULL
      then case myfs_mount s of
          Inl _ \<Rightarrow> None
        | Inr m \<Rightarrow> if m = NULL then Some parent
            else do {
              mnt \<leftarrow> mounts (st s) m;
              if mnt_sb mnt = NULL then Some parent
              else do { sb \<leftarrow> supers (st s) (mnt_sb mnt); Some (s_root sb) }
            }
      else Some parent)"

text \<open>
  The result has the error code, and what \<^verbatim>\<open>*dentry\<close> holds at the end (\<open>Inl\<close> for an error pointer; the
  caller has initialised it with a null pointer).
\<close>

definition myfs_creat_by_name_u ::
  "vfs \<Rightarrow> string \<Rightarrow> u32 \<Rightarrow> ptr \<Rightarrow> myfs_st \<Rightarrow> (int \<times> (int + ptr) \<times> myfs_st) option" where
  "myfs_creat_by_name_u V name mode parent s = do {
     let error = 0;
     parent \<leftarrow> find_parent_u parent s;
     if parent = NULL then Some (- EFAULT, Inr NULL, log_call (Printk ''can't find a parent'' []) s)
     else do {
       pd \<leftarrow> dentries (st s) parent;
       _ \<leftarrow> (if d_inode pd = NULL then None else Some ());
       let s = log_call (Inode_lock (d_inode pd)) s;
       let (dentry, v) = lookup_one_len V (st s) name parent;
       let s = s\<lparr>st := v\<rparr>;
       (error, s) \<leftarrow> (case dentry of
           Inl _ \<Rightarrow> Some (error, s)
         | Inr d \<Rightarrow>
             if mode AND S_IFMT = S_IFDIR then myfs_mkdir_u V (d_inode pd) d mode s
             else myfs_creat_u V (d_inode pd) d mode s);
       let error = (case dentry of Inl e \<Rightarrow> e | Inr _ \<Rightarrow> error);
       let s = log_call (Inode_unlock (d_inode pd)) s;
       Some (error, dentry, s)
     }
   }"

definition myfs_creat_file_u ::
  "vfs \<Rightarrow> string \<Rightarrow> u32 \<Rightarrow> ptr \<Rightarrow> ptr \<Rightarrow> string option \<Rightarrow> myfs_st \<Rightarrow> (ptr \<times> myfs_st) option" where
  "myfs_creat_file_u V name mode parent data fops s = do {
     let s = log_call (Printk creating_msg [KStr name]) s;
     (error, dentry, s) \<leftarrow> myfs_creat_by_name_u V name mode parent s;
     if error \<noteq> 0 then Some (NULL, s)
     else do {
       dentry \<leftarrow> (case dentry of Inl _ \<Rightarrow> None | Inr d \<Rightarrow> Some d);
       d \<leftarrow> dentries (st s) dentry;
       s \<leftarrow> (if d_inode d \<noteq> NULL then do {
           s \<leftarrow> (if data \<noteq> NULL then assign (d_inode d) (\<lambda>i. i\<lparr>i_private := data\<rparr>) s else Some s);
           if fops \<noteq> None then assign (d_inode d) (\<lambda>i. i\<lparr>i_fop := fops\<rparr>) s else Some s
         } else Some s);
       Some (dentry, s)
     }
   }"

definition myfs_creat_dir_u :: "vfs \<Rightarrow> string \<Rightarrow> ptr \<Rightarrow> myfs_st \<Rightarrow> (ptr \<times> myfs_st) option" where
  "myfs_creat_dir_u V name parent s = myfs_creat_file_u V name (S_IFDIR OR S_IRWXU OR S_IRUGO) parent NULL None s"

subsection \<open>Mounting, loading and unloading\<close>

definition myfs_fill_super_u :: "vfs \<Rightarrow> vstore \<Rightarrow> ptr \<Rightarrow> int \<times> vstore" where
  "myfs_fill_super_u V v sb = simple_fill_super V v sb MYFS_MAGIC ['''']"

definition myfs_get_sb_u :: "vfs \<Rightarrow> vstore \<Rightarrow> (int + ptr) \<times> vstore" where
  "myfs_get_sb_u V v = mount_single V v (myfs_fill_super_u V)"

definition myfs_entries_u :: "vfs \<Rightarrow> myfs_st \<Rightarrow> myfs_st option" where
  "myfs_entries_u V s = do {
     (pslot, s) \<leftarrow> myfs_creat_dir_u V ''First'' NULL s;
     (_, s) \<leftarrow> myfs_creat_file_u V ''one'' (S_IFREG OR S_IRUGO OR S_IWUGO) pslot NULL (Some ''myfs_file_operations'') s;
     (_, s) \<leftarrow> myfs_creat_file_u V ''two'' (S_IFREG OR S_IRUGO OR S_IWUSR) pslot NULL (Some ''myfs_file_operations'') s;
     (pslot, s) \<leftarrow> myfs_creat_dir_u V ''Second'' NULL s;
     (_, s) \<leftarrow> myfs_creat_file_u V ''one'' (S_IFREG OR S_IRUGO OR S_IWUSR) pslot NULL (Some ''myfs_file_operations'') s;
     (_, s) \<leftarrow> myfs_creat_file_u V ''two'' (S_IFREG OR S_IRUGO OR S_IWUSR) pslot NULL (Some ''myfs_file_operations'') s;
     Some s
   }"

definition myfs_init_u :: "vfs \<Rightarrow> kernel \<Rightarrow> myfs_st \<Rightarrow> (int \<times> myfs_st) option" where
  "myfs_init_u V K s = do {
     let retval = register_filesystem_ans K (klog s) MYFS;
     let s = log_call (Register_filesystem MYFS retval) s;
     let (m, v) = (if retval = 0 then kern_mount V (st s) (myfs_get_sb_u V) else (myfs_mount s, st s));
     let s = (if retval = 0 then (log_call (Kern_mount MYFS m) s)\<lparr>st := v, myfs_mount := m\<rparr> else s);
     if retval = 0 \<and> (case m of Inl _ \<Rightarrow> True | Inr _ \<Rightarrow> False)
     then do {
       let s = log_call (Printk (''--ERROR:aufs could not mount!--'' @ nl) []) s;
       let s = log_call (Unregister_filesystem MYFS) s;
       Some (retval, s)
     }
     else do {
       s \<leftarrow> myfs_entries_u V s;
       Some (retval, s)
     }
   }"

definition myfs_exit_u :: "kernel \<Rightarrow> myfs_st \<Rightarrow> myfs_st" where
  "myfs_exit_u K s =
     (let s = log_call (Simple_release_fs (myfs_mount s)) s;
          s = s\<lparr>myfs_mount_count := myfs_mount_count s - 1\<rparr>;
          s = (if myfs_mount_count s = 0 then s\<lparr>myfs_mount := Inr NULL\<rparr> else s)
      in log_call (Unregister_filesystem MYFS) s)"

subsection \<open>File operations\<close>

text \<open>
  \<open>ktime_get_real_ts64\<close> fills in the time and leaves the counter as \<open>kmalloc\<close> returned it; the
  increment is a statement of its own.
\<close>

definition myfs_file_open_u ::
  "kernel \<Rightarrow> open_env \<Rightarrow> ptr \<Rightarrow> ptr \<Rightarrow> u32 \<Rightarrow> u32 \<Rightarrow> ('q myfs_file_st, int) state" where
  "myfs_file_open_u K E inode file f_mode f_flags = do {
     printk ''File open called.'' [];
     printk water_and_fire [];
     info \<leftarrow> kmalloc K 24;
     if info = NULL then do {
       printk (KERN_ALERT @ ''myfs: Failed to allocate memory for file info'' @ nl) [];
       State_Monad.return (- ENOMEM)
     } else do {
       modify (\<lambda>s. s\<lparr>infos := (infos s)(info \<mapsto> \<lparr>open_time = now_sec E (klog s), open_count = kmalloc_junk E (klog s)\<rparr>)\<rparr>);
       modify (\<lambda>s. s\<lparr>infos := (infos s)(info := map_option (\<lambda>i. i\<lparr>open_count := open_count i + 1\<rparr>) (infos s info))\<rparr>);
       modify (\<lambda>s. s\<lparr>file_private := (file_private s)(file \<mapsto> info)\<rparr>);
       i \<leftarrow> gets (\<lambda>s. the (infos s info));
       printk (''Recorded file operation: open_time=%lld, open_count=%d, LAE'' @ nl)
         [KInt (sint (open_time i)), KInt (sint (open_count i))];
       printk (''File opened: inode=%p, file->f_mode=%x, file->f_flags=%x, LAE'' @ nl)
         [KPtr inode, KInt (uint f_mode), KInt (uint f_flags)];
       State_Monad.return 0
     }
   }"

definition myfs_file_read_u :: "'q kfifo \<Rightarrow> u64 \<Rightarrow> u64 \<Rightarrow> ('q myfs_file_st, int \<times> bytes) state" where
  "myfs_file_read_u F cnt ppos = do {
     (ret, actual_readed) \<leftarrow> gets (\<lambda>s. case kfifo_to_user F (mydemo_fifo s) cnt of (r, data, q) \<Rightarrow> (r, data));
     modify (\<lambda>s. s\<lparr>mydemo_fifo := snd (snd (kfifo_to_user F (mydemo_fifo s) cnt))\<rparr>);
     if ret \<noteq> 0 then State_Monad.return (- EIO, actual_readed)
     else do {
       printk (''File read: actual_readed=%d, pos=%lld, LAE'' @ nl) [KInt (int (length actual_readed)), KInt (sint ppos)];
       State_Monad.return (int (length actual_readed), actual_readed)
     }
   }"

definition myfs_file_write_u :: "'q kfifo \<Rightarrow> bytes \<Rightarrow> u64 \<Rightarrow> ('q myfs_file_st, int) state" where
  "myfs_file_write_u F buf ppos = do {
     (ret, actual_write) \<leftarrow> gets (\<lambda>s. case kfifo_from_user F (mydemo_fifo s) buf of (r, n, q) \<Rightarrow> (r, n));
     modify (\<lambda>s. s\<lparr>mydemo_fifo := snd (snd (kfifo_from_user F (mydemo_fifo s) buf))\<rparr>);
     if ret \<noteq> 0 then State_Monad.return (- EIO)
     else do {
       printk (''File write: actual_write=%d, ppos=%lld, LAE'' @ nl) [KInt (int actual_write), KInt (sint ppos)];
       State_Monad.return (int actual_write)
     }
   }"

text \<open>The record is read only after the first five messages.\<close>

definition myfs_file_release_u :: "ptr \<Rightarrow> 'q myfs_file_st \<Rightarrow> (int \<times> 'q myfs_file_st) option" where
  "myfs_file_release_u file s = do {
     info \<leftarrow> file_private s file;
     let s = snd (run_state (do {
       printk ''File release called, LAE.'' [];
       printk ''It is required to print auther name here, but I don't want to do so.'' [];
       printk ''So let's write something else here'' [];
       printk ''Why Linux is so hard to learn? But a fancinating OS?'' [];
       printk ''I have used Unix based OS since I was 14 years old. But for a very long time, I havn't learned about its kernel.'' [] }) s);
     i \<leftarrow> infos s info;
     let s = snd (run_state (printk (''File released: open_time=%lld, open_count=%d, LAE'' @ nl)
       [KInt (sint (open_time i)), KInt (sint (open_count i))]) s);
     let s = snd (run_state (kfree info) s);
     Some (0, s\<lparr>infos := (infos s)(info := None)\<rparr>)
   }"

subsection \<open>Equivalence with the other version\<close>

text \<open>A result of the other translation, with the fault as \<open>None\<close>.\<close>

definition returns :: "kfault + 'a \<Rightarrow> 'a option" where
  "returns r = (case r of Inl _ \<Rightarrow> None | Inr x \<Rightarrow> Some x)"

lemma returns_simps [simp]: "returns (Inr x) = Some x" "returns (Inl e) = None"
  by (simp_all add: returns_def)

lemma returns_and_then: "returns (and_then r f) = Option.bind (returns r) (\<lambda>x. returns (f x))"
  by (cases r) simp_all

lemma returns_deref: "returns (deref m p) = m p"
  by (simp add: deref_def returns_def split: option.split)

lemma returns_if: "returns (if b then x else y) = (if b then returns x else returns y)"
  by simp

lemma returns_prod: "returns (case p of (a, b) \<Rightarrow> f a b) = (case p of (a, b) \<Rightarrow> returns (f a b))"
  by (cases p) simp

lemma returns_upd_inode: "returns (upd_inode p f s) = assign p f s"
  by (simp add: upd_inode_def returns_and_then returns_deref assign_def)

lemmas returns = returns_and_then returns_deref returns_if returns_prod returns_upd_inode Let_def

lemma log_call_say: "log_call (Printk fmt args) s = say fmt args s"
  by (simp add: log_call_def say_def)

text \<open>Two assignments to one inode are one.\<close>

lemma assign_assign:
  "Option.bind (assign p f s) (\<lambda>s. Option.bind (assign p g s) h) = Option.bind (assign p (\<lambda>i. g (f i)) s) h"
  by (cases "inodes (st s) p") (simp_all add: assign_def)

lemma get_inode_equiv: "myfs_get_inode_u V sb mode dev s = returns (myfs_get_inode V s sb mode dev)"
  unfolding myfs_get_inode_u_def myfs_get_inode_def
  by (auto simp: returns assign_assign log_call_say vfs_call_def split: prod.split intro!: Option.bind_cong)

lemma mknod_equiv: "myfs_mknod_u V dir dentry mode dev s = returns (myfs_mknod V s dir dentry mode dev)"
  unfolding myfs_mknod_u_def myfs_mknod_def
  by (auto simp: returns get_inode_equiv vfs_call_def split: prod.split intro!: Option.bind_cong)

lemma mkdir_equiv: "myfs_mkdir_u V dir dentry mode s = returns (myfs_mkdir V s dir dentry mode)"
  and creat_equiv: "myfs_creat_u V dir dentry mode s = returns (myfs_creat V s dir dentry mode)"
  unfolding myfs_mkdir_u_def myfs_mkdir_def myfs_creat_u_def myfs_creat_def
  by (auto simp: returns mknod_equiv vfs_call_def split: prod.split intro!: Option.bind_cong)

lemma find_parent_equiv: "find_parent_u parent s = returns (default_parent s parent)"
  unfolding find_parent_u_def default_parent_def
  by (auto simp: returns split: sum.split intro!: Option.bind_cong)

lemma creat_by_name_equiv:
  "myfs_creat_by_name_u V name mode parent s = returns (myfs_creat_by_name V s name mode parent)"
  unfolding myfs_creat_by_name_u_def myfs_creat_by_name_def
  by (auto simp: returns find_parent_equiv mkdir_equiv creat_equiv log_call_say split: prod.split sum.split intro!: Option.bind_cong)
    (auto simp: log_call_def)

lemma apply_file_ops_equiv:
  "returns (apply_file_ops dentry data fops s) = do {
     d \<leftarrow> dentries (st s) dentry;
     s \<leftarrow> (if d_inode d \<noteq> NULL then do {
         s \<leftarrow> (if data \<noteq> NULL then assign (d_inode d) (\<lambda>i. i\<lparr>i_private := data\<rparr>) s else Some s);
         if fops \<noteq> None then assign (d_inode d) (\<lambda>i. i\<lparr>i_fop := fops\<rparr>) s else Some s
       } else Some s);
     Some (dentry, s)
   }"
  unfolding apply_file_ops_def
  by (auto simp: returns simp del: not_None_eq intro!: Option.bind_cong)

lemma creat_file_equiv:
  "myfs_creat_file_u V name mode parent data fops s = returns (myfs_creat_file V s name mode parent data fops)"
  unfolding myfs_creat_file_u_def myfs_creat_file_def
  by (auto simp: returns creat_by_name_equiv apply_file_ops_equiv log_call_say simp del: not_None_eq
      split: prod.split sum.split intro!: Option.bind_cong)

lemma creat_dir_equiv: "myfs_creat_dir_u V name parent s = returns (myfs_creat_dir V s name parent)"
  by (simp add: myfs_creat_dir_u_def myfs_creat_dir_def creat_file_equiv)

lemma get_sb_equiv: "myfs_get_sb_u = myfs_get_sb"
  by (simp add: fun_eq_iff myfs_get_sb_u_def myfs_get_sb_def myfs_fill_super_u_def [abs_def] myfs_fill_super_def [abs_def])

lemma entries_equiv:
  "myfs_entries_u V s =
     returns (myfs_populate V (S_IFREG OR S_IRUGO OR S_IWUGO) (S_IFREG OR S_IRUGO OR S_IWUSR) s)"
  unfolding myfs_entries_u_def myfs_populate_def
  by (auto simp only: returns creat_file_equiv creat_dir_equiv returns_simps split: prod.split intro!: Option.bind_cong)

lemma init_equiv: "myfs_init_u V K s = returns (myfs_init_ubuntu V K s)"
proof (cases "register_filesystem_ans K (klog s) MYFS = 0")
  case True
  obtain m v where "kern_mount V (st s) (myfs_get_sb V) = (m, v)" by fastforce
  then show ?thesis using True
    unfolding myfs_init_u_def myfs_init_ubuntu_def myfs_init_with_def
    by (cases m) (simp_all add: returns entries_equiv get_sb_equiv log_call_say [symmetric], simp_all add: log_call_def entries_equiv)
next
  case False
  then show ?thesis
    unfolding myfs_init_u_def myfs_init_ubuntu_def myfs_init_with_def
    by (simp add: returns entries_equiv, simp add: log_call_def)
qed

lemma exit_equiv: "myfs_exit_u K s = myfs_exit K s"
  by (simp add: myfs_exit_u_def myfs_exit_def log_call_def Let_def)

lemma file_open_equiv:
  "run_state (myfs_file_open_u K E inode file f_mode f_flags) s = run_state (myfs_file_open_ubuntu K E inode file f_mode f_flags) s"
  by (simp add: myfs_file_open_u_def myfs_file_open_ubuntu_def myfs_file_open_with_def kmonad)

lemma file_read_equiv:
  "run_state (myfs_file_read_u F cnt ppos) s = (case myfs_file_read F s cnt ppos of (r, data, s') \<Rightarrow> ((r, data), s'))"
  by (cases "kfifo_to_user F (mydemo_fifo s) cnt") (simp add: myfs_file_read_u_def myfs_file_read_def kmonad Let_def)

lemma file_write_equiv: "run_state (myfs_file_write_u F buf ppos) s = myfs_file_write F s buf ppos"
  by (cases "kfifo_from_user F (mydemo_fifo s) buf") (simp add: myfs_file_write_u_def myfs_file_write_def kmonad Let_def)

lemma file_release_equiv: "myfs_file_release_u file s = returns (myfs_file_release s file)"
  by (simp add: myfs_file_release_u_def myfs_file_release_def kmonad Let_def returns_def split: option.split)


end
