(* ===== verification/Interleaving.thy ===== *)
theory Interleaving
  imports Prelude
begin

section \<open>Interleavings that always finish\<close>

text \<open>
  The contract of a program of several threads or processes whose interleavings all end well: a
  step relation with an invariant, a rank that every step lowers, and progress, which says that a state
  that is not final has a step. The client's lemmas are proved once: every run is bounded by the
  rank of its start, can be completed, and ends only in final states. The semaphore, pipe and join
  programs interpret the locale.
\<close>

locale finishing =
  fixes step :: "'s \<Rightarrow> 's \<Rightarrow> bool"
    and inv :: "'s \<Rightarrow> bool"
    and rank :: "'s \<Rightarrow> nat"
    and final :: "'s \<Rightarrow> bool"
  assumes inv_step: "inv s \<Longrightarrow> step s s' \<Longrightarrow> inv s'"
    and rank_step: "inv s \<Longrightarrow> step s s' \<Longrightarrow> rank s' < rank s"
    and progress: "inv s \<Longrightarrow> \<not> final s \<Longrightarrow> \<exists>s'. step s s'"
begin

lemma run_inv: "step\<^sup>*\<^sup>* s s' \<Longrightarrow> inv s \<Longrightarrow> inv s'"
  by (induction rule: rtranclp_induct) (auto intro: inv_step)

lemma run_bounded: "(step ^^ n) s s' \<Longrightarrow> inv s \<Longrightarrow> n + rank s' \<le> rank s"
proof (induction n arbitrary: s')
  case (Suc n)
  then obtain t where t: "(step ^^ n) s t" "step t s'" by auto
  then have "inv t" using run_inv [of s t] Suc.prems(2) by (simp add: relpowp_imp_rtranclp)
  with t Suc show ?case using rank_step [of t s'] by fastforce
qed simp

lemma can_finish: "inv s \<Longrightarrow> \<exists>s'. step\<^sup>*\<^sup>* s s' \<and> final s'"
proof (induction "rank s" arbitrary: s rule: less_induct)
  case less
  show ?case
  proof (cases "final s")
    case False
    then obtain t where "step s t" using progress less.prems by blast
    then obtain s' where "step\<^sup>*\<^sup>* t s'" "final s'" using less inv_step rank_step by blast
    with \<open>step s t\<close> show ?thesis by (meson converse_rtranclp_into_rtranclp)
  qed blast
qed

lemma stuck_final: "step\<^sup>*\<^sup>* s s' \<Longrightarrow> inv s \<Longrightarrow> (\<And>t. \<not> step s' t) \<Longrightarrow> final s'"
  using run_inv progress by blast

end

end
