(* ===== verification/Semaphore.thy ===== *)
theory Semaphore
  imports Interleaving
begin

section \<open>Two threads counting under a semaphore\<close>

text \<open>
  The programs \<^verbatim>\<open>src/exp1/exp1.4.c\<close> and \<^verbatim>\<open>src/exp3/exp3.2.c\<close>: two threads increment \<open>sharedData\<close> under
  one semaphore until their limit is reached, the main thread creates and joins them. The programs
  differ only in the limit of the first thread. A state has the program counters of the three
  threads; a step is one statement of one of them, and \<open>sharedData++\<close> is two steps, a load and a
  store, so that what the semaphore protects from can happen in the model. The scheduler is
  arbitrary: \<open>sem_step\<close> is the step relation of any interleaving.

  The theorems say that the threads exclude each other, that no interleaving gets stuck before
  \<open>main\<close> has finished, that every interleaving ends within a bounded number of steps, and that
  the final value and the printed transitions do not depend on the interleaving.
\<close>

subsection \<open>State\<close>

text \<open>
  The program counter of a thread: \<open>At_store v\<close> is between loading \<open>v\<close> and storing \<open>v + 1\<close>. The
  counter stays below 101, far from the bounds of \<open>int\<close>.
\<close>

datatype tpc =
    Not_started | At_wait | At_check | At_exit_msg | At_exit_post | Exited
  | At_reading_msg | At_value_msg | At_load | At_store int | At_sleep | At_post

datatype mpc =
    Main_init | Main_msg | Main_create1 | Main_create2 | Main_join1 | Main_msg1 | Main_join2 | Main_msg2
  | Main_destroy | Main_destroy_msg | Main_value_msg | Main_done

type_synonym line = "string \<times> int list"

record shared =
  semaphore :: nat
  sharedData :: int
  out :: "line list"

record sys = shared +
  pc1 :: tpc
  pc2 :: tpc
  mpc :: mpc

definition sys_start :: sys where
  "sys_start = \<lparr>semaphore = 0, sharedData = 0, out = [], pc1 = Not_started, pc2 = Not_started, mpc = Main_init\<rparr>"

definition print_line :: "string \<Rightarrow> int list \<Rightarrow> 'a shared_scheme \<Rightarrow> 'a shared_scheme" where
  "print_line fmt args s = s\<lparr>out := out s @ [(fmt, args)]\<rparr>"

subsection \<open>The threads\<close>

text \<open>
  One statement of the thread with this name and limit, \<open>None\<close> where it cannot go on. The two
  functions of each program have the same text but for the name and, in \<^verbatim>\<open>exp3.2.c\<close>, the limit.
\<close>

fun thread_step :: "string \<Rightarrow> int \<Rightarrow> tpc \<Rightarrow> 'a shared_scheme \<Rightarrow> (tpc \<times> 'a shared_scheme) option" where
  "thread_step name lim At_wait s =
     (if semaphore s = 0 then None else Some (At_check, s\<lparr>semaphore := semaphore s - 1\<rparr>))"
| "thread_step name lim At_check s = Some (if sharedData s \<ge> lim then At_exit_msg else At_reading_msg, s)"
| "thread_step name lim At_exit_msg s =
     Some (At_exit_post, print_line (''Thread '' @ name @ '': sharedData reached 5, exiting...'' @ [CHR 0x0A]) [] s)"
| "thread_step name lim At_exit_post s = Some (Exited, s\<lparr>semaphore := semaphore s + 1\<rparr>)"
| "thread_step name lim At_reading_msg s =
     Some (At_value_msg, print_line (''Thread '' @ name @ '' reading shared data.'' @ [CHR 0x0A]) [] s)"
| "thread_step name lim At_value_msg s =
     Some (At_load, print_line (''Thread '' @ name @ '': sharedData %d -> %d'' @ [CHR 0x0A]) [sharedData s, sharedData s + 1] s)"
| "thread_step name lim At_load s = Some (At_store (sharedData s), s)"
| "thread_step name lim (At_store v) s = Some (At_sleep, s\<lparr>sharedData := v + 1\<rparr>)"
| "thread_step name lim At_sleep s = Some (At_post, s)"
| "thread_step name lim At_post s = Some (At_wait, s\<lparr>semaphore := semaphore s + 1\<rparr>)"
| "thread_step name lim Not_started s = None"
| "thread_step name lim Exited s = None"

text \<open>One statement of \<open>main\<close>; a join waits for the thread to have exited.\<close>

fun main_step :: "mpc \<Rightarrow> sys \<Rightarrow> sys option" where
  "main_step Main_init s = Some (s\<lparr>semaphore := 1, mpc := Main_msg\<rparr>)"
| "main_step Main_msg s =
     Some (print_line (''Main: creating thread 1 and 2.'' @ [CHR 0x0A]) [] s\<lparr>mpc := Main_create1\<rparr>)"
| "main_step Main_create1 s = Some (s\<lparr>pc1 := At_wait, mpc := Main_create2\<rparr>)"
| "main_step Main_create2 s = Some (s\<lparr>pc2 := At_wait, mpc := Main_join1\<rparr>)"
| "main_step Main_join1 s = (if pc1 s = Exited then Some (s\<lparr>mpc := Main_msg1\<rparr>) else None)"
| "main_step Main_msg1 s = Some (print_line (''Thread 1 finished.'' @ [CHR 0x0A]) [] s\<lparr>mpc := Main_join2\<rparr>)"
| "main_step Main_join2 s = (if pc2 s = Exited then Some (s\<lparr>mpc := Main_msg2\<rparr>) else None)"
| "main_step Main_msg2 s = Some (print_line (''Thread 2 finished.'' @ [CHR 0x0A]) [] s\<lparr>mpc := Main_destroy\<rparr>)"
| "main_step Main_destroy s = Some (s\<lparr>mpc := Main_destroy_msg\<rparr>)"
| "main_step Main_destroy_msg s =
     Some (print_line (''Main: semaphore destroyed.'' @ [CHR 0x0A]) [] s\<lparr>mpc := Main_value_msg\<rparr>)"
| "main_step Main_value_msg s =
     Some (print_line (''sharedData: %d'' @ [CHR 0x0A]) [sharedData s] s\<lparr>mpc := Main_done\<rparr>)"
| "main_step Main_done s = None"

definition thread1_step :: "int \<Rightarrow> sys \<Rightarrow> sys option" where
  "thread1_step lim s = map_option (\<lambda>(pc, s'). s'\<lparr>pc1 := pc\<rparr>) (thread_step ''1'' lim (pc1 s) s)"

definition thread2_step :: "int \<Rightarrow> sys \<Rightarrow> sys option" where
  "thread2_step lim s = map_option (\<lambda>(pc, s'). s'\<lparr>pc2 := pc\<rparr>) (thread_step ''2'' lim (pc2 s) s)"

text \<open>Any interleaving; the two programs are given by their limits.\<close>

type_synonym limits = "int \<times> int"

definition exp1_4 :: limits where
  "exp1_4 = (5, 5)"

definition exp3_2 :: limits where
  "exp3_2 = (100, 5)"

inductive sem_step :: "limits \<Rightarrow> sys \<Rightarrow> sys \<Rightarrow> bool" for L where
  thread1: "thread1_step (fst L) s = Some s' \<Longrightarrow> sem_step L s s'"
| thread2: "thread2_step (snd L) s = Some s' \<Longrightarrow> sem_step L s s'"
| main: "main_step (mpc s) s = Some s' \<Longrightarrow> sem_step L s s'"

inductive_cases sem_stepE: "sem_step L s s'"

text \<open>
  A scheduler picks one of the three threads at a time; the second program, whose text differs in the limit
  of the first thread only, as a whole; an executable run for examples.
\<close>

datatype who = T1 | T2 | Main

definition exp3_2_step :: "who \<Rightarrow> sys \<Rightarrow> sys option" where
  "exp3_2_step w s =
     (case w of T1 \<Rightarrow> thread1_step 100 s | T2 \<Rightarrow> thread2_step 5 s | Main \<Rightarrow> main_step (mpc s) s)"

fun sem_run :: "limits \<Rightarrow> who list \<Rightarrow> sys \<Rightarrow> sys option" where
  "sem_run L [] s = Some s"
| "sem_run L (T1 # ws) s = Option.bind (thread1_step (fst L) s) (sem_run L ws)"
| "sem_run L (T2 # ws) s = Option.bind (thread2_step (snd L) s) (sem_run L ws)"
| "sem_run L (Main # ws) s = Option.bind (main_step (mpc s) s) (sem_run L ws)"

lemma exp3_2_step_iff: "sem_step exp3_2 s s' \<longleftrightarrow> (\<exists>w. exp3_2_step w s = Some s')"
proof
  assume "sem_step exp3_2 s s'"
  then show "\<exists>w. exp3_2_step w s = Some s'"
    by cases (auto simp: exp3_2_def exp3_2_step_def intro: exI [of _ T1] exI [of _ T2] exI [of _ Main])
next
  assume "\<exists>w. exp3_2_step w s = Some s'"
  then obtain w where "exp3_2_step w s = Some s'" ..
  then show "sem_step exp3_2 s s'" by (cases w) (auto simp: exp3_2_def exp3_2_step_def intro: sem_step.intros)
qed

subsection \<open>The invariant\<close>

fun in_crit :: "tpc \<Rightarrow> bool" where
  "in_crit Not_started = False"
| "in_crit At_wait = False"
| "in_crit Exited = False"
| "in_crit pc = True"

text \<open>What a thread inside its critical section, or past it, knows about the shared counter.\<close>

fun thread_ok :: "int \<Rightarrow> int \<Rightarrow> tpc \<Rightarrow> bool" where
  "thread_ok lim d At_reading_msg = (d < lim)"
| "thread_ok lim d At_value_msg = (d < lim)"
| "thread_ok lim d At_load = (d < lim)"
| "thread_ok lim d (At_store v) = (d < lim \<and> v = d)"
| "thread_ok lim d At_exit_msg = (lim \<le> d)"
| "thread_ok lim d At_exit_post = (lim \<le> d)"
| "thread_ok lim d Exited = (lim \<le> d)"
| "thread_ok lim d pc = True"

text \<open>A thread has announced an increment that it has not stored yet.\<close>

fun announced :: "tpc \<Rightarrow> int" where
  "announced At_load = 1"
| "announced (At_store v) = 1"
| "announced pc = 0"

text \<open>How far \<open>main\<close> is: it has initialised, started the threads, seen them exit.\<close>

fun main_pos :: "mpc \<Rightarrow> nat" where
  "main_pos Main_init = 0" | "main_pos Main_msg = 1" | "main_pos Main_create1 = 2" | "main_pos Main_create2 = 3"
| "main_pos Main_join1 = 4" | "main_pos Main_msg1 = 5" | "main_pos Main_join2 = 6" | "main_pos Main_msg2 = 7"
| "main_pos Main_destroy = 8" | "main_pos Main_destroy_msg = 9" | "main_pos Main_value_msg = 10" | "main_pos Main_done = 11"

definition top_limit :: "limits \<Rightarrow> int" where
  "top_limit L = max 0 (max (fst L) (snd L))"

text \<open>The value changes that have been printed, in order.\<close>

definition transitions :: "line list \<Rightarrow> (int \<times> int) list" where
  "transitions ls = concat (map (\<lambda>(_, args). case args of [x, y] \<Rightarrow> [(x, y)] | _ \<Rightarrow> []) ls)"

definition steps :: "int \<Rightarrow> (int \<times> int) list" where
  "steps d = map (\<lambda>v. (v, v + 1)) [0..d - 1]"

definition sem_inv :: "limits \<Rightarrow> sys \<Rightarrow> bool" where
  "sem_inv L s \<longleftrightarrow>
     semaphore s + of_bool (in_crit (pc1 s)) + of_bool (in_crit (pc2 s)) = of_bool (mpc s \<noteq> Main_init)
   \<and> thread_ok (fst L) (sharedData s) (pc1 s) \<and> thread_ok (snd L) (sharedData s) (pc2 s)
   \<and> 0 \<le> sharedData s \<and> sharedData s \<le> top_limit L
   \<and> (pc1 s = Not_started \<longleftrightarrow> main_pos (mpc s) < 3) \<and> (pc2 s = Not_started \<longleftrightarrow> main_pos (mpc s) < 4)
   \<and> (4 < main_pos (mpc s) \<longrightarrow> pc1 s = Exited) \<and> (6 < main_pos (mpc s) \<longrightarrow> pc2 s = Exited)
   \<and> transitions (out s) = steps (sharedData s + announced (pc1 s) + announced (pc2 s))
   \<and> (mpc s = Main_done \<longrightarrow> last (out s) = (''sharedData: %d'' @ [CHR 0x0A], [sharedData s]))"

lemma transitions_append [simp]:
  "transitions (ls @ [(fmt, args)]) = transitions ls @ (case args of [x, y] \<Rightarrow> [(x, y)] | _ \<Rightarrow> [])"
  by (simp add: transitions_def)

lemma sem_inv_start: "sem_inv L sys_start"
  by (simp add: sem_inv_def sys_start_def top_limit_def transitions_def steps_def)

lemma steps_next: "0 \<le> d \<Longrightarrow> steps (d + 1) = steps d @ [(d, d + 1)]"
  by (simp add: steps_def upto_rec2)

lemma outside_crit: "\<not> in_crit pc \<Longrightarrow> announced pc = 0"
  by (cases pc) simp_all

lemma thread_ok_mono: "\<not> in_crit pc \<Longrightarrow> thread_ok lim d pc \<Longrightarrow> d \<le> d' \<Longrightarrow> thread_ok lim d' pc"
  by (cases pc) simp_all

text \<open>
  One step of a thread, seen from the shared state: \<open>others\<close> is 1 if the semaphore is held by the
  other thread. The two threads and both limits are instances.
\<close>

lemma thread_step_keeps:
  assumes "thread_step name lim pc s = Some (pc', s')"
    and "semaphore s + of_bool (in_crit pc) + of_bool other = 1" and "thread_ok lim (sharedData s) pc"
    and "0 \<le> sharedData s" and "lim \<le> t" and "sharedData s \<le> t"
    and "transitions (out s) = steps (sharedData s + announced pc + a)" and "\<not> other \<Longrightarrow> a = 0"
  shows "semaphore s' + of_bool (in_crit pc') + of_bool other = 1 \<and> thread_ok lim (sharedData s') pc'
    \<and> sharedData s \<le> sharedData s' \<and> sharedData s' \<le> t \<and> (other \<longrightarrow> sharedData s' = sharedData s)
    \<and> transitions (out s') = steps (sharedData s' + announced pc' + a)
    \<and> pc \<noteq> Not_started \<and> pc' \<noteq> Not_started \<and> pc \<noteq> Exited"
  using assms by (cases pc) (auto simp: print_line_def steps_next split: if_splits)

lemma sem_inv_thread1:
  assumes inv: "sem_inv L s" and step: "thread1_step (fst L) s = Some s'"
  shows "sem_inv L s'"
proof -
  obtain pc t where t: "thread_step ''1'' (fst L) (pc1 s) s = Some (pc, t)" and s': "s' = t\<lparr>pc1 := pc\<rparr>"
    using step by (auto simp: thread1_step_def)
  have frame: "pc2 t = pc2 s" "mpc t = mpc s"
    using t by (cases "pc1 s"; auto simp: print_line_def split: if_splits)+
  have "mpc s \<noteq> Main_init" using t inv by (auto simp: sem_inv_def)
  then have "semaphore t + of_bool (in_crit pc) + of_bool (in_crit (pc2 s)) = 1 \<and> thread_ok (fst L) (sharedData t) pc
    \<and> sharedData s \<le> sharedData t \<and> sharedData t \<le> top_limit L \<and> (in_crit (pc2 s) \<longrightarrow> sharedData t = sharedData s)
    \<and> transitions (out t) = steps (sharedData t + announced pc + announced (pc2 s))
    \<and> pc1 s \<noteq> Not_started \<and> pc \<noteq> Not_started \<and> pc1 s \<noteq> Exited"
    using inv by (intro thread_step_keeps [OF t]) (auto simp: sem_inv_def top_limit_def outside_crit)
  then show ?thesis using inv \<open>mpc s \<noteq> Main_init\<close> thread_ok_mono [of "pc2 s" "snd L" "sharedData s" "sharedData t"]
    by (cases "in_crit (pc2 s)"; cases "mpc s") (auto simp: sem_inv_def s' frame)
qed

lemma sem_inv_thread2:
  assumes inv: "sem_inv L s" and step: "thread2_step (snd L) s = Some s'"
  shows "sem_inv L s'"
proof -
  obtain pc t where t: "thread_step ''2'' (snd L) (pc2 s) s = Some (pc, t)" and s': "s' = t\<lparr>pc2 := pc\<rparr>"
    using step by (auto simp: thread2_step_def)
  have frame: "pc1 t = pc1 s" "mpc t = mpc s"
    using t by (cases "pc2 s"; auto simp: print_line_def split: if_splits)+
  have "mpc s \<noteq> Main_init" using t inv by (auto simp: sem_inv_def)
  then have "semaphore t + of_bool (in_crit pc) + of_bool (in_crit (pc1 s)) = 1 \<and> thread_ok (snd L) (sharedData t) pc
    \<and> sharedData s \<le> sharedData t \<and> sharedData t \<le> top_limit L \<and> (in_crit (pc1 s) \<longrightarrow> sharedData t = sharedData s)
    \<and> transitions (out t) = steps (sharedData t + announced pc + announced (pc1 s))
    \<and> pc2 s \<noteq> Not_started \<and> pc \<noteq> Not_started \<and> pc2 s \<noteq> Exited"
    using inv by (intro thread_step_keeps [OF t]) (auto simp: sem_inv_def top_limit_def outside_crit algebra_simps)
  then show ?thesis using inv \<open>mpc s \<noteq> Main_init\<close> thread_ok_mono [of "pc1 s" "fst L" "sharedData s" "sharedData t"]
    by (cases "in_crit (pc1 s)"; cases "mpc s") (auto simp: sem_inv_def s' frame algebra_simps)
qed

lemma main_step_effect:
  assumes "main_step m s = Some s'"
  shows "sharedData s' = sharedData s" and "transitions (out s') = transitions (out s)"
    and "semaphore s' = (if m = Main_init then 1 else semaphore s)" and "main_pos (mpc s') = Suc (main_pos m)"
    and "pc1 s' = (if m = Main_create1 then At_wait else pc1 s)" and "pc2 s' = (if m = Main_create2 then At_wait else pc2 s)"
    and "m = Main_join1 \<Longrightarrow> pc1 s = Exited" and "m = Main_join2 \<Longrightarrow> pc2 s = Exited"
    and "mpc s' = Main_done \<Longrightarrow> last (out s') = (''sharedData: %d'' @ [CHR 0x0A], [sharedData s])"
  using assms by (cases m; auto simp: print_line_def split: if_splits)+

lemma main_pos_iff:
  "m = Main_init \<longleftrightarrow> main_pos m = 0" "m = Main_create1 \<longleftrightarrow> main_pos m = 2" "m = Main_create2 \<longleftrightarrow> main_pos m = 3"
  "m = Main_join1 \<longleftrightarrow> main_pos m = 4" "m = Main_join2 \<longleftrightarrow> main_pos m = 6" "m = Main_done \<longleftrightarrow> main_pos m = 11"
  by (cases m; simp)+

lemma sem_inv_main:
  assumes inv: "sem_inv L s" and step: "main_step (mpc s) s = Some s'"
  shows "sem_inv L s'"
proof -
  note e = main_step_effect [OF step]
  have i: "semaphore s + of_bool (in_crit (pc1 s)) + of_bool (in_crit (pc2 s)) = of_bool (mpc s \<noteq> Main_init)"
      "thread_ok (fst L) (sharedData s) (pc1 s)" "thread_ok (snd L) (sharedData s) (pc2 s)"
      "pc1 s = Not_started \<longleftrightarrow> main_pos (mpc s) < 3" "pc2 s = Not_started \<longleftrightarrow> main_pos (mpc s) < 4"
      "4 < main_pos (mpc s) \<longrightarrow> pc1 s = Exited" "6 < main_pos (mpc s) \<longrightarrow> pc2 s = Exited"
      "transitions (out s) = steps (sharedData s + announced (pc1 s) + announced (pc2 s))"
    using inv unfolding sem_inv_def by blast+
  have "semaphore s' + of_bool (in_crit (pc1 s')) + of_bool (in_crit (pc2 s')) = of_bool (mpc s' \<noteq> Main_init)"
    using i(1,4,5) e(3-6) by (cases "mpc s") (simp_all add: main_pos_iff)
  moreover have "thread_ok (fst L) (sharedData s') (pc1 s')" "thread_ok (snd L) (sharedData s') (pc2 s')"
    using i(2,3) e(1,5,6) by simp_all
  moreover have "pc1 s' = Not_started \<longleftrightarrow> main_pos (mpc s') < 3" "pc2 s' = Not_started \<longleftrightarrow> main_pos (mpc s') < 4"
    using i(4,5) e(4-6) by (cases "mpc s"; simp)+
  moreover have "4 < main_pos (mpc s') \<longrightarrow> pc1 s' = Exited" "6 < main_pos (mpc s') \<longrightarrow> pc2 s' = Exited"
    using i(6,7) e(4-8) by (auto simp: main_pos_iff less_Suc_eq)
  moreover have "transitions (out s') = steps (sharedData s' + announced (pc1 s') + announced (pc2 s'))"
    using i(4,5,8) e(1,2,5,6) by (cases "mpc s"; simp)
  ultimately show ?thesis
    using inv e(1,9) unfolding sem_inv_def by metis
qed

lemma sem_inv_step: "sem_inv L s \<Longrightarrow> sem_step L s s' \<Longrightarrow> sem_inv L s'"
  by (elim sem_stepE) (auto intro: sem_inv_thread1 sem_inv_thread2 sem_inv_main)

subsection \<open>Progress and rank\<close>

text \<open>The statements left in a round; storing the new value starts another round, at a higher value.\<close>

fun thread_rank :: "tpc \<Rightarrow> nat" where
  "thread_rank At_sleep = 9" | "thread_rank At_post = 8" | "thread_rank At_wait = 7" | "thread_rank At_check = 6"
| "thread_rank At_reading_msg = 5" | "thread_rank At_value_msg = 4" | "thread_rank At_load = 3"
| "thread_rank (At_store v) = 2" | "thread_rank At_exit_msg = 2" | "thread_rank At_exit_post = 1"
| "thread_rank Exited = 0" | "thread_rank Not_started = 8"

definition sem_rank :: "limits \<Rightarrow> sys \<Rightarrow> nat" where
  "sem_rank L s =
     8 * nat (top_limit L - sharedData s) + thread_rank (pc1 s) + thread_rank (pc2 s) + (11 - main_pos (mpc s))"

lemma thread_step_rank:
  assumes "thread_step name lim pc s = Some (pc', s')" and "thread_ok lim (sharedData s) pc" and "lim \<le> t"
  shows "8 * nat (t - sharedData s') + thread_rank pc' < 8 * nat (t - sharedData s) + thread_rank pc"
  using assms by (cases pc) (auto simp: print_line_def split: if_splits)

lemma main_pos_le: "main_pos m \<le> 11"
  by (cases m) simp_all

lemma sem_rank_step:
  assumes "sem_inv L s" and "sem_step L s s'"
  shows "sem_rank L s' < sem_rank L s"
  using assms(2)
proof cases
  case thread1
  then obtain pc t where t: "thread_step ''1'' (fst L) (pc1 s) s = Some (pc, t)" "s' = t\<lparr>pc1 := pc\<rparr>"
    by (auto simp: thread1_step_def)
  then have "pc2 s' = pc2 s" "mpc s' = mpc s" "pc1 s' = pc" "sharedData s' = sharedData t"
    by (cases "pc1 s"; auto simp: print_line_def split: if_splits)+
  then show ?thesis using thread_step_rank [OF t(1), of "top_limit L"] assms(1)
    by (simp add: sem_rank_def sem_inv_def top_limit_def)
next
  case thread2
  then obtain pc t where t: "thread_step ''2'' (snd L) (pc2 s) s = Some (pc, t)" "s' = t\<lparr>pc2 := pc\<rparr>"
    by (auto simp: thread2_step_def)
  then have "pc1 s' = pc1 s" "mpc s' = mpc s" "pc2 s' = pc" "sharedData s' = sharedData t"
    by (cases "pc2 s"; auto simp: print_line_def split: if_splits)+
  then show ?thesis using thread_step_rank [OF t(1), of "top_limit L"] assms(1)
    by (simp add: sem_rank_def sem_inv_def top_limit_def)
next
  case main
  note e = main_step_effect [OF main]
  have "pc1 s = Not_started \<longleftrightarrow> main_pos (mpc s) < 3" "pc2 s = Not_started \<longleftrightarrow> main_pos (mpc s) < 4"
    using assms(1) by (simp_all add: sem_inv_def)
  then have "thread_rank (pc1 s') \<le> thread_rank (pc1 s)" "thread_rank (pc2 s') \<le> thread_rank (pc2 s)"
    using e(5,6) by (auto simp: main_pos_iff)
  then show ?thesis using e(1,4) main_pos_le [of "mpc s'"] by (simp add: sem_rank_def)
qed

lemma thread_can_step:
  assumes "pc \<noteq> Not_started" "pc \<noteq> Exited" "pc = At_wait \<Longrightarrow> semaphore s \<noteq> 0"
  shows "\<exists>r. thread_step name lim pc s = Some r"
  using assms by (cases pc) auto

lemma main_can_step:
  assumes "m \<noteq> Main_done" "m = Main_join1 \<Longrightarrow> pc1 s = Exited" "m = Main_join2 \<Longrightarrow> pc2 s = Exited"
  shows "\<exists>r. main_step m s = Some r"
  using assms by (cases m) auto

text \<open>
  If \<open>main\<close> waits in a join, one of the threads can go on: the one in the critical section if there is
  one, otherwise the semaphore is free and the thread being joined can take it.
\<close>

lemma sem_progress:
  assumes "sem_inv L s" and "mpc s \<noteq> Main_done"
  shows "\<exists>s'. sem_step L s s'"
proof (cases "in_crit (pc1 s) \<or> in_crit (pc2 s)")
  case True
  then consider "in_crit (pc1 s)" | "in_crit (pc2 s)" by blast
  then show ?thesis
  proof cases
    case 1
    then have "\<exists>r. thread_step ''1'' (fst L) (pc1 s) s = Some r" by (intro thread_can_step) auto
    then show ?thesis by (auto simp: thread1_step_def intro!: sem_step.thread1)
  next
    case 2
    then have "\<exists>r. thread_step ''2'' (snd L) (pc2 s) s = Some r" by (intro thread_can_step) auto
    then show ?thesis by (auto simp: thread2_step_def intro!: sem_step.thread2)
  qed
next
  case False
  have i: "semaphore s = of_bool (mpc s \<noteq> Main_init)"
      "pc1 s = Not_started \<longleftrightarrow> main_pos (mpc s) < 3" "pc2 s = Not_started \<longleftrightarrow> main_pos (mpc s) < 4"
    using assms(1) False by (simp_all add: sem_inv_def)
  show ?thesis
  proof (cases "(mpc s = Main_join1 \<longrightarrow> pc1 s = Exited) \<and> (mpc s = Main_join2 \<longrightarrow> pc2 s = Exited)")
    case True
    then show ?thesis using main_can_step [of "mpc s" s] assms(2) by (auto intro: sem_step.main)
  next
    case False
    then consider "mpc s = Main_join1" "pc1 s \<noteq> Exited" | "mpc s = Main_join2" "pc2 s \<noteq> Exited" by blast
    then show ?thesis
    proof cases
      case 1
      then have "\<exists>r. thread_step ''1'' (fst L) (pc1 s) s = Some r" using i by (intro thread_can_step) auto
      then show ?thesis by (auto simp: thread1_step_def intro!: sem_step.thread1)
    next
      case 2
      then have "\<exists>r. thread_step ''2'' (snd L) (pc2 s) s = Some r" using i by (intro thread_can_step) auto
      then show ?thesis by (auto simp: thread2_step_def intro!: sem_step.thread2)
    qed
  qed
qed

text \<open>When \<open>main\<close> is done both threads have exited, so nothing can go on and both limits are reached.\<close>

lemma sem_done:
  assumes "sem_inv L s" and "mpc s = Main_done"
  shows "pc1 s = Exited" and "pc2 s = Exited"
  using assms by (simp_all add: sem_inv_def)

lemma sem_done_stuck: "sem_inv L s \<Longrightarrow> mpc s = Main_done \<Longrightarrow> \<not> sem_step L s s'"
  using sem_done [of L s] by (auto simp: thread1_step_def thread2_step_def elim!: sem_stepE)

lemma sem_done_result:
  assumes i: "sem_inv L s" and d: "mpc s = Main_done"
  shows "sharedData s = top_limit L \<and> transitions (out s) = steps (top_limit L)
    \<and> last (out s) = (''sharedData: %d'' @ [CHR 0x0A], [top_limit L])"
proof -
  have "fst L \<le> sharedData s" "snd L \<le> sharedData s" "0 \<le> sharedData s" "sharedData s \<le> top_limit L"
    using i sem_done [OF i d] by (simp_all add: sem_inv_def)
  then have "sharedData s = top_limit L" by (simp add: top_limit_def)
  then show ?thesis using i sem_done [OF i d] d by (simp add: sem_inv_def)
qed

interpretation sem: finishing "sem_step L" "sem_inv L" "sem_rank L" "\<lambda>s. mpc s = Main_done" for L
  by unfold_locales (auto intro: sem_inv_step sem_rank_step sem_progress)

subsection \<open>The programs\<close>

text \<open>
  Property C10. Mutual exclusion: in every state that any interleaving reaches, at most one thread is
  between \<open>sem_wait\<close> and \<open>sem_post\<close>; a thread that has loaded the counter holds its current value,
  so no increment is lost; and the counter stays between 0 and the larger limit, the semaphore
  between 0 and 1.
\<close>

theorem sem_mutual_exclusion:
  assumes "(sem_step L)\<^sup>*\<^sup>* sys_start s"
  shows "\<not> (in_crit (pc1 s) \<and> in_crit (pc2 s))
    \<and> (\<forall>v. pc1 s = At_store v \<or> pc2 s = At_store v \<longrightarrow> v = sharedData s)
    \<and> 0 \<le> sharedData s \<and> sharedData s \<le> top_limit L \<and> semaphore s \<le> 1"
proof -
  have i: "sem_inv L s" using assms sem_inv_start by (rule sem.run_inv)
  then have "semaphore s + of_bool (in_crit (pc1 s)) + of_bool (in_crit (pc2 s)) \<le> 1" by (simp add: sem_inv_def)
  then show ?thesis using i by (auto simp: sem_inv_def)
qed

text \<open>The steps of an executable run are steps of the relation.\<close>

lemma sem_run_steps: "sem_run L ws s = Some s' \<Longrightarrow> (sem_step L)\<^sup>*\<^sup>* s s'"
proof (induction L ws s rule: sem_run.induct)
  case (2 L ws s)
  then obtain t where "thread1_step (fst L) s = Some t" "(sem_step L)\<^sup>*\<^sup>* t s'"
    by (auto simp: Option.bind_eq_Some_conv)
  then show ?case by (blast intro: sem_step.thread1 converse_rtranclp_into_rtranclp)
next
  case (3 L ws s)
  then obtain t where "thread2_step (snd L) s = Some t" "(sem_step L)\<^sup>*\<^sup>* t s'"
    by (auto simp: Option.bind_eq_Some_conv)
  then show ?case by (blast intro: sem_step.thread2 converse_rtranclp_into_rtranclp)
next
  case (4 L ws s)
  then obtain t where "main_step (mpc s) s = Some t" "(sem_step L)\<^sup>*\<^sup>* t s'"
    by (auto simp: Option.bind_eq_Some_conv)
  then show ?case by (blast intro: sem_step.main converse_rtranclp_into_rtranclp)
qed simp

text \<open>Thread 2 has loaded the counter in the second round while thread 1 waits.\<close>

definition some_schedule :: "who list" where
  "some_schedule = replicate 4 Main @ replicate 8 T1 @ replicate 5 T2"

definition some_state :: sys where
  "some_state = the (sem_run exp1_4 some_schedule sys_start)"

lemma some_state_runs: "sem_run exp1_4 some_schedule sys_start = Some some_state"
  unfolding some_state_def by code_simp

theorem sem_mutual_exclusion_witness:
  "pc1 some_state = At_wait \<and> pc2 some_state = At_store 1 \<and> \<not> in_crit (pc1 some_state) \<and> sharedData some_state = 1
    \<and> sharedData some_state \<le> top_limit exp1_4"
proof -
  have "pc1 some_state = At_wait" "pc2 some_state = At_store 1" by code_simp+
  then show ?thesis using sem_mutual_exclusion [OF sem_run_steps [OF some_state_runs]] by simp
qed

text \<open>
  No deadlock: whatever the scheduler has done so far, a program that has not finished has
  a thread that can go on, and it can still be run to its end.
\<close>

lemma sem_no_deadlock:
  assumes "(sem_step L)\<^sup>*\<^sup>* sys_start s"
  shows "(mpc s \<noteq> Main_done \<longrightarrow> (\<exists>s'. sem_step L s s')) \<and> (\<exists>s'. (sem_step L)\<^sup>*\<^sup>* s s' \<and> mpc s' = Main_done)"
  using sem.run_inv [OF assms sem_inv_start] sem.progress sem.can_finish by blast

text \<open>
  Property C3. Every interleaving ends: a run has at most 8 steps per increment and 27 more, 67 for
  \<^verbatim>\<open>exp1.4.c\<close> and 827 for \<^verbatim>\<open>exp3.2.c\<close>, and where it can go no further \<open>main\<close> has returned, the counter is the
  larger limit, each change of value was printed once and in order, and the last line has the final
  value. So both programs have one result, 5 and 100, in spite of the scheduler; in \<^verbatim>\<open>exp3.2.c\<close> the
  message at the exit of the first thread nevertheless says 5.
\<close>

theorem sem_terminates:
  assumes "(sem_step L ^^ n) sys_start s"
  shows "n \<le> 8 * nat (top_limit L) + 27
    \<and> ((\<nexists>s'. sem_step L s s') \<longleftrightarrow> mpc s = Main_done)
    \<and> (mpc s = Main_done \<longrightarrow> sharedData s = top_limit L
         \<and> transitions (out s) = steps (top_limit L) \<and> last (out s) = (''sharedData: %d'' @ [CHR 0x0A], [top_limit L]))
    \<and> top_limit exp1_4 = 5 \<and> top_limit exp3_2 = 100"
proof -
  have i: "sem_inv L s" using sem.run_inv [OF relpowp_imp_rtranclp [OF assms] sem_inv_start] .
  have "n \<le> 8 * nat (top_limit L) + 27"
    using sem.run_bounded [OF assms sem_inv_start] by (simp add: sem_rank_def sys_start_def)
  moreover have "top_limit exp1_4 = 5" "top_limit exp3_2 = 100"
    by (simp_all add: top_limit_def exp1_4_def exp3_2_def)
  ultimately show ?thesis using sem.progress [OF i] sem_done_result [OF i] sem_done_stuck [OF i] by blast
qed

theorem sem_terminates_witness:
  "\<exists>n s. (sem_step exp3_2 ^^ n) sys_start s \<and> mpc s = Main_done \<and> n \<le> 827 \<and> sharedData s = 100"
proof -
  obtain s where "(sem_step exp3_2)\<^sup>*\<^sup>* sys_start s" and d: "mpc s = Main_done"
    using sem.can_finish [OF sem_inv_start, of exp3_2] by blast
  then obtain n where n: "(sem_step exp3_2 ^^ n) sys_start s" by (auto dest: rtranclp_imp_relpowp)
  have "n \<le> 827" "sharedData s = 100" using sem_terminates [OF n] d by auto
  with n d show ?thesis by blast
qed

end
