(* ===== verification/Pipes.thy ===== *)
theory Pipes
  imports Interleaving
begin

section \<open>Two children writing to a pipe\<close>

text \<open>
  \<^verbatim>\<open>src/exp1/exp1.5.c\<close>: the parent makes a pipe and forks two children, each of which writes a
  message of 50 bytes under a lock on the pipe; the parent waits for a child and reads, twice. The
  state has the program counters of the three processes, the pipe and the lock; a step is one
  statement of one process, in any order the scheduler likes.

  From outside come (\<open>pipe_env\<close>) the answers of the two forks, whether the kernel supports
  \<open>lockf\<close> on the pipe (its result is not checked, so where it does not the call does nothing), and the
  indeterminate contents of the two arrays on the stack. A write of 50 bytes is atomic, and the pipe
  has room for both. Reading from the empty pipe blocks, because the parent itself keeps the
  writing end open. Creating the pipe is assumed to succeed.
\<close>

subsection \<open>State\<close>

datatype child = Child1 | Child2

text \<open>\<open>C_write buf\<close> carries the child's own copy of \<open>outpipe\<close>; a zombie has exited and was not waited for.\<close>

datatype cpc = C_none | C_lock | C_sprintf | C_write bytes | C_unlock | C_exit | C_zombie | C_reaped

datatype ppc =
    P_pipe | P_fork1 | P_fork2 | P_wait1 | P_read1 | P_print1 | P_wait2 | P_read2 | P_print2 | P_exit
  | P_done | P_fault

record pipe_sys =
  ppc :: ppc
  cpc :: "child \<Rightarrow> cpc"
  pipe :: bytes
  lock :: "child option"
  inpipe :: bytes
  lines :: "string list"

record pipe_env =
  fork1_ok :: bool
  fork2_ok :: bool
  locking :: bool
  outpipe_junk :: "nat \<Rightarrow> byte"
  inpipe_junk :: "nat \<Rightarrow> byte"

definition pipe_start :: "pipe_env \<Rightarrow> pipe_sys" where
  "pipe_start E = \<lparr>ppc = P_pipe, cpc = (\<lambda>_. C_none), pipe = [], lock = None,
     inpipe = map (inpipe_junk E) [0..<100], lines = []\<rparr>"

subsection \<open>The processes\<close>

definition child_msg :: "child \<Rightarrow> string" where
  "child_msg c = (case c of Child1 \<Rightarrow> ''child 1 process is sending message!''
                          | Child2 \<Rightarrow> ''child 2 process is sending message!'')"

text \<open>\<open>outpipe\<close> after the \<open>sprintf\<close>: the message with its NUL, then what was on the stack.\<close>

definition outpipe :: "pipe_env \<Rightarrow> child \<Rightarrow> bytes" where
  "outpipe E c = cstring (child_msg c) @ map (outpipe_junk E) [36..<100]"

definition child_step :: "pipe_env \<Rightarrow> child \<Rightarrow> pipe_sys \<Rightarrow> pipe_sys option" where
  "child_step E c s =
     (case cpc s c of
        C_none \<Rightarrow> None
      | C_lock \<Rightarrow>
          if locking E \<and> lock s \<noteq> None \<and> lock s \<noteq> Some c then None
          else Some (s\<lparr>lock := if locking E then Some c else lock s, cpc := (cpc s)(c := C_sprintf)\<rparr>)
      | C_sprintf \<Rightarrow> Some (s\<lparr>cpc := (cpc s)(c := C_write (outpipe E c))\<rparr>)
      | C_write buf \<Rightarrow> Some (s\<lparr>pipe := pipe s @ take 50 buf, cpc := (cpc s)(c := C_unlock)\<rparr>)
      | C_unlock \<Rightarrow> Some (s\<lparr>lock := if lock s = Some c then None else lock s, cpc := (cpc s)(c := C_exit)\<rparr>)
      | C_exit \<Rightarrow> Some (s\<lparr>cpc := (cpc s)(c := C_zombie)\<rparr>)
      | C_zombie \<Rightarrow> None
      | C_reaped \<Rightarrow> None)"

text \<open>
  The parent's system calls: \<open>wait(0)\<close> takes any child that has exited (\<open>c\<close>, if it has) or returns at
  once if there is none left, \<open>read\<close> takes up to 50 bytes, \<open>printf\<close> prints up to the first NUL.
\<close>

definition wait_any :: "child \<Rightarrow> ppc \<Rightarrow> pipe_sys \<Rightarrow> pipe_sys option" where
  "wait_any c next s =
     (if cpc s c = C_zombie then Some (s\<lparr>cpc := (cpc s)(c := C_reaped), ppc := next\<rparr>)
      else if cpc s Child1 \<in> {C_none, C_reaped} \<and> cpc s Child2 \<in> {C_none, C_reaped} then Some (s\<lparr>ppc := next\<rparr>)
      else None)"

definition read_pipe :: "ppc \<Rightarrow> pipe_sys \<Rightarrow> pipe_sys option" where
  "read_pipe next s =
     (if pipe s = [] then None
      else Some (s\<lparr>inpipe := take 50 (pipe s) @ drop (length (take 50 (pipe s))) (inpipe s),
                   pipe := drop 50 (pipe s), ppc := next\<rparr>))"

definition print_inpipe :: "ppc \<Rightarrow> pipe_sys \<Rightarrow> pipe_sys option" where
  "print_inpipe next s =
     (case strlen (inpipe s) of
        None \<Rightarrow> Some (s\<lparr>ppc := P_fault\<rparr>)
      | Some n \<Rightarrow> Some (s\<lparr>lines := lines s @ [map (\<lambda>b. char_of (unat b)) (take n (inpipe s))], ppc := next\<rparr>))"

definition parent_step :: "pipe_env \<Rightarrow> child \<Rightarrow> pipe_sys \<Rightarrow> pipe_sys option" where
  "parent_step E c s =
     (case ppc s of
        P_pipe \<Rightarrow> Some (s\<lparr>ppc := P_fork1\<rparr>)
      | P_fork1 \<Rightarrow> Some (s\<lparr>cpc := (cpc s)(Child1 := if fork1_ok E then C_lock else C_none), ppc := P_fork2\<rparr>)
      | P_fork2 \<Rightarrow> Some (s\<lparr>cpc := (cpc s)(Child2 := if fork2_ok E then C_lock else C_none), ppc := P_wait1\<rparr>)
      | P_wait1 \<Rightarrow> wait_any c P_read1 s
      | P_read1 \<Rightarrow> read_pipe P_print1 s
      | P_print1 \<Rightarrow> print_inpipe P_wait2 s
      | P_wait2 \<Rightarrow> wait_any c P_read2 s
      | P_read2 \<Rightarrow> read_pipe P_print2 s
      | P_print2 \<Rightarrow> print_inpipe P_exit s
      | P_exit \<Rightarrow> Some (s\<lparr>ppc := P_done\<rparr>)
      | P_done \<Rightarrow> None
      | P_fault \<Rightarrow> None)"

inductive pipe_step :: "pipe_env \<Rightarrow> pipe_sys \<Rightarrow> pipe_sys \<Rightarrow> bool" for E where
  child: "child_step E c s = Some s' \<Longrightarrow> pipe_step E s s'"
| parent: "parent_step E c s = Some s' \<Longrightarrow> pipe_step E s s'"

inductive_cases pipe_stepE: "pipe_step E s s'"

text \<open>An executable run: a child makes a step, or the parent, who takes the given child if it waits.\<close>

datatype turn = Child_turn child | Parent_turn child

fun pipe_run :: "pipe_env \<Rightarrow> turn list \<Rightarrow> pipe_sys \<Rightarrow> pipe_sys option" where
  "pipe_run E [] s = Some s"
| "pipe_run E (Child_turn c # ts) s = Option.bind (child_step E c s) (pipe_run E ts)"
| "pipe_run E (Parent_turn c # ts) s = Option.bind (parent_step E c s) (pipe_run E ts)"

subsection \<open>The invariant\<close>

text \<open>
  How far the parent is. The program never reaches \<open>P_fault\<close> in the runs considered, which is part
  of the invariant.
\<close>

fun ppos :: "ppc \<Rightarrow> nat" where
  "ppos P_pipe = 0" | "ppos P_fork1 = 1" | "ppos P_fork2 = 2" | "ppos P_wait1 = 3" | "ppos P_read1 = 4"
| "ppos P_print1 = 5" | "ppos P_wait2 = 6" | "ppos P_read2 = 7" | "ppos P_print2 = 8" | "ppos P_exit = 9"
| "ppos P_done = 10" | "ppos P_fault = 11"

definition reads_done :: "ppc \<Rightarrow> nat" where
  "reads_done p = (if 8 \<le> ppos p then 2 else if 5 \<le> ppos p then 1 else 0)"

definition prints_done :: "ppc \<Rightarrow> nat" where
  "prints_done p = (if 9 \<le> ppos p then 2 else if 6 \<le> ppos p then 1 else 0)"

lemmas done_defs = reads_done_def prints_done_def

lemma prints_le_reads: "prints_done p \<le> reads_done p"
  by (simp add: done_defs)

fun has_written :: "cpc \<Rightarrow> bool" where
  "has_written C_unlock = True" | "has_written C_exit = True" | "has_written C_zombie = True"
| "has_written C_reaped = True" | "has_written pc = False"

fun holding :: "cpc \<Rightarrow> bool" where
  "holding C_sprintf = True" | "holding (C_write b) = True" | "holding C_unlock = True" | "holding pc = False"

definition packet :: "pipe_env \<Rightarrow> child \<Rightarrow> bytes" where
  "packet E c = take 50 (outpipe E c)"

text \<open>Which children exist, hold the lock and have been waited for.\<close>

definition control_inv :: "pipe_env \<Rightarrow> pipe_sys \<Rightarrow> bool" where
  "control_inv E s \<longleftrightarrow>
     ppc s \<noteq> P_fault
   \<and> (\<forall>c b. cpc s c = C_write b \<longrightarrow> b = outpipe E c)
   \<and> (cpc s Child1 = C_none \<longleftrightarrow> ppos (ppc s) \<le> 1) \<and> (cpc s Child2 = C_none \<longleftrightarrow> ppos (ppc s) \<le> 2)
   \<and> (\<forall>c. lock s = Some c \<longrightarrow> holding (cpc s c))
   \<and> (cpc s Child1 = C_reaped \<or> cpc s Child2 = C_reaped \<longleftrightarrow> 4 \<le> ppos (ppc s))
   \<and> (cpc s Child1 = C_reaped \<and> cpc s Child2 = C_reaped \<longleftrightarrow> 7 \<le> ppos (ppc s))"

text \<open>The pipe and the output, in terms of the children that have written so far, in their order.\<close>

definition data_inv :: "pipe_env \<Rightarrow> pipe_sys \<Rightarrow> child list \<Rightarrow> bool" where
  "data_inv E s ws \<longleftrightarrow>
     distinct ws \<and> (\<forall>c. c \<in> set ws \<longleftrightarrow> has_written (cpc s c)) \<and> reads_done (ppc s) \<le> length ws
   \<and> length (inpipe s) = 100 \<and> pipe s = concat (map (packet E) (drop (reads_done (ppc s)) ws))
   \<and> lines s = map child_msg (take (prints_done (ppc s)) ws)
   \<and> (reads_done (ppc s) = Suc (prints_done (ppc s)) \<longrightarrow> take 50 (inpipe s) = packet E (ws ! prints_done (ppc s)))"

definition pipe_inv :: "pipe_env \<Rightarrow> pipe_sys \<Rightarrow> bool" where
  "pipe_inv E s \<longleftrightarrow> fork1_ok E \<and> fork2_ok E \<and> control_inv E s \<and> (\<exists>ws. data_inv E s ws)"

lemma pipe_inv_start: "fork1_ok E \<Longrightarrow> fork2_ok E \<Longrightarrow> pipe_inv E (pipe_start E)"
  by (auto simp: pipe_inv_def control_inv_def data_inv_def pipe_start_def done_defs)

lemma length_child_msg [simp]: "length (child_msg c) = 35"
  by (cases c) (simp_all add: child_msg_def)

lemma packet_split: "packet E c = bytes_of (child_msg c) @ 0 # map (outpipe_junk E) [36..<50]"
  by (simp add: packet_def outpipe_def cstring_def take_map)

lemma length_packet [simp]: "length (packet E c) = 50"
  by (simp add: packet_split)

text \<open>A packet prints as its message, whatever follows it.\<close>

lemma no_nul_in_msg: "0 \<notin> set (bytes_of (child_msg c))"
  by (cases c) (simp_all add: nul_in_bytes_of child_msg_def)

lemma print_packet:
  assumes "take 50 m = packet E c"
  shows "strlen m = Some 35" and "map (\<lambda>b. char_of (unat b)) (take 35 m) = child_msg c"
proof -
  have m: "m = bytes_of (child_msg c) @ 0 # (map (outpipe_junk E) [36..<50] @ drop 50 m)"
    using append_take_drop_id [of 50 m] by (simp add: assms packet_split)
  show "strlen m = Some 35" by (subst m) (simp add: strlen_append no_nul_in_msg)
  show "map (\<lambda>b. char_of (unat b)) (take 35 m) = child_msg c" by (subst m) (simp add: string_of_bytes)
qed

subsection \<open>Every step keeps it\<close>

lemma child_cases: "(\<forall>c. P c) \<longleftrightarrow> P Child1 \<and> P Child2"
  by (metis child.exhaust)

lemma child_stepE:
  assumes "child_step E c s = Some s'"
  obtains (at_lock) "cpc s c = C_lock" "\<not> locking E \<or> lock s = None \<or> lock s = Some c"
      "s' = s\<lparr>lock := if locking E then Some c else lock s, cpc := (cpc s)(c := C_sprintf)\<rparr>"
  | (at_sprintf) "cpc s c = C_sprintf" "s' = s\<lparr>cpc := (cpc s)(c := C_write (outpipe E c))\<rparr>"
  | (at_write) b where "cpc s c = C_write b" "s' = s\<lparr>pipe := pipe s @ take 50 b, cpc := (cpc s)(c := C_unlock)\<rparr>"
  | (at_unlock) "cpc s c = C_unlock" "s' = s\<lparr>lock := if lock s = Some c then None else lock s, cpc := (cpc s)(c := C_exit)\<rparr>"
  | (at_exit) "cpc s c = C_exit" "s' = s\<lparr>cpc := (cpc s)(c := C_zombie)\<rparr>"
  using assms by (cases "cpc s c") (auto simp: child_step_def split: if_splits)

lemma control_inv_child:
  assumes "control_inv E s" and "child_step E c s = Some s'"
  shows "control_inv E s'"
  using assms(2)
  by (cases rule: child_stepE; cases c; use assms(1) in \<open>auto simp: control_inv_def\<close>)

lemma data_inv_child:
  assumes "control_inv E s" and "data_inv E s ws" and "child_step E c s = Some s'"
  shows "\<exists>ws'. data_inv E s' (ws @ ws')"
  using assms(3)
proof (cases rule: child_stepE)
  case (at_write b)
  then have "b = outpipe E c" using assms(1) by (simp add: control_inv_def)
  then have "data_inv E s' (ws @ [c])" using at_write assms(2) prints_le_reads [of "ppc s"]
    by (auto simp: data_inv_def packet_def nth_append)
  then show ?thesis by blast
qed (rule exI [of _ "[]"], use assms(2) in \<open>auto simp: data_inv_def\<close>)+

lemma parent_stepE:
  assumes "parent_step E c s = Some s'" and "ppc s \<noteq> P_fault"
  obtains (at_pipe) "ppc s = P_pipe" "s' = s\<lparr>ppc := P_fork1\<rparr>"
  | (at_fork1) "ppc s = P_fork1" "s' = s\<lparr>cpc := (cpc s)(Child1 := if fork1_ok E then C_lock else C_none), ppc := P_fork2\<rparr>"
  | (at_fork2) "ppc s = P_fork2" "s' = s\<lparr>cpc := (cpc s)(Child2 := if fork2_ok E then C_lock else C_none), ppc := P_wait1\<rparr>"
  | (at_wait) nx where "(ppc s, nx) \<in> {(P_wait1, P_read1), (P_wait2, P_read2)}" "wait_any c nx s = Some s'"
  | (at_read) nx where "(ppc s, nx) \<in> {(P_read1, P_print1), (P_read2, P_print2)}" "read_pipe nx s = Some s'"
  | (at_print) nx where "(ppc s, nx) \<in> {(P_print1, P_wait2), (P_print2, P_exit)}" "print_inpipe nx s = Some s'"
  | (at_exit) "ppc s = P_exit" "s' = s\<lparr>ppc := P_done\<rparr>"
  using assms by (cases "ppc s") (auto simp: parent_step_def)

lemma wait_any_reaps:
  assumes "control_inv E s" "ppc s = P_wait1 \<or> ppc s = P_wait2" "wait_any c nx s = Some s'"
  shows "cpc s c = C_zombie" and "s' = s\<lparr>cpc := (cpc s)(c := C_reaped), ppc := nx\<rparr>"
proof -
  have "cpc s Child1 \<noteq> C_none" "cpc s Child2 \<noteq> C_none" "\<not> (cpc s Child1 = C_reaped \<and> cpc s Child2 = C_reaped)"
    using assms(1,2) by (auto simp: control_inv_def)
  then have "\<not> (cpc s Child1 \<in> {C_none, C_reaped} \<and> cpc s Child2 \<in> {C_none, C_reaped})" by blast
  with assms(3) show "cpc s c = C_zombie" "s' = s\<lparr>cpc := (cpc s)(c := C_reaped), ppc := nx\<rparr>"
    unfolding wait_any_def by (metis option.distinct(1) option.inject)+
qed

lemma control_inv_wait:
  assumes i: "control_inv E s" and nx: "(ppc s, nx) \<in> {(P_wait1, P_read1), (P_wait2, P_read2)}" and z: "cpc s c = C_zombie"
  shows "control_inv E (s\<lparr>cpc := (cpc s)(c := C_reaped), ppc := nx\<rparr>)"
proof -
  have nz: "cpc s c \<noteq> C_reaped" using z by simp
  consider "ppc s = P_wait1" "nx = P_read1" | "ppc s = P_wait2" "nx = P_read2" using nx by blast
  then show ?thesis
  proof cases
    case 1
    with i z nz show ?thesis by (cases c; simp add: control_inv_def; metis holding.simps(7))
  next
    case 2
    with i z nz show ?thesis by (cases c; simp add: control_inv_def; metis holding.simps(7))
  qed
qed

text \<open>Steps of the parent that leave the children alone.\<close>

lemma control_inv_frame:
  assumes "control_inv E s" and "cpc s' = cpc s" "lock s' = lock s" "ppc s' \<noteq> P_fault"
    "(ppos (ppc s') \<le> 1) = (ppos (ppc s) \<le> 1)" "(ppos (ppc s') \<le> 2) = (ppos (ppc s) \<le> 2)"
    "(4 \<le> ppos (ppc s')) = (4 \<le> ppos (ppc s))" "(7 \<le> ppos (ppc s')) = (7 \<le> ppos (ppc s))"
  shows "control_inv E s'"
  using assms(1,4) unfolding control_inv_def assms(2,3,5-8) by blast

lemma control_inv_parent:
  assumes i: "control_inv E s" and d: "data_inv E s ws" and ok: "fork1_ok E" "fork2_ok E"
    and step: "parent_step E c s = Some s'"
  shows "control_inv E s'"
proof -
  have "ppc s \<noteq> P_fault" using i by (simp add: control_inv_def)
  from step this show ?thesis
  proof (cases rule: parent_stepE)
    case at_fork1
    then show ?thesis using i ok by (simp add: control_inv_def; metis holding.simps(4))
  next
    case at_fork2
    then show ?thesis using i ok by (simp add: control_inv_def; metis holding.simps(4))
  next
    case (at_wait nx)
    then show ?thesis using wait_any_reaps [OF i _ at_wait(2)] control_inv_wait [OF i at_wait(1), of c] by auto
  next
    case (at_read nx)
    then show ?thesis by (intro control_inv_frame [OF i]) (auto simp: read_pipe_def split: if_splits)
  next
    case (at_print nx)
    then have "take 50 (inpipe s) = packet E (ws ! prints_done (ppc s))"
      using d by (auto simp: data_inv_def done_defs)
    from at_print print_packet [OF this] show ?thesis
      by (intro control_inv_frame [OF i]) (auto simp: print_inpipe_def)
  next
    case at_pipe
    then show ?thesis by (intro control_inv_frame [OF i]) simp_all
  next
    case at_exit
    then show ?thesis by (intro control_inv_frame [OF i]) simp_all
  qed
qed

lemma data_inv_read:
  assumes d: "data_inv E s ws" and nx: "reads_done nx = Suc (reads_done (ppc s))" "prints_done nx = reads_done (ppc s)"
      "prints_done (ppc s) = reads_done (ppc s)" and r: "read_pipe nx s = Some s'"
  shows "data_inv E s' ws"
proof -
  let ?k = "reads_done (ppc s)"
  have p: "pipe s = concat (map (packet E) (drop ?k ws))" "pipe s \<noteq> []"
    using d r by (auto simp: data_inv_def read_pipe_def split: if_splits)
  then have k: "?k < length ws" by (cases "?k < length ws") simp_all
  then have "pipe s = packet E (ws ! ?k) @ concat (map (packet E) (drop (Suc ?k) ws))"
    using p(1) by (simp add: Cons_nth_drop_Suc [symmetric])
  then have "take 50 (pipe s) = packet E (ws ! ?k)" "drop 50 (pipe s) = concat (map (packet E) (drop (Suc ?k) ws))"
    by simp_all
  with r p(2) have "s' = s\<lparr>inpipe := packet E (ws ! ?k) @ drop 50 (inpipe s),
      pipe := concat (map (packet E) (drop (Suc ?k) ws)), ppc := nx\<rparr>"
    unfolding read_pipe_def by simp
  with d k nx show ?thesis by (simp add: data_inv_def)
qed

lemma data_inv_print:
  assumes d: "data_inv E s ws" and nx: "reads_done nx = reads_done (ppc s)" "prints_done nx = Suc (prints_done (ppc s))"
      "reads_done (ppc s) = Suc (prints_done (ppc s))" and r: "print_inpipe nx s = Some s'"
  shows "data_inv E s' ws"
proof -
  let ?k = "prints_done (ppc s)"
  have k: "?k < length ws" and "take 50 (inpipe s) = packet E (ws ! ?k)" using d nx by (auto simp: data_inv_def)
  with r print_packet [of "inpipe s" E "ws ! ?k"] have "s' = s\<lparr>lines := lines s @ [child_msg (ws ! ?k)], ppc := nx\<rparr>"
    by (simp add: print_inpipe_def)
  with d k nx show ?thesis by (simp add: data_inv_def take_Suc_conv_app_nth)
qed

text \<open>The other steps of the parent move no data and change no child that has written or will write.\<close>

lemma data_inv_frame:
  assumes "data_inv E s ws" and "inpipe s' = inpipe s" "pipe s' = pipe s" "lines s' = lines s"
    "\<And>c. has_written (cpc s' c) = has_written (cpc s c)"
    "reads_done (ppc s') = reads_done (ppc s)" "prints_done (ppc s') = prints_done (ppc s)"
  shows "data_inv E s' ws"
  using assms(1) unfolding data_inv_def assms(2-7) .

lemma data_inv_parent:
  assumes i: "control_inv E s" and d: "data_inv E s ws" and step: "parent_step E c s = Some s'"
  shows "data_inv E s' ws"
proof -
  have "ppc s \<noteq> P_fault" using i by (simp add: control_inv_def)
  from step this show ?thesis
  proof (cases rule: parent_stepE)
    case at_fork1
    then have "cpc s Child1 = C_none" using i by (simp add: control_inv_def)
    with at_fork1 show ?thesis by (intro data_inv_frame [OF d]) (simp_all add: done_defs)
  next
    case at_fork2
    then have "cpc s Child2 = C_none" using i by (simp add: control_inv_def)
    with at_fork2 show ?thesis by (intro data_inv_frame [OF d]) (simp_all add: done_defs)
  next
    case (at_wait nx)
    then have "cpc s c = C_zombie" "s' = s\<lparr>cpc := (cpc s)(c := C_reaped), ppc := nx\<rparr>"
      using wait_any_reaps [OF i _ at_wait(2)] by auto
    with at_wait(1) show ?thesis by (intro data_inv_frame [OF d]) (auto simp: done_defs)
  next
    case (at_read nx)
    then show ?thesis by (intro data_inv_read [OF d _ _ _ at_read(2)]) (auto simp: done_defs)
  next
    case (at_print nx)
    then show ?thesis by (intro data_inv_print [OF d _ _ _ at_print(2)]) (auto simp: done_defs)
  next
    case at_pipe
    then show ?thesis by (intro data_inv_frame [OF d]) (simp_all add: done_defs)
  next
    case at_exit
    then show ?thesis by (intro data_inv_frame [OF d]) (simp_all add: done_defs)
  qed
qed

lemma pipe_inv_step: "pipe_inv E s \<Longrightarrow> pipe_step E s s' \<Longrightarrow> pipe_inv E s'"
  unfolding pipe_inv_def
  by (elim pipe_stepE)
    (meson control_inv_child data_inv_child, meson control_inv_parent data_inv_parent)

subsection \<open>Progress and rank\<close>

fun child_rank :: "cpc \<Rightarrow> nat" where
  "child_rank C_lock = 5" | "child_rank C_sprintf = 4" | "child_rank (C_write b) = 3" | "child_rank C_unlock = 2"
| "child_rank C_exit = 1" | "child_rank C_zombie = 0" | "child_rank C_reaped = 0" | "child_rank C_none = 5"

definition pipe_rank :: "pipe_sys \<Rightarrow> nat" where
  "pipe_rank s = child_rank (cpc s Child1) + child_rank (cpc s Child2) + (11 - ppos (ppc s))"

lemma pipe_rank_child: "child_step E c s = Some s' \<Longrightarrow> pipe_rank s' < pipe_rank s"
  by (elim child_stepE; cases c) (simp_all add: pipe_rank_def)

lemma pipe_rank_parent:
  assumes i: "control_inv E s" and step: "parent_step E c s = Some s'"
  shows "pipe_rank s' < pipe_rank s"
proof -
  have "ppc s \<noteq> P_fault" using i by (simp add: control_inv_def)
  from step this show ?thesis
  proof (cases rule: parent_stepE)
    case at_fork1
    moreover from this have "cpc s Child1 = C_none" using i by (simp add: control_inv_def)
    ultimately show ?thesis by (simp add: pipe_rank_def)
  next
    case at_fork2
    moreover from this have "cpc s Child2 = C_none" using i by (simp add: control_inv_def)
    ultimately show ?thesis by (simp add: pipe_rank_def)
  next
    case (at_wait nx)
    then have "cpc s c = C_zombie" "s' = s\<lparr>cpc := (cpc s)(c := C_reaped), ppc := nx\<rparr>"
      using wait_any_reaps [OF i _ at_wait(2)] by auto
    with at_wait(1) show ?thesis by (cases c) (auto simp: pipe_rank_def)
  next
    case (at_read nx)
    then show ?thesis by (auto simp: pipe_rank_def read_pipe_def split: if_splits)
  next
    case (at_print nx)
    then show ?thesis by (auto simp: pipe_rank_def print_inpipe_def split: option.splits)
  qed (simp_all add: pipe_rank_def)
qed

lemma child_can_step:
  assumes "cpc s c \<notin> {C_none, C_zombie, C_reaped}"
    and "cpc s c = C_lock \<Longrightarrow> \<not> locking E \<or> lock s = None \<or> lock s = Some c"
  shows "\<exists>s'. child_step E c s = Some s'"
  using assms by (cases "cpc s c") (auto simp: child_step_def)

text \<open>A child that is still running: if it waits for the lock, the one that has the lock can go on.\<close>

lemma running_child_progress:
  assumes i: "control_inv E s" and c: "cpc s c \<notin> {C_none, C_zombie, C_reaped}"
  shows "\<exists>s'. pipe_step E s s'"
proof (cases "locking E \<and> (\<exists>d. lock s = Some d \<and> d \<noteq> c)")
  case True
  then obtain d where "lock s = Some d" by blast
  then have h: "holding (cpc s d)" using i by (simp add: control_inv_def)
  have "\<exists>s'. child_step E d s = Some s'"
    by (rule child_can_step) (use h in \<open>auto\<close>)
  then show ?thesis by (blast intro: pipe_step.child)
next
  case False
  have "\<exists>s'. child_step E c s = Some s'"
    by (rule child_can_step [OF c]) (use False in \<open>cases "lock s"; auto\<close>)
  then show ?thesis by (blast intro: pipe_step.child)
qed

lemma pipe_filled:
  assumes i: "control_inv E s" and d: "data_inv E s ws" and p: "ppc s = P_read1 \<or> ppc s = P_read2"
  shows "pipe s \<noteq> []"
proof -
  have w: "has_written (cpc s c) \<Longrightarrow> c \<in> set ws" for c using d unfolding data_inv_def by blast
  have "reads_done (ppc s) < length ws"
  proof (cases "ppc s = P_read1")
    case True
    then have "cpc s Child1 = C_reaped \<or> cpc s Child2 = C_reaped" using i by (simp add: control_inv_def)
    then have "Child1 \<in> set ws \<or> Child2 \<in> set ws" using w by fastforce
    then show ?thesis using True by (auto simp: done_defs)
  next
    case False
    then have "cpc s Child1 = C_reaped" "cpc s Child2 = C_reaped" using i p by (auto simp: control_inv_def)
    then have "{Child1, Child2} \<subseteq> set ws" using w by fastforce
    then have "card {Child1, Child2} \<le> length ws" by (meson List.finite_set card_length card_mono order_trans)
    then show ?thesis using False p by (auto simp: done_defs)
  qed
  then have "pipe s = packet E (ws ! reads_done (ppc s)) @ concat (map (packet E) (drop (Suc (reads_done (ppc s))) ws))"
    using d by (simp add: data_inv_def Cons_nth_drop_Suc [symmetric])
  then show ?thesis using length_packet by (metis append_is_Nil_conv list.size(3) zero_neq_numeral)
qed

lemma pipe_progress:
  assumes "pipe_inv E s" and "ppc s \<noteq> P_done"
  shows "\<exists>s'. pipe_step E s s'"
proof -
  obtain ws where i: "control_inv E s" and d: "data_inv E s ws" using assms(1) by (auto simp: pipe_inv_def)
  have "ppc s \<noteq> P_fault" using i by (simp add: control_inv_def)
  consider "\<exists>c s'. parent_step E c s = Some s'" | "ppc s = P_read1 \<or> ppc s = P_read2" | "ppc s = P_wait1 \<or> ppc s = P_wait2"
    using assms(2) \<open>ppc s \<noteq> P_fault\<close>
    by (cases "ppc s") (auto simp: parent_step_def print_inpipe_def split: option.splits)
  then show ?thesis
  proof cases
    case 1
    then show ?thesis by (blast intro: pipe_step.parent)
  next
    case 2
    then have "\<exists>s'. parent_step E Child1 s = Some s'"
      using pipe_filled [OF i d] by (auto simp: parent_step_def read_pipe_def)
    then show ?thesis by (blast intro: pipe_step.parent)
  next
    case 3
    show ?thesis
    proof (cases "\<exists>c. cpc s c = C_zombie")
      case True
      then obtain c where "cpc s c = C_zombie" by blast
      then have "\<exists>s'. parent_step E c s = Some s'" using 3 by (auto simp: parent_step_def wait_any_def)
      then show ?thesis by (blast intro: pipe_step.parent)
    next
      case False
      have "cpc s Child1 \<noteq> C_none" "cpc s Child2 \<noteq> C_none" "\<not> (cpc s Child1 = C_reaped \<and> cpc s Child2 = C_reaped)"
        using i 3 by (auto simp: control_inv_def)
      then have "\<exists>c. cpc s c \<notin> {C_none, C_zombie, C_reaped}" using False by blast
      then show ?thesis using running_child_progress [OF i] by blast
    qed
  qed
qed

lemma pipe_rank_step: "pipe_inv E s \<Longrightarrow> pipe_step E s s' \<Longrightarrow> pipe_rank s' < pipe_rank s"
  unfolding pipe_inv_def by (elim pipe_stepE) (blast intro: pipe_rank_child pipe_rank_parent)+

interpretation pipes: finishing "pipe_step E" "pipe_inv E" pipe_rank "\<lambda>s. ppc s = P_done" for E
  by unfold_locales (blast intro: pipe_inv_step pipe_rank_step pipe_progress)+

subsection \<open>The program\<close>

lemma pipe_done_lines:
  assumes "pipe_inv E s" and "ppc s = P_done"
  shows "lines s = [child_msg Child1, child_msg Child2] \<or> lines s = [child_msg Child2, child_msg Child1]"
proof -
  obtain ws where i: "control_inv E s" and d: "data_inv E s ws" using assms(1) by (auto simp: pipe_inv_def)
  have "2 \<le> length ws" and dist: "distinct ws" and l: "lines s = map child_msg (take 2 ws)"
    using d assms(2) by (simp_all add: data_inv_def done_defs)
  then obtain a b ws' where "ws = a # b # ws'" by (cases ws; cases "tl ws") auto
  with dist l show ?thesis by (cases a; cases b) auto
qed

lemma pipe_done_stuck: "pipe_inv E s \<Longrightarrow> ppc s = P_done \<Longrightarrow> \<not> pipe_step E s s'"
proof
  assume i: "pipe_inv E s" and "ppc s = P_done" and "pipe_step E s s'"
  then have "cpc s Child1 = C_reaped" "cpc s Child2 = C_reaped" by (auto simp: pipe_inv_def control_inv_def)
  then have "cpc s c = C_reaped" for c by (cases c) simp_all
  with \<open>pipe_step E s s'\<close> \<open>ppc s = P_done\<close> show False
    by (auto simp: child_step_def parent_step_def elim!: pipe_stepE)
qed

text \<open>
  Property C4. When both forks succeed, every interleaving, with or without working locks and
  whatever the stack held, ends within 21 steps; it stops only when the parent is done, never
  at an empty pipe or a lock and never at a buffer without a NUL; and then both messages have been
  printed, each once and whole.
\<close>

theorem pipe_program_finishes:
  assumes "fork1_ok E" and "fork2_ok E" and "(pipe_step E ^^ n) (pipe_start E) s"
  shows "n \<le> 21 \<and> ((\<nexists>s'. pipe_step E s s') \<longleftrightarrow> ppc s = P_done)
    \<and> (ppc s = P_done \<longrightarrow>
        lines s = [child_msg Child1, child_msg Child2] \<or> lines s = [child_msg Child2, child_msg Child1])"
proof -
  have start: "pipe_inv E (pipe_start E)" using assms(1,2) by (rule pipe_inv_start)
  have i: "pipe_inv E s" using pipes.run_inv [OF relpowp_imp_rtranclp [OF assms(3)] start] .
  have "n \<le> 21" using pipes.run_bounded [OF assms(3) start] by (simp add: pipe_rank_def pipe_start_def)
  then show ?thesis using pipes.progress [OF i] pipe_done_lines [OF i] pipe_done_stuck [OF i] by blast
qed

definition pipe_demo :: pipe_env where
  "pipe_demo = \<lparr>fork1_ok = True, fork2_ok = True, locking = True, outpipe_junk = (\<lambda>_. 7), inpipe_junk = (\<lambda>_. 9)\<rparr>"

theorem pipe_program_finishes_witness:
  "\<exists>n s. (pipe_step pipe_demo ^^ n) (pipe_start pipe_demo) s \<and> ppc s = P_done \<and> n \<le> 21 \<and> length (lines s) = 2"
proof -
  have ok: "fork1_ok pipe_demo" "fork2_ok pipe_demo" by (simp_all add: pipe_demo_def)
  obtain s where "(pipe_step pipe_demo)\<^sup>*\<^sup>* (pipe_start pipe_demo) s" and d: "ppc s = P_done"
    using pipes.can_finish [OF pipe_inv_start [OF ok]] by blast
  then obtain n where n: "(pipe_step pipe_demo ^^ n) (pipe_start pipe_demo) s" by (auto dest: rtranclp_imp_relpowp)
  have "n \<le> 21" "length (lines s) = 2" using pipe_program_finishes [OF ok n] d by auto
  with n d show ?thesis by blast
qed

lemma pipe_run_steps: "pipe_run E ts s = Some s' \<Longrightarrow> (pipe_step E)\<^sup>*\<^sup>* s s'"
proof (induction E ts s rule: pipe_run.induct)
  case (2 E c ts s)
  then obtain t where "child_step E c s = Some t" "(pipe_step E)\<^sup>*\<^sup>* t s'"
    by (auto simp: Option.bind_eq_Some_conv)
  then show ?case by (blast intro: pipe_step.child converse_rtranclp_into_rtranclp)
next
  case (3 E c ts s)
  then obtain t where "parent_step E c s = Some t" "(pipe_step E)\<^sup>*\<^sup>* t s'"
    by (auto simp: Option.bind_eq_Some_conv)
  then show ?case by (blast intro: pipe_step.parent converse_rtranclp_into_rtranclp)
qed simp

text \<open>The order in which the children have written is only ever extended.\<close>

lemma data_inv_run:
  assumes "(pipe_step E)\<^sup>*\<^sup>* s s'" and "pipe_inv E s" and "data_inv E s ws"
  shows "\<exists>ws'. data_inv E s' (ws @ ws')"
  using assms(1)
proof (induction rule: rtranclp_induct)
  case base
  then show ?case using assms(3) by (metis append_Nil2)
next
  case (step t u)
  then obtain ws' where d: "data_inv E t (ws @ ws')" by blast
  have i: "control_inv E t" using pipes.run_inv [OF step(1) assms(2)] by (simp add: pipe_inv_def)
  from step(2) show ?case
  proof cases
    case (child c)
    then show ?thesis using data_inv_child [OF i d] by (metis append.assoc)
  next
    case (parent c)
    then show ?thesis using data_inv_parent [OF i d] by blast
  qed
qed

text \<open>Child \<open>c\<close> runs as soon as both exist.\<close>

definition first_turns :: "child \<Rightarrow> turn list" where
  "first_turns c = replicate 3 (Parent_turn c) @ replicate 5 (Child_turn c)"

lemma first_turns_run:
  assumes "fork1_ok E" "fork2_ok E"
  shows "\<exists>s. pipe_run E (first_turns c) (pipe_start E) = Some s \<and> has_written (cpc s c) \<and> (\<forall>d. d \<noteq> c \<longrightarrow> cpc s d = C_lock)"
  using assms by (cases c)
    (auto simp: first_turns_def numeral_eq_Suc parent_step_def child_step_def pipe_start_def child_cases)

text \<open>
  Property C37. The order is not enforced: whichever child one picks, there is an interleaving in which
  its message is the first one printed. The assignment asks for the first child's message first;
  \<open>wait(0)\<close> waits for any child, and what is read is what was written first.
\<close>

theorem pipe_order_not_enforced:
  assumes ok: "fork1_ok E" "fork2_ok E"
  shows "\<exists>s. (pipe_step E)\<^sup>*\<^sup>* (pipe_start E) s \<and> ppc s = P_done \<and> length (lines s) = 2 \<and> hd (lines s) = child_msg c"
proof -
  obtain s where run: "pipe_run E (first_turns c) (pipe_start E) = Some s"
      and w: "has_written (cpc s c)" "\<forall>d. d \<noteq> c \<longrightarrow> cpc s d = C_lock"
    using first_turns_run [OF ok] by blast
  note steps = pipe_run_steps [OF run]
  have i: "pipe_inv E s" using pipes.run_inv [OF steps pipe_inv_start [OF ok]] .
  then obtain ws where d: "data_inv E s ws" by (auto simp: pipe_inv_def)
  then have "set ws = {c}" "distinct ws" using w by (auto simp: data_inv_def dest!: bspec)
  then have ws: "ws = [c]" by (cases ws; cases "tl ws") auto
  obtain s' where s': "(pipe_step E)\<^sup>*\<^sup>* s s'" "ppc s' = P_done" using pipes.can_finish [OF i] by blast
  obtain ws' where "data_inv E s' (c # ws')" using data_inv_run [OF s'(1) i d] ws by auto
  then have "lines s' = take 2 (map child_msg (c # ws'))" "2 \<le> length (c # ws')"
    using s'(2) by (simp_all add: data_inv_def done_defs take_map)
  then have "length (lines s') = 2" "hd (lines s') = child_msg c" by simp_all
  then show ?thesis using steps s' by (meson rtranclp_trans)
qed

theorem pipe_order_not_enforced_witness:
  "\<exists>s. (pipe_step pipe_demo)\<^sup>*\<^sup>* (pipe_start pipe_demo) s \<and> ppc s = P_done
     \<and> hd (lines s) = ''child 2 process is sending message!''"
  using pipe_order_not_enforced [of pipe_demo Child2] by (auto simp: pipe_demo_def child_msg_def)

subsection \<open>When a fork fails\<close>

text \<open>Bytes are conserved, whatever the forks answer, and only children that were forked write.\<close>

definition fork_ok :: "pipe_env \<Rightarrow> child \<Rightarrow> bool" where
  "fork_ok E c = (case c of Child1 \<Rightarrow> fork1_ok E | Child2 \<Rightarrow> fork2_ok E)"

definition forked_inv :: "pipe_env \<Rightarrow> pipe_sys \<Rightarrow> bool" where
  "forked_inv E s \<longleftrightarrow>
     (\<forall>c b. cpc s c = C_write b \<longrightarrow> length b = 100) \<and> (\<forall>c. cpc s c \<noteq> C_none \<longrightarrow> fork_ok E c)
   \<and> (ppos (ppc s) \<le> 1 \<longrightarrow> cpc s Child1 = C_none) \<and> (ppos (ppc s) \<le> 2 \<longrightarrow> cpc s Child2 = C_none)"

definition writes_done :: "pipe_sys \<Rightarrow> nat" where
  "writes_done s = of_bool (has_written (cpc s Child1)) + of_bool (has_written (cpc s Child2))"

definition count_inv :: "pipe_sys \<Rightarrow> bool" where
  "count_inv s \<longleftrightarrow> ppc s \<noteq> P_fault \<longrightarrow> length (pipe s) + 50 * reads_done (ppc s) = 50 * writes_done s"

lemma has_written_forked: "has_written pc \<Longrightarrow> pc \<noteq> C_none"
  by auto

lemma forked_inv_child: "forked_inv E s \<Longrightarrow> child_step E c s = Some s' \<Longrightarrow> forked_inv E s'"
  by (elim child_stepE; cases c) (auto simp: forked_inv_def outpipe_def)

lemma count_inv_child:
  assumes "forked_inv E s" "count_inv s" "child_step E c s = Some s'"
  shows "count_inv s'"
  using assms(3)
proof (cases rule: child_stepE)
  case (at_write b)
  then have "length b = 100" using assms(1) by (simp add: forked_inv_def)
  then show ?thesis using at_write assms(2) by (cases c) (simp_all add: count_inv_def writes_done_def)
qed (use assms(2) in \<open>cases c; simp add: count_inv_def writes_done_def\<close>)+

lemma read_pipe_takes:
  assumes "read_pipe nx s = Some s'" and "50 \<le> length (pipe s)"
  shows "length (pipe s') + 50 = length (pipe s)" and "cpc s' = cpc s" and "ppc s' = nx"
  using assms by (auto simp: read_pipe_def split: if_splits)

lemma forked_count_parent:
  assumes f: "forked_inv E s" and n: "count_inv s" and step: "parent_step E c s = Some s'"
  shows "forked_inv E s' \<and> count_inv s'"
proof (cases "ppc s = P_fault")
  case False
  from step False show ?thesis
  proof (cases rule: parent_stepE)
    case at_fork1
    then show ?thesis using f n by (simp add: forked_inv_def count_inv_def writes_done_def done_defs fork_ok_def)
  next
    case at_fork2
    then show ?thesis using f n by (simp add: forked_inv_def count_inv_def writes_done_def done_defs fork_ok_def)
  next
    case (at_wait nx)
    then consider "cpc s c = C_zombie" "s' = s\<lparr>cpc := (cpc s)(c := C_reaped), ppc := nx\<rparr>" | "s' = s\<lparr>ppc := nx\<rparr>"
      by (auto simp: wait_any_def split: if_splits)
    moreover have "reads_done nx = reads_done (ppc s)" "nx \<noteq> P_fault" "\<not> ppos nx \<le> 2" using at_wait(1) by (auto simp: done_defs)
    ultimately show ?thesis using f n False
      by cases (cases c; simp add: forked_inv_def count_inv_def writes_done_def; blast)+
  next
    case (at_read nx)
    then have nx: "reads_done nx = Suc (reads_done (ppc s))" "\<not> ppos nx \<le> 2" by (auto simp: done_defs)
    have "length (pipe s) + 50 * reads_done (ppc s) = 50 * writes_done s" "0 < length (pipe s)"
      using n False at_read by (auto simp: count_inv_def read_pipe_def split: if_splits)
    then have "50 \<le> length (pipe s)" by presburger
    note r = read_pipe_takes [OF at_read(2) this]
    show ?thesis using f n nx r False by (simp add: forked_inv_def count_inv_def writes_done_def)
  next
    case (at_print nx)
    then have p: "cpc s' = cpc s" "pipe s' = pipe s" "ppc s' = nx \<or> ppc s' = P_fault"
      by (auto simp: print_inpipe_def split: option.splits)
    have nx: "reads_done nx = reads_done (ppc s)" "\<not> ppos nx \<le> 2" using at_print(1) by (auto simp: done_defs)
    from p(3) show ?thesis
      by (elim disjE) (use f n nx p(1,2) False in \<open>simp_all add: forked_inv_def count_inv_def writes_done_def\<close>)
  qed (use f n in \<open>simp_all add: forked_inv_def count_inv_def writes_done_def done_defs\<close>)
qed (use step in \<open>simp add: parent_step_def\<close>)

lemma fork_failure_run:
  assumes "(pipe_step E)\<^sup>*\<^sup>* (pipe_start E) s"
  shows "forked_inv E s \<and> count_inv s"
  using assms
proof (induction rule: rtranclp_induct)
  case base
  show ?case by (simp add: forked_inv_def count_inv_def writes_done_def pipe_start_def done_defs)
next
  case (step t u)
  from step(2) show ?case
    by cases (use step(3) forked_inv_child count_inv_child forked_count_parent in blast)+
qed

text \<open>
  If a fork fails, which the program does not check, the parent never gets past its
  second read (its first, if both fail): it waits for data at a pipe whose writing end it holds
  open itself.
\<close>

lemma pipe_fork_failure_blocks:
  assumes "(pipe_step E)\<^sup>*\<^sup>* (pipe_start E) s" and "\<not> (fork1_ok E \<and> fork2_ok E)" and "ppc s \<noteq> P_fault"
  shows "ppos (ppc s) \<le> ppos P_read2 \<and> (\<not> fork1_ok E \<and> \<not> fork2_ok E \<longrightarrow> ppos (ppc s) \<le> ppos P_read1)"
proof -
  have f: "\<forall>c. cpc s c \<noteq> C_none \<longrightarrow> fork_ok E c" and n: "count_inv s"
    using fork_failure_run [OF assms(1)] by (auto simp: forked_inv_def)
  have "has_written (cpc s Child1) \<longrightarrow> fork1_ok E" "has_written (cpc s Child2) \<longrightarrow> fork2_ok E"
    using f has_written_forked by (fastforce simp: fork_ok_def dest: spec [of _ Child1], fastforce simp: fork_ok_def dest: spec [of _ Child2])
  then have "reads_done (ppc s) \<le> 1" "\<not> fork1_ok E \<and> \<not> fork2_ok E \<longrightarrow> reads_done (ppc s) = 0"
    using n assms(2,3)
    by (cases "has_written (cpc s Child1)"; cases "has_written (cpc s Child2)"; auto simp: count_inv_def writes_done_def)+
  then show ?thesis by (auto simp: reads_done_def split: if_splits)
qed

end
