(* ===== verification/Join.thy ===== *)
theory Join
  imports Interleaving
begin

section \<open>Creating and joining a thread\<close>

text \<open>
  \<^verbatim>\<open>src/exp1/exp1.3.c\<close>: \<open>main\<close> creates a thread, both count and print, \<open>main\<close> joins the thread. A step is
  one statement of one of the two; the output is the list of lines with the thread that printed
  them. The answer of \<open>pthread_create\<close> is a parameter. The theorem says that every interleaving ends,
  with the lines of each thread in its program order and \<open>main\<close>'s last line after all others.
\<close>

subsection \<open>State\<close>

text \<open>\<open>T_loop i\<close> is at the loop's test with \<open>timer = i\<close>, \<open>T_sleep i\<close> after printing it.\<close>

datatype tstate = T_none | T_loop nat | T_print nat | T_sleep nat | T_msg | T_exit | T_exited

datatype mstate =
    M_create | M_error | M_loop nat | M_print nat | M_sleep nat | M_msg | M_join | M_finish | M_done int

datatype writer = Main_thread | New_thread

type_synonym text_line = "string \<times> int list"

record join_sys =
  tstate :: tstate
  mstate :: mstate
  screen :: "(writer \<times> text_line) list"

definition join_start :: join_sys where
  "join_start = \<lparr>tstate = T_none, mstate = M_create, screen = []\<rparr>"

definition put_line :: "writer \<Rightarrow> string \<Rightarrow> int list \<Rightarrow> join_sys \<Rightarrow> join_sys" where
  "put_line w fmt args s = s\<lparr>screen := screen s @ [(w, fmt, args)]\<rparr>"

subsection \<open>The two threads\<close>

text \<open>The messages.\<close>

definition thread_count_fmt :: string where "thread_count_fmt = ''ThreadFunction: %d'' @ [CHR 0x0A]"
definition thread_done_msg :: string where "thread_done_msg = ''ThreadFunction: Done. Exiting thread.'' @ [CHR 0x0A]"
definition create_error_msg :: string where "create_error_msg = ''Error creating thread'' @ [CHR 0x0A]"
definition main_count_fmt :: string where "main_count_fmt = ''Main: %d'' @ [CHR 0x0A]"
definition waiting_msg :: string where "waiting_msg = ''Main: Waiting for thread to finish'' @ [CHR 0x0A]"
definition finished_msg :: string where "finished_msg = ''Main: Thread has finished'' @ [CHR 0x0A]"

definition ThreadFunction :: "join_sys \<Rightarrow> join_sys option" where
  "ThreadFunction s =
     (case tstate s of
        T_none \<Rightarrow> None
      | T_loop i \<Rightarrow> Some (s\<lparr>tstate := if i < 10 then T_print i else T_msg\<rparr>)
      | T_print i \<Rightarrow> Some (put_line New_thread thread_count_fmt [int i] (s\<lparr>tstate := T_sleep i\<rparr>))
      | T_sleep i \<Rightarrow> Some (s\<lparr>tstate := T_loop (i + 1)\<rparr>)
      | T_msg \<Rightarrow> Some (put_line New_thread thread_done_msg [] (s\<lparr>tstate := T_exit\<rparr>))
      | T_exit \<Rightarrow> Some (s\<lparr>tstate := T_exited\<rparr>)
      | T_exited \<Rightarrow> None)"

definition main_thread :: "bool \<Rightarrow> join_sys \<Rightarrow> join_sys option" where
  "main_thread create_ok s =
     (case mstate s of
        M_create \<Rightarrow> Some (if create_ok then s\<lparr>tstate := T_loop 0, mstate := M_loop 0\<rparr> else s\<lparr>mstate := M_error\<rparr>)
      | M_error \<Rightarrow> Some (put_line Main_thread create_error_msg [] (s\<lparr>mstate := M_done 1\<rparr>))
      | M_loop i \<Rightarrow> Some (s\<lparr>mstate := if i < 5 then M_print i else M_msg\<rparr>)
      | M_print i \<Rightarrow> Some (put_line Main_thread main_count_fmt [int i] (s\<lparr>mstate := M_sleep i\<rparr>))
      | M_sleep i \<Rightarrow> Some (s\<lparr>mstate := M_loop (i + 1)\<rparr>)
      | M_msg \<Rightarrow> Some (put_line Main_thread waiting_msg [] (s\<lparr>mstate := M_join\<rparr>))
      | M_join \<Rightarrow> if tstate s = T_exited then Some (s\<lparr>mstate := M_finish\<rparr>) else None
      | M_finish \<Rightarrow> Some (put_line Main_thread finished_msg [] (s\<lparr>mstate := M_done 0\<rparr>))
      | M_done _ \<Rightarrow> None)"

inductive join_step :: "bool \<Rightarrow> join_sys \<Rightarrow> join_sys \<Rightarrow> bool" for ok where
  thread: "ThreadFunction s = Some s' \<Longrightarrow> join_step ok s s'"
| main: "main_thread ok s = Some s' \<Longrightarrow> join_step ok s s'"

inductive_cases join_stepE: "join_step ok s s'"

subsection \<open>What each has printed\<close>

definition lines_of :: "writer \<Rightarrow> (writer \<times> text_line) list \<Rightarrow> text_line list" where
  "lines_of w out = map snd (filter (\<lambda>l. fst l = w) out)"

definition counting :: "string \<Rightarrow> nat \<Rightarrow> text_line list" where
  "counting fmt n = map (\<lambda>i. (fmt, [int i])) [0..<n]"

fun thread_lines :: "tstate \<Rightarrow> text_line list" where
  "thread_lines T_none = []"
| "thread_lines (T_loop i) = counting thread_count_fmt i"
| "thread_lines (T_print i) = counting thread_count_fmt i"
| "thread_lines (T_sleep i) = counting thread_count_fmt (Suc i)"
| "thread_lines T_msg = counting thread_count_fmt 10"
| "thread_lines _ = counting thread_count_fmt 10 @ [(thread_done_msg, [])]"

fun main_lines :: "mstate \<Rightarrow> text_line list" where
  "main_lines M_create = []"
| "main_lines M_error = []"
| "main_lines (M_loop i) = counting main_count_fmt i"
| "main_lines (M_print i) = counting main_count_fmt i"
| "main_lines (M_sleep i) = counting main_count_fmt (Suc i)"
| "main_lines M_msg = counting main_count_fmt 5"
| "main_lines M_join = counting main_count_fmt 5 @ [(waiting_msg, [])]"
| "main_lines M_finish = counting main_count_fmt 5 @ [(waiting_msg, [])]"
| "main_lines (M_done r) =
     (if r = 0 then counting main_count_fmt 5 @ [(waiting_msg, []),
        (finished_msg, [])]
      else [(create_error_msg, [])])"

definition bounded_counters :: "join_sys \<Rightarrow> bool" where
  "bounded_counters s \<longleftrightarrow>
     (\<forall>i. tstate s = T_loop i \<longrightarrow> i \<le> 10) \<and> (\<forall>i. tstate s = T_print i \<or> tstate s = T_sleep i \<longrightarrow> i < 10)
   \<and> (\<forall>i. mstate s = M_loop i \<longrightarrow> i \<le> 5) \<and> (\<forall>i. mstate s = M_print i \<or> mstate s = M_sleep i \<longrightarrow> i < 5)"

definition printed_inv :: "join_sys \<Rightarrow> bool" where
  "printed_inv s \<longleftrightarrow>
     lines_of New_thread (screen s) = thread_lines (tstate s) \<and> lines_of Main_thread (screen s) = main_lines (mstate s)
   \<and> (mstate s = M_done 0 \<longrightarrow> last (screen s) = (Main_thread, finished_msg, []))"

definition phase_inv :: "bool \<Rightarrow> join_sys \<Rightarrow> bool" where
  "phase_inv ok s \<longleftrightarrow>
     (tstate s = T_none \<longleftrightarrow> mstate s \<in> {M_create, M_error, M_done 1})
   \<and> (mstate s \<in> {M_finish, M_done 0} \<longrightarrow> tstate s = T_exited)
   \<and> (mstate s = M_error \<longrightarrow> \<not> ok) \<and> (mstate s \<notin> {M_create, M_error, M_done 1} \<longrightarrow> ok)
   \<and> (\<forall>r. mstate s = M_done r \<longrightarrow> r = (if ok then 0 else 1))"

definition join_inv :: "bool \<Rightarrow> join_sys \<Rightarrow> bool" where
  "join_inv ok s \<longleftrightarrow> bounded_counters s \<and> printed_inv s \<and> phase_inv ok s"

lemmas join_inv_defs = join_inv_def bounded_counters_def printed_inv_def phase_inv_def

lemma lines_of_put [simp]:
  "lines_of w (screen (put_line w' fmt args s)) = lines_of w (screen s) @ (if w = w' then [(fmt, args)] else [])"
  by (simp add: lines_of_def put_line_def)

lemma put_line_frame [simp]:
  "tstate (put_line w fmt args s) = tstate s" "mstate (put_line w fmt args s) = mstate s"
  "last (screen (put_line w fmt args s)) = (w, fmt, args)"
  by (simp_all add: put_line_def)

lemma counting_0 [simp]: "counting fmt 0 = []"
  by (simp add: counting_def)

lemma counting_Suc [simp]: "counting fmt (Suc n) = counting fmt n @ [(fmt, [int n])]"
  by (simp add: counting_def)

lemma join_inv_start: "join_inv ok join_start"
  by (simp add: join_inv_defs join_start_def lines_of_def)

lemma thread_bounded: "bounded_counters s \<Longrightarrow> ThreadFunction s = Some s' \<Longrightarrow> bounded_counters s'"
  by (cases "tstate s") (auto simp: ThreadFunction_def bounded_counters_def split: if_splits)

lemma thread_phase: "phase_inv ok s \<Longrightarrow> ThreadFunction s = Some s' \<Longrightarrow> phase_inv ok s'"
  by (cases "tstate s") (auto simp: ThreadFunction_def phase_inv_def split: if_splits)

lemma thread_printed:
  assumes "bounded_counters s" "printed_inv s" "phase_inv ok s" "ThreadFunction s = Some s'"
  shows "printed_inv s'"
proof -
  have "mstate s \<noteq> M_done 0" using assms(3,4) by (auto simp: phase_inv_def ThreadFunction_def)
  moreover have "tstate s = T_loop i \<Longrightarrow> \<not> i < 10 \<Longrightarrow> i = 10" for i using assms(1) by (auto simp: bounded_counters_def)
  ultimately show ?thesis using assms(2,4)
    by (cases "tstate s") (auto simp: ThreadFunction_def printed_inv_def)
qed

lemma main_threadE:
  assumes "main_thread ok s = Some s'"
  obtains "mstate s = M_create" "ok" "s' = s\<lparr>tstate := T_loop 0, mstate := M_loop 0\<rparr>"
  | "mstate s = M_create" "\<not> ok" "s' = s\<lparr>mstate := M_error\<rparr>"
  | "mstate s = M_error" "s' = put_line Main_thread create_error_msg [] (s\<lparr>mstate := M_done 1\<rparr>)"
  | i where "mstate s = M_loop i" "i < 5" "s' = s\<lparr>mstate := M_print i\<rparr>"
  | i where "mstate s = M_loop i" "\<not> i < 5" "s' = s\<lparr>mstate := M_msg\<rparr>"
  | i where "mstate s = M_print i" "s' = put_line Main_thread main_count_fmt [int i] (s\<lparr>mstate := M_sleep i\<rparr>)"
  | i where "mstate s = M_sleep i" "s' = s\<lparr>mstate := M_loop (Suc i)\<rparr>"
  | "mstate s = M_msg" "s' = put_line Main_thread waiting_msg [] (s\<lparr>mstate := M_join\<rparr>)"
  | "mstate s = M_join" "tstate s = T_exited" "s' = s\<lparr>mstate := M_finish\<rparr>"
  | "mstate s = M_finish" "s' = put_line Main_thread finished_msg [] (s\<lparr>mstate := M_done 0\<rparr>)"
  using assms by (cases "mstate s") (simp_all add: main_thread_def split: if_splits)

lemma main_bounded: "bounded_counters s \<Longrightarrow> main_thread ok s = Some s' \<Longrightarrow> bounded_counters s'"
  by (cases "mstate s") (auto simp: main_thread_def bounded_counters_def split: if_splits)

lemma main_phase: "phase_inv ok s \<Longrightarrow> main_thread ok s = Some s' \<Longrightarrow> phase_inv ok s'"
  by (elim main_threadE) (simp_all add: phase_inv_def split: if_splits)

lemma main_printed:
  assumes "bounded_counters s" "printed_inv s" "phase_inv ok s" "main_thread ok s = Some s'"
  shows "printed_inv s'"
proof -
  have "mstate s = M_loop i \<Longrightarrow> \<not> i < 5 \<Longrightarrow> i = 5" for i using assms(1) by (auto simp: bounded_counters_def)
  moreover have "tstate s = T_none" if "mstate s = M_create" using that assms(3) by (simp add: phase_inv_def)
  ultimately show ?thesis using assms(2,4)
    by (cases "mstate s") (auto simp: main_thread_def printed_inv_def split: if_splits)
qed

lemma join_inv_step: "join_inv ok s \<Longrightarrow> join_step ok s s' \<Longrightarrow> join_inv ok s'"
  unfolding join_inv_def
  by (elim join_stepE)
    (blast intro: thread_bounded thread_phase thread_printed, blast intro: main_bounded main_phase main_printed)

subsection \<open>Progress and rank\<close>

fun thread_left :: "tstate \<Rightarrow> nat" where
  "thread_left T_none = 33" | "thread_left (T_loop i) = 3 * (10 - i) + 3" | "thread_left (T_print i) = 3 * (10 - i) + 2"
| "thread_left (T_sleep i) = 3 * (10 - i) + 1" | "thread_left T_msg = 2" | "thread_left T_exit = 1" | "thread_left T_exited = 0"

fun main_left :: "mstate \<Rightarrow> nat" where
  "main_left M_create = 21" | "main_left M_error = 1" | "main_left (M_loop i) = 3 * (5 - i) + 5"
| "main_left (M_print i) = 3 * (5 - i) + 4" | "main_left (M_sleep i) = 3 * (5 - i) + 3" | "main_left M_msg = 4"
| "main_left M_join = 2" | "main_left M_finish = 1" | "main_left (M_done r) = 0"

definition join_rank :: "join_sys \<Rightarrow> nat" where
  "join_rank s = thread_left (tstate s) + main_left (mstate s)"

lemma join_rank_step:
  assumes "join_inv ok s" and "join_step ok s s'"
  shows "join_rank s' < join_rank s"
  using assms(2)
proof cases
  case thread
  then show ?thesis using assms(1)
    by (cases "tstate s") (auto simp: ThreadFunction_def join_rank_def join_inv_def bounded_counters_def)
next
  case main
  then show ?thesis using assms(1)
    by (elim main_threadE) (auto simp: join_rank_def join_inv_def bounded_counters_def phase_inv_def)
qed

lemma join_progress:
  assumes i: "join_inv ok s" and n: "\<not> (\<exists>r. mstate s = M_done r)"
  shows "\<exists>s'. join_step ok s s'"
proof (cases "mstate s = M_join \<and> tstate s \<noteq> T_exited")
  case True
  then have "\<exists>s'. ThreadFunction s = Some s'"
    using i by (cases "tstate s") (auto simp: ThreadFunction_def join_inv_def phase_inv_def)
  then show ?thesis by (blast intro: join_step.thread)
next
  case False
  then have "\<exists>s'. main_thread ok s = Some s'" using n by (cases "mstate s") (auto simp: main_thread_def)
  then show ?thesis by (blast intro: join_step.main)
qed

interpretation join: finishing "join_step ok" "join_inv ok" join_rank "\<lambda>s. \<exists>r. mstate s = M_done r" for ok
  by unfold_locales (auto intro: join_inv_step join_rank_step join_progress)

subsection \<open>The program\<close>

lemma join_done_stuck: "join_inv ok s \<Longrightarrow> mstate s = M_done r \<Longrightarrow> \<not> join_step ok s s'"
  by (cases ok) (auto simp: join_inv_def phase_inv_def ThreadFunction_def main_thread_def elim!: join_stepE)

lemma join_done_lines:
  assumes "join_inv ok s" and "mstate s = M_done r"
  shows "r = (if ok then 0 else 1)
    \<and> lines_of Main_thread (screen s) =
        (if ok then counting main_count_fmt 5 @ [(waiting_msg, []), (finished_msg, [])] else [(create_error_msg, [])])
    \<and> lines_of New_thread (screen s) = (if ok then counting thread_count_fmt 10 @ [(thread_done_msg, [])] else [])
    \<and> (ok \<longrightarrow> last (screen s) = (Main_thread, finished_msg, []))"
  using assms by (cases ok) (auto simp: join_inv_def phase_inv_def printed_inv_def)

text \<open>
  Property C38. Every interleaving of the program ends within 54 steps and only when \<open>main\<close> has
  returned. If the thread could be created, the result is 0, the thread has printed 0 to 9 and its
  farewell, \<open>main\<close> 0 to 4 and its two messages, each in program order, and the message that
  the thread has finished comes after every other line; if not, the result is 1 and the error is all
  there is.
\<close>

theorem join_program_result:
  assumes "(join_step ok ^^ n) join_start s"
  shows "n \<le> 54 \<and> ((\<nexists>s'. join_step ok s s') \<longleftrightarrow> (\<exists>r. mstate s = M_done r))
    \<and> (\<forall>r. mstate s = M_done r \<longrightarrow> r = (if ok then 0 else 1)
        \<and> lines_of Main_thread (screen s) =
            (if ok then counting main_count_fmt 5 @ [(waiting_msg, []), (finished_msg, [])] else [(create_error_msg, [])])
        \<and> lines_of New_thread (screen s) = (if ok then counting thread_count_fmt 10 @ [(thread_done_msg, [])] else [])
        \<and> (ok \<longrightarrow> last (screen s) = (Main_thread, finished_msg, [])))"
proof -
  have i: "join_inv ok s" using join.run_inv [OF relpowp_imp_rtranclp [OF assms] join_inv_start] .
  have "n \<le> 54" using join.run_bounded [OF assms join_inv_start] by (simp add: join_rank_def join_start_def)
  then show ?thesis using join.progress [OF i] join_done_lines [OF i] join_done_stuck [OF i] by blast
qed

theorem join_program_result_witness:
  "\<exists>n s. (join_step True ^^ n) join_start s \<and> mstate s = M_done 0 \<and> n \<le> 54
     \<and> last (screen s) = (Main_thread, ''Main: Thread has finished'' @ [CHR 0x0A], [])"
proof -
  obtain s r where "(join_step True)\<^sup>*\<^sup>* join_start s" and d: "mstate s = M_done r"
    using join.can_finish [OF join_inv_start, of True] by blast
  then obtain n where n: "(join_step True ^^ n) join_start s" by (auto dest: rtranclp_imp_relpowp)
  have "n \<le> 54" "r = 0" "last (screen s) = (Main_thread, finished_msg, [])"
    using join_program_result [OF n] d by simp_all
  with n d show ?thesis unfolding finished_msg_def by blast
qed

end
