(* ===== verification/Tasklist.thy ===== *)
theory Tasklist
  imports Kernel
begin

section \<open>Printing the task list\<close>

text \<open>
  The kernel module \<^verbatim>\<open>src/exp1/exp1_8.c\<close>: its init function walks along the kernel's circular list of
  tasks and prints each. The list belongs to the kernel: what the next pointer and the task at a
  list node are is the parameter \<open>task_list\<close>, which is given the log, because the module's own lock
  (a static variable that is never initialised, so unlocked) keeps nobody from changing the list
  while it is read. The walk ends only when it comes back to the head, so it is a partial function;
  that it does on a ring that stays as it is, is proved.
\<close>

subsection \<open>State\<close>

record task_struct =
  pid :: int
  comm :: string

record task_list =
  list_next :: "klog \<Rightarrow> ptr \<Rightarrow> ptr option"
  task_entry :: "klog \<Rightarrow> ptr \<Rightarrow> task_struct option"
  init_task_tasks :: ptr

type_synonym task_info_st = kctx

subsection \<open>Init and exit\<close>

definition say_info :: "string \<Rightarrow> karg list \<Rightarrow> task_info_st \<Rightarrow> task_info_st" where
  "say_info fmt args s = snd (run_state (printk (KERN_INFO @ fmt) args) s)"

definition task_line :: "task_struct \<Rightarrow> kevent" where
  "task_line t = Printk (KERN_INFO @ ''PID: %d, Name: %s'' @ nl) [KInt (pid t), KStr (comm t)]"

text \<open>The loop: the position, and the number of tasks so far, an \<open>int\<close> of 32 bits.\<close>

partial_function (option) list_for_each ::
  "task_list \<Rightarrow> ptr \<Rightarrow> u32 \<Rightarrow> task_info_st \<Rightarrow> (kfault + u32 \<times> task_info_st) option" where
  "list_for_each T pos n s =
     (if pos = init_task_tasks T then Some (Inr (n, s))
      else case task_entry T (klog s) pos of
             None \<Rightarrow> Some (Inl Bad_access)
           | Some t \<Rightarrow>
               (let s1 = s\<lparr>klog := klog s @ [task_line t]\<rparr>
                in case list_next T (klog s1) pos of
                     None \<Rightarrow> Some (Inl Bad_access)
                   | Some q \<Rightarrow> list_for_each T q (n + 1) s1))"

definition task_info_init :: "task_list \<Rightarrow> task_info_st \<Rightarrow> (kfault + int \<times> task_info_st) option" where
  "task_info_init T s =
     (let s1 = say_info (''Start printing all process informations.'' @ nl) [] s;
          s2 = snd (run_state (spin_lock ''lock'') s1)
      in case list_next T (klog s2) (init_task_tasks T) of
           None \<Rightarrow> Some (Inl Bad_access)
         | Some first \<Rightarrow> map_option (map_sum id (\<lambda>(n, s3).
             let s4 = snd (run_state (spin_unlock ''lock'') s3)
             in (0, say_info (''Print completed. Total processes: %d'' @ nl) [KInt (sint n)] s4)))
             (list_for_each T first 0 s2))"

definition task_info_exit :: "task_info_st \<Rightarrow> task_info_st" where
  "task_info_exit s = say_info (''Unloading Task Info Module'' @ nl) [] s"

subsection \<open>The ring\<close>

text \<open>From \<open>pos\<close>, the pointers lead through these nodes, with these tasks, back to the head.\<close>

fun ring_from :: "task_list \<Rightarrow> ptr \<Rightarrow> (ptr \<times> task_struct) list \<Rightarrow> bool" where
  "ring_from T pos [] \<longleftrightarrow> pos = init_task_tasks T"
| "ring_from T pos ((p, t) # ts) \<longleftrightarrow>
     pos = p \<and> p \<noteq> init_task_tasks T \<and> (\<forall>l. task_entry T l p = Some t)
   \<and> (\<exists>q. (\<forall>l. list_next T l p = Some q) \<and> ring_from T q ts)"

lemma list_for_each_ring:
  assumes "ring_from T pos ts"
  shows "list_for_each T pos n s =
     Some (Inr (n + of_nat (length ts), s\<lparr>klog := klog s @ map (task_line \<circ> snd) ts\<rparr>))"
  using assms
proof (induction T pos ts arbitrary: n s rule: ring_from.induct)
  case (1 T pos)
  then show ?case by (simp add: list_for_each.simps)
next
  case (2 T pos p t ts)
  then obtain q where q: "\<forall>l. list_next T l p = Some q" "ring_from T q ts" by auto
  show ?case using 2 q by (subst list_for_each.simps) (simp add: algebra_simps)
qed

text \<open>
  Property C39. On a list that is a ring and does not change, loading the module terminates without a
  fault and returns 0: it prints one line per task, in the order of the list and without the
  head, between taking and giving back its lock, and then their number.
\<close>

theorem task_info_prints_all:
  assumes "\<forall>l. list_next T l (init_task_tasks T) = Some first" and "ring_from T first ts"
    and "length ts < 2 ^ 31"
  shows "\<exists>s'. task_info_init T s = Some (Inr (0, s')) \<and>
     klog s' = klog s @ [Printk (KERN_INFO @ ''Start printing all process informations.'' @ nl) [], Spin_lock ''lock'']
       @ map (task_line \<circ> snd) ts
       @ [Spin_unlock ''lock'', Printk (KERN_INFO @ ''Print completed. Total processes: %d'' @ nl) [KInt (int (length ts))]]"
proof -
  have "unat (of_nat (length ts) :: u32) = length ts"
    using assms(3) by (simp add: unsigned_of_nat take_bit_nat_eq_self)
  then have "sint (of_nat (length ts) :: u32) = int (length ts)"
    using sint_nonneg [of "of_nat (length ts)"] assms(3) by simp
  then show ?thesis
    by (simp add: task_info_init_def say_info_def kmonad assms(1) list_for_each_ring [OF assms(2)])
qed

definition two_tasks :: task_list where
  "two_tasks = \<lparr>list_next = (\<lambda>_ p. if p = 0x100 then Some 0x200 else if p = 0x200 then Some 0x300 else Some 0x100),
     task_entry = (\<lambda>_ p. if p = 0x200 then Some \<lparr>pid = 1, comm = ''init''\<rparr> else Some \<lparr>pid = 2, comm = ''kthreadd''\<rparr>),
     init_task_tasks = 0x100\<rparr>"

theorem task_info_prints_all_witness:
  "\<exists>s'. task_info_init two_tasks \<lparr>klog = []\<rparr> = Some (Inr (0, s')) \<and> length (klog s') = 6
     \<and> last (klog s') = Printk (KERN_INFO @ ''Print completed. Total processes: %d'' @ nl) [KInt 2]"
proof -
  have "ring_from two_tasks 0x200 [(0x200, \<lparr>pid = 1, comm = ''init''\<rparr>), (0x300, \<lparr>pid = 2, comm = ''kthreadd''\<rparr>)]"
    by (simp add: two_tasks_def)
  from task_info_prints_all [OF _ this, of "\<lparr>klog = []\<rparr>"] show ?thesis
    by (auto simp: two_tasks_def)
qed

end
