(* ===== verification/Fork_Exec.thy ===== *)
theory Fork_Exec
  imports Prelude
begin

section \<open>Forking and executing programs\<close>

text \<open>
  The small programs of the first experiments: \<^verbatim>\<open>src/exp1/exp1.1.c\<close> forks, \<^verbatim>\<open>src/exp1/exp1.2.1.c\<close> forks
  and lets the child execute \<^verbatim>\<open>src/exp1/exp1.2.2.c\<close>, \<^verbatim>\<open>src/exp2/exp2.1.1.c\<close> executes \<^verbatim>\<open>src/exp2/exp2.1.2.c\<close>.
  What makes them less trivial than they look is the buffer of \<open>stdout\<close>, which the model has: on a terminal
  \<open>printf\<close> writes out every complete line, to a file or pipe it only fills the buffer, which is
  written when the process exits and is gone when it executes another program. (The texts are
  far shorter than the buffer.) The processes after a \<open>fork\<close> run in any order: the output of the
  program is any interleaving of their \<open>write\<close> calls. From outside come the kind of \<open>stdout\<close>, the
  answers of \<open>fork\<close> in the parent (the child's process id, which is also what \<open>getpid\<close> answers in the child and
  never 0, or -1) and of \<open>getpid\<close>, and whether \<open>execlp\<close> finds the program.
\<close>

subsection \<open>Standard output\<close>

datatype stdout_kind = Terminal | File

record stdio =
  buffer :: string
  written :: "string list"

definition fresh_stdio :: stdio where
  "fresh_stdio = \<lparr>buffer = [], written = []\<rparr>"

text \<open>The complete lines at the front of a text, and the rest.\<close>

definition complete_lines :: "string \<Rightarrow> string \<times> string" where
  "complete_lines s =
     (rev (dropWhile (\<lambda>c. c \<noteq> CHR 0x0A) (rev s)), rev (takeWhile (\<lambda>c. c \<noteq> CHR 0x0A) (rev s)))"

definition write_out :: "string \<Rightarrow> stdio \<Rightarrow> stdio" where
  "write_out s io = (if s = [] then io else io\<lparr>written := written io @ [s]\<rparr>)"

definition printf :: "stdout_kind \<Rightarrow> string \<Rightarrow> stdio \<Rightarrow> stdio" where
  "printf k s io =
     (case k of
        Terminal \<Rightarrow> (let (lines, rest) = complete_lines (buffer io @ s) in (write_out lines io)\<lparr>buffer := rest\<rparr>)
      | File \<Rightarrow> io\<lparr>buffer := buffer io @ s\<rparr>)"

definition exit_process :: "stdio \<Rightarrow> stdio" where
  "exit_process io = (write_out (buffer io) io)\<lparr>buffer := []\<rparr>"

text \<open>A text with its newline.\<close>

definition line :: "string \<Rightarrow> string" where
  "line s = s @ [CHR 0x0A]"

text \<open>If the program is found it starts with an empty buffer; otherwise the caller goes on.\<close>

definition execlp :: "bool \<Rightarrow> (stdio \<Rightarrow> stdio) \<Rightarrow> (stdio \<Rightarrow> stdio) \<Rightarrow> stdio \<Rightarrow> stdio" where
  "execlp found prog otherwise io = (if found then prog (io\<lparr>buffer := []\<rparr>) else otherwise io)"

text \<open>\<^verbatim>\<open>%d\<close> of a process id.\<close>

definition show_int :: "int \<Rightarrow> string" where
  "show_int i = (if i < 0 then ''-'' @ decimal (nat (- i)) else decimal (nat i))"

subsection \<open>The programs\<close>

record fork_env =
  stdout :: stdout_kind
  fork_ans :: int
  own_pid :: int
  program_found :: bool

text \<open>
  A program that forks: the writes of the child and of the parent in any interleaving; if \<open>fork\<close>
  answers -1 there is only the parent.
\<close>

definition fork_program :: "fork_env \<Rightarrow> (stdio \<Rightarrow> stdio) \<Rightarrow> (stdio \<Rightarrow> stdio) \<Rightarrow> string list set" where
  "fork_program E child parent =
     (let parent_writes = written (parent fresh_stdio)
      in if fork_ans E < 0 then {parent_writes} else shuffles (written (child fresh_stdio)) parent_writes)"

definition exp1_1_child :: "fork_env \<Rightarrow> stdio \<Rightarrow> stdio" where
  "exp1_1_child E io = exit_process (printf (stdout E) (line (''I am child, pid: '' @ show_int (fork_ans E))) io)"

definition exp1_1_parent :: "fork_env \<Rightarrow> stdio \<Rightarrow> stdio" where
  "exp1_1_parent E io = exit_process (printf (stdout E)
     (line (''I am parent, pid: '' @ show_int (own_pid E) @ '', child pid: '' @ show_int (fork_ans E))) io)"

definition exp1_1 :: "fork_env \<Rightarrow> string list set" where
  "exp1_1 E = fork_program E (exp1_1_child E) (exp1_1_parent E)"

definition exp1_2_2 :: "stdout_kind \<Rightarrow> stdio \<Rightarrow> stdio" where
  "exp1_2_2 k io = exit_process (printf k (line ''I am exp 1.2.2'') io)"

definition exp1_2_1_child :: "fork_env \<Rightarrow> stdio \<Rightarrow> stdio" where
  "exp1_2_1_child E io = execlp (program_found E) (exp1_2_2 (stdout E)) exit_process
     (printf (stdout E) (line ''I am the child. Calling exp1.2.2'') io)"

definition exp1_2_1_parent :: "fork_env \<Rightarrow> stdio \<Rightarrow> stdio" where
  "exp1_2_1_parent E io = exit_process (printf (stdout E)
     (line (''I am the parent. My child is '' @ show_int (fork_ans E))) io)"

definition exp1_2_1 :: "fork_env \<Rightarrow> string list set" where
  "exp1_2_1 E = fork_program E (exp1_2_1_child E) (exp1_2_1_parent E)"

definition exp2_1_2 :: "stdout_kind \<Rightarrow> stdio \<Rightarrow> stdio" where
  "exp2_1_2 k io = exit_process (printf k (line ''I am exp 2.1.2'') io)"

definition exp2_1_1 :: "fork_env \<Rightarrow> string list" where
  "exp2_1_1 E = written (execlp (program_found E) (exp2_1_2 (stdout E)) exit_process
     (printf (stdout E) (line ''I am the exp2.1.1. Calling exp2.1.2'') fresh_stdio))"

subsection \<open>Lemmas\<close>

text \<open>A program that prints one line and exits writes that line, whatever \<open>stdout\<close> is.\<close>

lemma print_line_exit:
  "buffer io = [] \<Longrightarrow> exit_process (printf k (line s) io) = io\<lparr>written := written io @ [line s]\<rparr>"
  by (cases k) (simp_all add: printf_def exit_process_def write_out_def complete_lines_def line_def)

text \<open>A line printed before another program is executed: it gets out only on a terminal.\<close>

lemma print_line_exec:
  assumes "buffer io = []" and "\<And>io. buffer io = [] \<Longrightarrow> prog io = io\<lparr>written := written io @ [t]\<rparr>"
  shows "written (execlp found prog exit_process (printf k (line s) io)) =
     written io @ (if found \<and> k = File then [] else [line s]) @ (if found then [t] else [])"
  using assms
  by (cases k) (simp_all add: execlp_def printf_def exit_process_def write_out_def complete_lines_def line_def)

lemma print_exit: "written (exit_process (printf k (line s) fresh_stdio)) = [line s]"
  by (simp add: print_line_exit fresh_stdio_def)

lemma exec_exp1_2_2:
  "written (execlp found (exp1_2_2 k) exit_process (printf k' (line s) fresh_stdio)) =
     (if found \<and> k' = File then [] else [line s]) @ (if found then [line ''I am exp 1.2.2''] else [])"
  by (subst print_line_exec [where t = "line ''I am exp 1.2.2''"])
    (simp_all only: exp1_2_2_def print_line_exit fresh_stdio_def stdio.simps append_Nil)

lemma exec_exp2_1_2:
  "written (execlp found (exp2_1_2 k) exit_process (printf k' (line s) fresh_stdio)) =
     (if found \<and> k' = File then [] else [line s]) @ (if found then [line ''I am exp 2.1.2''] else [])"
  by (subst print_line_exec [where t = "line ''I am exp 2.1.2''"])
    (simp_all only: exp2_1_2_def print_line_exit fresh_stdio_def stdio.simps append_Nil)

lemma shuffles_singletons: "shuffles [x] [y] = {[x, y], [y, x]}"
  by auto

subsection \<open>What the programs write\<close>

text \<open>
  Property C24. The outputs of the programs, for any answers from outside: after \<open>fork\<close> both lines are
  written once, in either order; if it fails, the only process believes to be the parent of the
  child -1. A line printed before a successful \<open>execlp\<close> is written on a terminal and lost
  when \<open>stdout\<close> is a file, while the line of the executed program is written in any case.
\<close>

theorem fork_exec_outputs:
  "exp1_1 E =
     (let p = line (''I am parent, pid: '' @ show_int (own_pid E) @ '', child pid: '' @ show_int (fork_ans E));
          c = line (''I am child, pid: '' @ show_int (fork_ans E))
      in if fork_ans E < 0 then {[p]} else {[c, p], [p, c]})
   \<and> exp1_2_1 E =
     (let p = line (''I am the parent. My child is '' @ show_int (fork_ans E));
          c = (if program_found E \<and> stdout E = File then [] else [line ''I am the child. Calling exp1.2.2''])
              @ (if program_found E then [line ''I am exp 1.2.2''] else [])
      in if fork_ans E < 0 then {[p]} else shuffles c [p])
   \<and> exp2_1_1 E =
       (if program_found E \<and> stdout E = File then [] else [line ''I am the exp2.1.1. Calling exp2.1.2''])
       @ (if program_found E then [line ''I am exp 2.1.2''] else [])"
  unfolding exp1_1_def exp1_2_1_def exp2_1_1_def fork_program_def exp1_1_child_def exp1_1_parent_def
    exp1_2_1_child_def exp1_2_1_parent_def exec_exp1_2_2 exec_exp2_1_2 print_exit
  by (simp only: Let_def shuffles_singletons simp_thms)

end
