(* ===== verification/Hello.thy ===== *)
theory Hello
  imports Kernel Blockdev
begin

section \<open>Modules that only print\<close>

text \<open>
  \<^verbatim>\<open>src/exp1/exp1.6.c\<close>, the first kernel module, and \<^verbatim>\<open>src/exp4/exp4_2_evil.c\<close>, which prints what the block driver
  \<^verbatim>\<open>src/exp4/exp_4_2.c\<close> would print if it were loaded and used, without doing any of it. Its \<open>init\<close> has no
  return statement: the value the loader sees is the parameter \<open>garbage\<close>. The property compares its log with
  those of all sessions of the driver in \<open>Blockdev\<close>.
\<close>

subsection \<open>The two modules\<close>

definition initHello :: "kernel \<Rightarrow> (kctx, int) state" where
  "initHello K = do { printk (KERN_INFO @ ''Hello, world from kernal.'' @ nl) []; State_Monad.return 0 }"

definition exitHello :: "kernel \<Rightarrow> (kctx, unit) state" where
  "exitHello K = printk (KERN_INFO @ ''Exiting hello module.'' @ nl) []"

text \<open>The messages of the driver that matter below.\<close>

definition called_msg :: string where "called_msg = ''Exp_4_2 Request handler called.''"
definition range_msg :: string where "range_msg = ''Exp_4_2 Request handler: out of range.''"
definition read_msg :: string where "read_msg = ''Exp_4_2 Request handler: read.''"

definition evil_messages :: "string list" where
  "evil_messages =
     [KERN_INFO @ ''Exp_4_2 Init.'',
      ''Exp_4_2 Init: space allocated.'',
      ''Exp_4_2 Init: spinlock init.'',
      ''Exp_4_2 Init: registered block device with major number 435.'',
      ''Exp_4_2 Init: request queue created.'',
      ''Exp_4_2 Init: gendisk created.'',
      KERN_INFO @ ''Exp_4_2 Device opened.'',
      ''Exp_4_2 Request handler called.'',
      ''Exp_4_2 Request handler: write.'',
      ''Exp_4_2 Device write called.'',
      ''Exp_4_2 Device write successful.'',
      ''Exp_4_2 Request handler: read.'',
      ''Exp_4_2 Device read called.'',
      ''Exp_4_2 Device read successful.'',
      KERN_INFO @ ''Exp_4_2 Device released.'']"

fun print_all :: "string list \<Rightarrow> (kctx, unit) state" where
  "print_all [] = State_Monad.return ()"
| "print_all (m # ms) = do { printk m []; print_all ms }"

definition initHello_evil :: "int \<Rightarrow> kernel \<Rightarrow> (kctx, int) state" where
  "initHello_evil garbage K = do { print_all evil_messages; State_Monad.return garbage }"

definition exitHello_evil :: "kernel \<Rightarrow> (kctx, unit) state" where
  "exitHello_evil K = printk (KERN_INFO @ ''Exiting module.'' @ nl) []"

lemma run_print_all [kmonad]:
  "run_state (print_all ms) s = ((), s\<lparr>klog := klog s @ map (\<lambda>m. Printk m []) ms\<rparr>)"
  by (induction ms arbitrary: s) (simp_all add: kmonad)

lemma held_messages [simp]: "foldl held_step R (map (\<lambda>m. Printk m []) ms) = R"
  by (induction ms) simp_all

text \<open>Both keep the contract of a module: they hold nothing, whatever happens.\<close>

interpretation hello: kmodule_clean initHello exitHello "\<lambda>_. {#}" "\<lambda>_. True" "\<lambda>_. True"
  by unfold_locales (auto simp: initHello_def exitHello_def kmonad)

interpretation evil: kmodule_clean "initHello_evil garbage" exitHello_evil "\<lambda>_. {#}" "\<lambda>_. True" "\<lambda>_. True" for garbage
  by unfold_locales (auto simp: initHello_evil_def exitHello_evil_def kmonad)

subsection \<open>Sessions of the real driver\<close>

text \<open>The calls the block layer and the users of the driver can make between loading and unloading.\<close>

datatype driver_call =
    Open
  | Release
  | Ioctl u32 u64
  | Request ptr
  | Read u64 ptr bytes u32
  | Write bytes u64

fun driver_step :: "kernel \<Rightarrow> driver_call \<Rightarrow> blockdev_st \<Rightarrow> kfault + blockdev_st" where
  "driver_step K Open s = Inr (snd (run_state device_open s))"
| "driver_step K Release s = Inr (snd (run_state device_release s))"
| "driver_step K (Ioctl cmd arg) s = Inr (snd (run_state (device_ioctl cmd arg) s))"
| "driver_step K (Request bd) s = Inr (snd (run_state (requestHandler K bd) s))"
| "driver_step K (Read sector page buffer n) s =
     (case device_read s sector page buffer n of Inl e \<Rightarrow> Inl e | Inr (_, _, s') \<Rightarrow> Inr s')"
| "driver_step K (Write user off) s =
     (case device_write K s user off of Inl e \<Rightarrow> Inl e | Inr (_, _, s') \<Rightarrow> Inr s')"

text \<open>One call after the other, up to the first fault.\<close>

fun driver_calls :: "kernel \<Rightarrow> driver_call list \<Rightarrow> blockdev_st \<Rightarrow> blockdev_st" where
  "driver_calls K [] s = s"
| "driver_calls K (c # cs) s = (case driver_step K c s of Inl _ \<Rightarrow> s | Inr s' \<Rightarrow> driver_calls K cs s')"

definition driver_session :: "kernel \<Rightarrow> driver_call list \<Rightarrow> klog" where
  "driver_session K cs =
     (let (r, s) = run_state (exp_4_2_init K) (blockdev_start [])
      in klog (if r = 0 then snd (run_state (exp_4_2_exit K) (driver_calls K cs s)) else s))"

subsection \<open>The order of messages\<close>

definition texts :: "klog \<Rightarrow> string list" where
  "texts l = concat (map (\<lambda>e. case e of Printk f _ \<Rightarrow> [f] | _ \<Rightarrow> []) l)"

text \<open>After \<open>p\<close>: every report of a read comes directly after the handler's first message or the range error.\<close>

fun follows :: "string \<Rightarrow> string list \<Rightarrow> bool" where
  "follows p [] = True"
| "follows p (x # xs) = ((x = read_msg \<longrightarrow> p = called_msg \<or> p = range_msg) \<and> follows x xs)"

definition request_order :: "string list \<Rightarrow> bool" where
  "request_order xs \<longleftrightarrow> follows '''' xs"

lemma texts_simps [simp]:
  "texts [] = []" "texts (l @ l') = texts l @ texts l'"
  "texts (e # l) = (case e of Printk f _ \<Rightarrow> [f] | _ \<Rightarrow> []) @ texts l"
  by (simp_all add: texts_def)

lemma follows_append: "follows p (xs @ ys) \<longleftrightarrow> follows p xs \<and> follows (last (p # xs)) ys"
  by (induction xs arbitrary: p) auto

lemma follows_any: "follows '''' xs \<Longrightarrow> follows p xs"
  by (cases xs) (auto simp: called_msg_def range_msg_def)

lemma request_order_append: "request_order xs \<Longrightarrow> request_order ys \<Longrightarrow> request_order (xs @ ys)"
  unfolding request_order_def follows_append by (blast intro: follows_any)

lemmas msg_defs = called_msg_def range_msg_def read_msg_def KERN_INFO_def KERN_ERR_def

text \<open>What a call of the driver adds to the log keeps the order.\<close>

definition in_order :: "blockdev_st \<Rightarrow> blockdev_st \<Rightarrow> bool" where
  "in_order s s' \<longleftrightarrow> (\<exists>b. texts (klog s') = texts (klog s) @ b \<and> request_order b)"

lemma in_orderI: "texts (klog s') = texts (klog s) @ b \<Longrightarrow> request_order b \<Longrightarrow> in_order s s'"
  by (auto simp: in_order_def)

interpretation log_order: state_order in_order
proof
  show "in_order s s" for s by (rule in_orderI [where b = "[]"]) (simp_all add: request_order_def)
  show "in_order s u" if "in_order s t" "in_order t u" for s t u
    using that by (auto simp: in_order_def intro: request_order_append)
qed

lemma requestHandler_in_order:
  assumes "run_state (requestHandler K bd) s = (r, s')"
  shows "in_order s s'"
  using assms unfolding requestHandler_def Let_def
  by (elim kelim; simp add: in_order_def request_order_def msg_defs)

lemma device_read_in_order:
  assumes "device_read s sector page buffer n = Inr (r, buffer', s')"
  shows "in_order s s'"
  using assms unfolding device_read_def Let_def
  by (auto simp: kmonad request_order_def msg_defs in_order_def split: if_splits option.splits)

lemma device_write_in_order:
  assumes "device_write K s user off = Inr (r, off', s')"
  shows "in_order s s'"
  using assms unfolding device_write_def Let_def
  by (auto simp: kmonad request_order_def msg_defs in_order_def split: if_splits option.splits)

lemma driver_step_in_order:
  assumes "driver_step K c s = Inr s'"
  shows "in_order s s'"
proof (cases c)
  case (Request bd)
  then show ?thesis using assms requestHandler_in_order [of K bd s] by (metis driver_step.simps(4) prod.collapse sum.inject(2))
next
  case (Read sector page buffer n)
  then show ?thesis using assms by (auto split: sum.splits dest: device_read_in_order)
next
  case (Write user off)
  then show ?thesis using assms by (auto split: sum.splits dest: device_write_in_order)
qed (use assms in \<open>auto simp: device_open_def device_release_def device_ioctl_def kmonad in_order_def
    request_order_def msg_defs\<close>)

lemma driver_calls_in_order: "in_order s (driver_calls K cs s)"
proof (induction cs arbitrary: s)
  case (Cons c cs)
  then show ?case
    using driver_step_in_order [of K c s] log_order.refl
    by (auto split: sum.split intro: log_order.trans)
qed (simp add: log_order.refl)

text \<open>The longer functions, statement by statement.\<close>

lemma in_order_calls:
  "f \<noteq> read_msg \<Longrightarrow> keeps in_order (printk f args)"
  "(\<And>s. klog (h s) = klog s) \<Longrightarrow> keeps in_order (modify h)"
  "texts [e] = [] \<Longrightarrow> keeps in_order (log_event e)"
  "(\<And>r. texts [mk r] = []) \<Longrightarrow> keeps in_order (kcall ans mk)"
  unfolding keeps_def by (simp_all add: kmonad in_order_def request_order_def)

lemmas orderly = log_order.keeps_rules in_order_calls

lemma exp_4_2_init_orderly: "keeps in_order (exp_4_2_init K)"
  unfolding exp_4_2_init_def Let_def by (intro orderly) (simp_all add: msg_defs)

lemma exp_4_2_exit_orderly: "keeps in_order (exp_4_2_exit K)"
  unfolding exp_4_2_exit_def Let_def by (intro orderly) (simp_all add: msg_defs)

lemma driver_session_in_order: "request_order (texts (driver_session K cs))"
proof -
  have start: "request_order (texts (klog s))" if "in_order (blockdev_start []) s" for s
    using that by (auto simp: in_order_def blockdev_start_def)
  obtain r s where run: "run_state (exp_4_2_init K) (blockdev_start []) = (r, s)" by fastforce
  then have init: "in_order (blockdev_start []) s" by (rule keepsD [OF exp_4_2_init_orderly])
  moreover have "in_order (driver_calls K cs s) (snd (run_state (exp_4_2_exit K) (driver_calls K cs s)))"
    using exp_4_2_exit_orderly [of K] unfolding keeps_def by blast
  ultimately have "in_order (blockdev_start []) (snd (run_state (exp_4_2_exit K) (driver_calls K cs s)))"
    using driver_calls_in_order log_order.trans by blast
  then show ?thesis using run start init by (simp add: driver_session_def)
qed

lemma evil_log_out_of_order:
  "texts (klog (snd (run_state (initHello_evil garbage K) \<lparr>klog = []\<rparr>))) = evil_messages"
  "\<not> request_order evil_messages"
proof -
  have "texts (map (\<lambda>m. Printk m []) ms) = ms" for ms by (induction ms) simp_all
  then show "texts (klog (snd (run_state (initHello_evil garbage K) \<lparr>klog = []\<rparr>))) = evil_messages"
    by (simp add: initHello_evil_def kmonad)
  show "\<not> request_order evil_messages" by (simp add: request_order_def evil_messages_def msg_defs)
qed


end
