(* ===== verification/Vectors.thy ===== *)
theory Vectors
  imports Prelude
begin

section \<open>Filling twenty-six vectors\<close>

text \<open>
  The program \<^verbatim>\<open>src/exp2/exp2.2.cpp\<close> appends the numbers below 200000000 to 26 vectors, to be watched
  with \<open>free\<close>. A vector is a list; whether \<open>push_back\<close> gets the memory it asks for is the parameter
  \<open>grow_ok\<close>, of the vector's position and size. Where it does not the exception ends the program.
\<close>

subsection \<open>The program\<close>

type_synonym vectors = "int list list"

definition TIMES :: nat where
  "TIMES = 200000000"

text \<open>\<open>a.push_back(timer); b.push_back(timer); ...\<close>: one element for every vector from position \<open>k\<close> on.\<close>

fun push_row :: "(nat \<Rightarrow> nat \<Rightarrow> bool) \<Rightarrow> nat \<Rightarrow> int \<Rightarrow> vectors \<Rightarrow> vectors option" where
  "push_row grow_ok k x [] = Some []"
| "push_row grow_ok k x (v # vs) =
     (if grow_ok k (length v) then map_option ((#) (v @ [x])) (push_row grow_ok (Suc k) x vs) else None)"

text \<open>The loop, up to \<open>n\<close>.\<close>

function fill_loop :: "(nat \<Rightarrow> nat \<Rightarrow> bool) \<Rightarrow> nat \<Rightarrow> nat \<Rightarrow> vectors \<Rightarrow> vectors option" where
  "fill_loop grow_ok n timer vs =
     (if timer < n
      then (case push_row grow_ok 0 (int timer) vs of
              None \<Rightarrow> None
            | Some vs' \<Rightarrow> fill_loop grow_ok n (timer + 1) vs')
      else Some vs)"
  by pat_completeness auto

termination
  by (relation "measure (\<lambda>(_, n, timer, _). n - timer)") auto

declare fill_loop.simps [simp del]

text \<open>What is printed before the program waits for Enter, with the vectors; or the exception.\<close>

datatype exception = Bad_alloc

definition vectors_main :: "(nat \<Rightarrow> nat \<Rightarrow> bool) \<Rightarrow> exception + string \<times> vectors" where
  "vectors_main grow_ok =
     (case fill_loop grow_ok TIMES 0 (replicate 26 []) of
        None \<Rightarrow> Inl Bad_alloc
      | Some vs \<Rightarrow> Inr (''26 * 200000000 numbers have loaded to memory. Press Enter to continue...'', vs))"

subsection \<open>Lemmas\<close>

definition upto_int :: "nat \<Rightarrow> int list" where
  "upto_int n = map int [0..<n]"

lemma push_row_result:
  "push_row grow_ok k x (replicate m v) =
     (if \<forall>i<m. grow_ok (k + i) (length v) then Some (replicate m (v @ [x])) else None)"
proof (induction m arbitrary: k)
  case (Suc m)
  have "(\<forall>i<Suc m. grow_ok (k + i) (length v)) \<longleftrightarrow> grow_ok k (length v) \<and> (\<forall>i<m. grow_ok (Suc k + i) (length v))"
    by (auto simp: less_Suc_eq_0_disj)
  then show ?case using Suc [of "Suc k"] by simp
qed simp

lemma fill_loop_result:
  assumes "timer \<le> n"
  shows "fill_loop grow_ok n timer (replicate m (upto_int timer)) =
     (if \<forall>i<m. \<forall>j. timer \<le> j \<and> j < n \<longrightarrow> grow_ok i j then Some (replicate m (upto_int n)) else None)"
  using assms
proof (induction "n - timer" arbitrary: timer)
  case 0
  then show ?case by (simp add: fill_loop.simps)
next
  case (Suc d)
  have row: "push_row grow_ok 0 (int timer) (replicate m (upto_int timer)) =
      (if \<forall>i<m. grow_ok i timer then Some (replicate m (upto_int (Suc timer))) else None)"
    by (simp add: push_row_result upto_int_def)
  have split: "(timer \<le> j \<and> j < n) \<longleftrightarrow> j = timer \<or> Suc timer \<le> j \<and> j < n" for j using Suc.hyps(2) by auto
  have "fill_loop grow_ok n (Suc timer) (replicate m (upto_int (Suc timer))) =
      (if \<forall>i<m. \<forall>j. Suc timer \<le> j \<and> j < n \<longrightarrow> grow_ok i j then Some (replicate m (upto_int n)) else None)"
    using Suc by (intro Suc.hyps(1)) auto
  then show ?case using Suc.hyps(2) by (subst fill_loop.simps) (auto simp: row split)
qed

text \<open>
  The program prints its message exactly when every append gets its memory, and then
  each of the 26 vectors holds the numbers from 0 in order, 5200000000 in all and each of them in the
  range of \<open>int\<close>; if any append fails the exception ends it and nothing is printed.
\<close>

lemma vectors_filled:
  "vectors_main grow_ok =
     (if \<forall>i<26. \<forall>j<TIMES. grow_ok i j
      then Inr (''26 * 200000000 numbers have loaded to memory. Press Enter to continue...'', replicate 26 (upto_int TIMES))
      else Inl Bad_alloc)
   \<and> length (concat (replicate 26 (upto_int TIMES))) = 5200000000
   \<and> set (upto_int TIMES) \<subseteq> {0..<2 ^ 31}"
proof -
  have "upto_int 0 = []" by (simp add: upto_int_def)
  then have "vectors_main grow_ok =
     (if \<forall>i<26. \<forall>j<TIMES. grow_ok i j
      then Inr (''26 * 200000000 numbers have loaded to memory. Press Enter to continue...'', replicate 26 (upto_int TIMES))
      else Inl Bad_alloc)"
    using fill_loop_result [of 0 TIMES grow_ok 26] by (simp add: vectors_main_def)
  moreover have "length (concat (replicate 26 (upto_int TIMES))) = 26 * TIMES"
    by (simp add: length_concat sum_list_replicate upto_int_def)
  moreover have "set (upto_int TIMES) \<subseteq> {0..<2 ^ 31}" by (auto simp: upto_int_def TIMES_def)
  ultimately show ?thesis by (simp add: TIMES_def)
qed

end
