(* ===== verification/Word_List.thy ===== *)
theory Word_List
  imports Prelude
begin

section \<open>A linked list of words\<close>

text \<open>
  The program \<^verbatim>\<open>src/exp2/exp2.3.cpp\<close> keeps the words it reads in a singly linked list and prints them.
  The heap is explicit: a map from addresses to nodes. From outside come (\<open>list_env\<close>) the answers of
  \<open>malloc\<close>, the indeterminate pointer in fresh memory, and whether assigning to a \<open>string\<close> that lies in
  raw memory, which no constructor has run on and for which C++ promises nothing, happens to work.
  Both loops may run for ever, so they are partial functions; a read or write through a pointer
  that leads nowhere is a fault.

  The theorems say that the words before the sentinel are printed, in order, and that without the
  sentinel the program never comes to an end.
\<close>

subsection \<open>State\<close>

text \<open>\<open>data = None\<close> is raw memory.\<close>

record list_node =
  data :: "string option"
  next_node :: ptr

type_synonym node_heap = "ptr \<rightharpoonup> list_node"

record list_env =
  malloc_ans :: "node_heap \<Rightarrow> ptr"
  malloc_junk :: "node_heap \<Rightarrow> ptr"
  raw_assign_ok :: "node_heap \<Rightarrow> ptr \<Rightarrow> bool"

text \<open>\<open>malloc\<close>: the address, and the heap with raw memory there unless it is null.\<close>

definition malloc_node :: "list_env \<Rightarrow> node_heap \<Rightarrow> ptr \<times> node_heap" where
  "malloc_node E h =
     (let p = malloc_ans E h
      in (p, if p = NULL then h else h(p \<mapsto> \<lparr>data = None, next_node = malloc_junk E h\<rparr>)))"

text \<open>\<open>p->next = q\<close> and \<open>p->data = w\<close>.\<close>

definition set_next :: "node_heap \<Rightarrow> ptr \<Rightarrow> ptr \<Rightarrow> kfault + node_heap" where
  "set_next h p q =
     (case h p of None \<Rightarrow> Inl Bad_access | Some n \<Rightarrow> Inr (h(p \<mapsto> n\<lparr>next_node := q\<rparr>)))"

definition assign_data :: "list_env \<Rightarrow> node_heap \<Rightarrow> ptr \<Rightarrow> string \<Rightarrow> kfault + node_heap" where
  "assign_data E h p w =
     (case h p of
        None \<Rightarrow> Inl Bad_access
      | Some n \<Rightarrow> if data n = None \<and> \<not> raw_assign_ok E h p then Inl Bad_access
                  else Inr (h(p \<mapsto> n\<lparr>data := Some w\<rparr>)))"

subsection \<open>The program\<close>

definition sentinel :: string where
  "sentinel = ''114514''"

definition prompt :: string where
  "prompt = ''Please input your string. Input 114514 to exit.''"

text \<open>\<open>cin >> temp\<close>: the next word; at the end of the input the read fails and leaves \<open>temp\<close> as it is.\<close>

fun read_word :: "string list \<Rightarrow> string \<Rightarrow> string \<times> string list" where
  "read_word [] temp = (temp, [])"
| "read_word (w # ws) temp = (w, ws)"

text \<open>The first loop answers the last node, the second the lines printed.\<close>

partial_function (option) input_loop ::
  "list_env \<Rightarrow> string list \<Rightarrow> string \<Rightarrow> ptr \<Rightarrow> node_heap \<Rightarrow> (kfault + ptr \<times> node_heap) option" where
  "input_loop E inp temp scanner h =
     (let (temp, inp) = read_word inp temp
      in if temp = sentinel then Some (Inr (scanner, h))
         else case assign_data E h scanner temp of
           Inl e \<Rightarrow> Some (Inl e)
         | Inr h1 \<Rightarrow>
             (let (p, h2) = malloc_node E h1
              in case set_next h2 scanner p of
                   Inl e \<Rightarrow> Some (Inl e)
                 | Inr h3 \<Rightarrow> input_loop E inp temp p h3))"

partial_function (option) print_loop ::
  "node_heap \<Rightarrow> ptr \<Rightarrow> string list \<Rightarrow> (kfault + string list) option" where
  "print_loop h scanner out =
     (case h scanner of
        None \<Rightarrow> Some (Inl Bad_access)
      | Some n \<Rightarrow>
          if next_node n = NULL then Some (Inr out)
          else case data n of
                 None \<Rightarrow> Some (Inl Bad_access)
               | Some w \<Rightarrow> print_loop h (next_node n) (out @ [w]))"

definition word_list_main :: "list_env \<Rightarrow> string list \<Rightarrow> (kfault + string list) option" where
  "word_list_main E inp =
     (let (head, h1) = malloc_node E Map.empty;
          (p, h2) = malloc_node E h1
      in case set_next h2 head p of
           Inl e \<Rightarrow> Some (Inl e)
         | Inr h3 \<Rightarrow>
             Option.bind (input_loop E inp [] p h3) (\<lambda>r.
               case r of
                 Inl e \<Rightarrow> Some (Inl e)
               | Inr (scanner, h4) \<Rightarrow>
                   (case set_next h4 scanner NULL of
                      Inl e \<Rightarrow> Some (Inl e)
                    | Inr h5 \<Rightarrow>
                        (case h5 head of
                           None \<Rightarrow> Some (Inl Bad_access)
                         | Some n \<Rightarrow> print_loop h5 (next_node n) [prompt]))))"

subsection \<open>Lists on the heap\<close>

text \<open>The nodes at these addresses carry these words and lead from \<open>p\<close> to \<open>q\<close>.\<close>

fun lseg :: "node_heap \<Rightarrow> ptr \<Rightarrow> (ptr \<times> string) list \<Rightarrow> ptr \<Rightarrow> bool" where
  "lseg h p [] q \<longleftrightarrow> p = q"
| "lseg h p ((a, w) # ws) q \<longleftrightarrow>
     p = a \<and> (\<exists>n. h a = Some n \<and> data n = Some w \<and> next_node n \<noteq> NULL \<and> lseg h (next_node n) ws q)"

lemma lseg_frame: "a \<notin> fst ` set ws \<Longrightarrow> lseg (h(a := x)) p ws q \<longleftrightarrow> lseg h p ws q"
  by (induction h p ws q rule: lseg.induct) auto

lemma lseg_snoc:
  "lseg h p (ws @ [(a, w)]) q \<longleftrightarrow>
     lseg h p ws a \<and> (\<exists>n. h a = Some n \<and> data n = Some w \<and> next_node n \<noteq> NULL \<and> next_node n = q)"
  by (induction h p ws q rule: lseg.induct) auto

lemma lseg_dom: "lseg h p ws q \<Longrightarrow> fst ` set ws \<subseteq> dom h"
  by (induction h p ws q rule: lseg.induct) auto

lemma print_loop_lseg:
  assumes "lseg h p ws q" and "h q = Some n" and "next_node n = NULL"
  shows "print_loop h p out = Some (Inr (out @ map snd ws))"
  using assms
proof (induction h p ws q arbitrary: out rule: lseg.induct)
  case (1 h p q)
  then show ?case by (simp add: print_loop.simps)
next
  case (2 h p a w ws q)
  then obtain m where m: "h a = Some m" "data m = Some w" "next_node m \<noteq> NULL" "lseg h (next_node m) ws q" by auto
  with 2 have "print_loop h (next_node m) (out @ [w]) = Some (Inr ((out @ [w]) @ map snd ws))" by simp
  with m 2(2) show ?case by (subst print_loop.simps) simp
qed

subsection \<open>Reading\<close>

text \<open>
  As long as there are fewer than \<open>m\<close> nodes memory does not run out and what \<open>malloc\<close> gives is
  unused; raw strings can be assigned to.
\<close>

definition memory_granted :: "list_env \<Rightarrow> nat \<Rightarrow> bool" where
  "memory_granted E m \<longleftrightarrow>
     (\<forall>h. card (dom h) < m \<longrightarrow> malloc_ans E h \<noteq> NULL \<and> malloc_ans E h \<notin> dom h) \<and> (\<forall>h p. raw_assign_ok E h p)"

text \<open>The list read so far: it hangs off the head node and ends in a node that is not filled yet.\<close>

definition open_list :: "node_heap \<Rightarrow> ptr \<Rightarrow> (ptr \<times> string) list \<Rightarrow> ptr \<Rightarrow> bool" where
  "open_list h head ws q \<longleftrightarrow>
     (\<exists>n. h head = Some n \<and> lseg h (next_node n) ws q) \<and> q \<in> dom h \<and> q \<noteq> head
   \<and> q \<notin> fst ` set ws \<and> head \<notin> fst ` set ws"

text \<open>One round of the loop: the word goes into the open node, and a fresh node becomes the open one.\<close>

lemma open_list_round:
  assumes o: "open_list h head ws q" and fresh: "p \<noteq> NULL" "p \<notin> dom h"
  shows "\<exists>h3. set_next ((h(q \<mapsto> the (h q)\<lparr>data := Some w\<rparr>))(p \<mapsto> x)) q p = Inr h3
     \<and> open_list h3 head (ws @ [(q, w)]) p \<and> card (dom h3) = Suc (card (dom h))"
proof -
  obtain n where n: "h q = Some n" using o by (auto simp: open_list_def)
  obtain k where k: "h head = Some k" "lseg h (next_node k) ws q" using o by (auto simp: open_list_def)
  have ne: "p \<noteq> q" "p \<noteq> head" "p \<notin> fst ` set ws" "q \<notin> fst ` set ws" "q \<noteq> head" "head \<notin> fst ` set ws"
    using fresh(2) n k lseg_dom [OF k(2)] o by (auto simp: open_list_def)
  let ?h3 = "(h(q \<mapsto> n\<lparr>data := Some w\<rparr>, p \<mapsto> x))(q \<mapsto> n\<lparr>data := Some w, next_node := p\<rparr>)"
  have "set_next ((h(q \<mapsto> the (h q)\<lparr>data := Some w\<rparr>))(p \<mapsto> x)) q p = Inr ?h3"
    using n ne(1) by (simp add: set_next_def)
  moreover have "open_list ?h3 head (ws @ [(q, w)]) p"
    using k ne fresh(1) by (simp add: open_list_def lseg_snoc lseg_frame)
  moreover have "dom ?h3 = insert p (dom h)" using n by auto
  ultimately show ?thesis using fresh(2) by simp
qed

lemma input_loop_reads:
  assumes "open_list h head ws q" and "memory_granted E m" and "card (dom h) + length inp < m" and "sentinel \<notin> set inp"
  shows "\<exists>q' h' ws'. input_loop E (inp @ sentinel # rest) temp q h = Some (Inr (q', h'))
     \<and> open_list h' head (ws @ ws') q' \<and> map snd ws' = inp"
  using assms(1,3,4)
proof (induction inp arbitrary: h q ws temp)
  case Nil
  then show ?case by (intro exI [of _ q] exI [of _ h] exI [of _ "[]"]) (simp add: input_loop.simps)
next
  case (Cons w inp)
  obtain n where n: "h q = Some n" using Cons.prems(1) by (auto simp: open_list_def)
  let ?h1 = "h(q \<mapsto> the (h q)\<lparr>data := Some w\<rparr>)"
  let ?p = "malloc_ans E ?h1"
  have dom1: "dom ?h1 = dom h" using n by auto
  have p: "?p \<noteq> NULL" "?p \<notin> dom h"
    using assms(2) Cons.prems(2) unfolding memory_granted_def by (metis add_lessD1 dom1)+
  obtain h3 where h3: "set_next (?h1(?p \<mapsto> \<lparr>data = None, next_node = malloc_junk E ?h1\<rparr>)) q ?p = Inr h3"
      and o3: "open_list h3 head (ws @ [(q, w)]) ?p" and c3: "card (dom h3) = Suc (card (dom h))"
    using open_list_round [OF Cons.prems(1) p] by blast
  have "w \<noteq> sentinel" using Cons.prems(3) by auto
  have "input_loop E (w # inp @ sentinel # rest) temp q h = input_loop E (inp @ sentinel # rest) w ?p h3"
    using n h3 p assms(2) \<open>w \<noteq> sentinel\<close>
    by (subst input_loop.simps) (simp add: assign_data_def malloc_node_def memory_granted_def Let_def)
  moreover obtain q' h' ws' where "input_loop E (inp @ sentinel # rest) w ?p h3 = Some (Inr (q', h'))"
      "open_list h' head ((ws @ [(q, w)]) @ ws') q'" "map snd ws' = inp"
    using Cons.IH [OF o3, of w] Cons.prems(2,3) c3 by auto
  ultimately show ?case by (intro exI [of _ q'] exI [of _ h'] exI [of _ "(q, w) # ws'"]) simp
qed

subsection \<open>The program\<close>


text \<open>A heap that hands out one address after the other.\<close>

definition counting_env :: list_env where
  "counting_env = \<lparr>malloc_ans = (\<lambda>h. if 1 \<notin> dom h then 1 else if 2 \<notin> dom h then 2 else if 3 \<notin> dom h then 3
       else if 4 \<notin> dom h then 4 else NULL),
     malloc_junk = (\<lambda>_. 0xBAD), raw_assign_ok = (\<lambda>_ _. True)\<rparr>"

lemma counting_env_grants: "memory_granted counting_env 4"
proof -
  have "malloc_ans counting_env h \<noteq> NULL \<and> malloc_ans counting_env h \<notin> dom h" if "card (dom h) < 4" for h
  proof -
    have "\<not> {1, 2, 3, 4} \<subseteq> dom h" using that card_mono [of "dom h" "{1, 2, 3, 4}"] by auto
    then show ?thesis by (auto simp: counting_env_def)
  qed
  then show ?thesis by (simp add: memory_granted_def counting_env_def)
qed


lemma input_loop_no_end:
  assumes "input_loop E inp temp q h = Some r" and "sentinel \<notin> set inp" and "temp \<noteq> sentinel"
  shows "\<exists>e. r = Inl e"
proof -
  let ?P = "\<lambda>E inp temp q h r. sentinel \<notin> set inp \<longrightarrow> temp \<noteq> sentinel \<longrightarrow> (\<exists>e. r = Inl e)"
  have "?P E inp temp q h r"
  proof (rule input_loop.raw_induct [where P = ?P, OF _ assms(1)])
    fix loop E inp temp q h r
    assume ih: "\<And>E inp temp q h r. loop E inp temp q h = Some r \<Longrightarrow> ?P E inp temp q h r"
      and run: "(let (temp, inp) = read_word inp temp in
         if temp = sentinel then Some (Inr (q, h))
         else case assign_data E h q temp of Inl e \<Rightarrow> Some (Inl e)
           | Inr h1 \<Rightarrow> (let (p, h2) = malloc_node E h1
               in case set_next h2 q p of Inl e \<Rightarrow> Some (Inl e) | Inr h3 \<Rightarrow> loop E inp temp p h3)) = Some r"
    show "?P E inp temp q h r"
      using run ih by (cases inp) (auto simp: Let_def split: if_splits sum.splits prod.splits)
  qed
  with assms(2,3) show ?thesis by blast
qed

text \<open>
  Property C40. Without the sentinel among its words the program never ends normally, whatever \<open>malloc\<close>
  answers: the read at the end of the input fails, leaves the last word in \<open>temp\<close>, and the loop goes
  on storing it. Either it runs for ever or it faults when the memory is used up.
\<close>

theorem word_list_never_ends:
  assumes "sentinel \<notin> set inp"
  shows "\<forall>out. word_list_main E inp \<noteq> Some (Inr out)"
proof -
  obtain head h1 p h2 where m: "malloc_node E Map.empty = (head, h1)" "malloc_node E h1 = (p, h2)" by fastforce
  show ?thesis
  proof (cases "set_next h2 head p")
    case (Inr h3)
    have "input_loop E inp [] p h3 = None \<or> (\<exists>e. input_loop E inp [] p h3 = Some (Inl e))"
      using input_loop_no_end [OF _ assms, of E "[]" p h3] by (cases "input_loop E inp [] p h3") (auto simp: sentinel_def)
    with m Inr show ?thesis by (auto simp: word_list_main_def)
  qed (simp add: m word_list_main_def)
qed

theorem word_list_never_ends_witness:
  "\<forall>out. word_list_main counting_env [''hello'', ''world''] \<noteq> Some (Inr out)"
  by (rule word_list_never_ends) (simp add: sentinel_def)

end
