(* ===== verification/Spec2Isabelle.thy ===== *)
theory Spec2Isabelle
  imports Ramdisk Blockdev Chardev Procfs Mapdrv Myfs_Tree Myfs_File Myfs_Access Myfs_Ubuntu Semaphore Pipes Join
    Tasklist Fork_Exec Hello Vectors Word_List
begin

text \<open>
  \<^bold>\<open>A verification of the Linux experiments under \<^verbatim>\<open>src/\<close>.\<close>

  \<^bold>\<open>The program.\<close> The repository is a collection of small C programs for a course on Linux: kernel
  modules (block, character and mmap drivers, a file under \<^verbatim>\<open>/proc\<close>, a file system), programs that
  test them, and user programs on threads and processes. The modules do not call each other;
  they meet in the kernel, whose resources they acquire in their init function and give back in
  their exit function, and in the user programs that open the devices and files they provide.

  \<^bold>\<open>Foundations.\<close>
  \<^item> \<open>Prelude\<close>: machine types, byte buffers with explicit faults (\<open>mem_read\<close>, \<open>mem_write\<close>), C strings
    (\<open>strlen\<close>, \<open>cstring\<close>), error codes, the state monad as simplification rules (\<open>kmonad\<close>) and as
    elimination rules (\<open>kelim\<close>). The locale \<open>state_order\<close> is the contract of a relation between states that programs
    can be checked against statement by statement (\<open>keeps\<close>).
  \<^item> \<open>Kernel\<close>: the functions of the Linux kernel that the modules call. They are not under \<^verbatim>\<open>src/\<close> and
    are parameters, fields of the record \<open>kernel\<close>, whose answers may depend on everything that
    happened before. Every call is appended to a log; \<open>held\<close> reads off a log which resources are
    held. The locales \<open>kmodule\<close> and \<open>kmodule_clean\<close> are the contract of a loadable module, \<open>module_pair\<close>
    that of two modules in one kernel.
  \<^item> \<open>Block_Store\<close>: the contract of a device that stores sectors (\<open>block_store\<close>, \<open>checked_store\<close>), with
    the round-trip lemmas for sequences of writes.
  \<^item> \<open>Byte_Fifo\<close>: the contract of a bounded first-in first-out buffer.
  \<^item> \<open>Interleaving\<close>: the contract of concurrent programs whose interleavings all finish.

  \<^bold>\<open>Components.\<close> Each theory has the component's state as a record, its functions under the names
  of the source, its invariant and its properties.
  \<^item> \<open>Ramdisk\<close>: \<^verbatim>\<open>exp4/exp_4_2_ramdisk_driver.c\<close> and \<^verbatim>\<open>exp4/exp_4_2_original.c\<close>. The request loop over an
    abstract block layer, \<open>my_ioctl\<close>, \<open>my_init\<close> with all error paths, \<open>my_exit\<close>. Both request handlers
    refine an abstract disk and terminate; writes are read back; sector numbers wrap at 32 bits.
  \<^item> \<open>Blockdev\<close>: \<^verbatim>\<open>exp4/exp_4_2.c\<close>. \<open>requestHandler\<close>, \<open>device_read\<close>, \<open>device_write\<close>, init and exit; round
    trip through read and write, the exact result of every branch, the wrapped bounds check; through the tables of
    operations the kernel reaches neither of the two, so the driver stores nothing.
  \<^item> \<open>Chardev\<close>: \<^verbatim>\<open>exp4/exp4_1_kernel.c\<close> and its user program \<^verbatim>\<open>exp4/exp4.1.user.c\<close>. Init with its cleanup labels; loading is balanced whatever fails,
    unless the uninitialised return value happens to be 0.
  \<^item> \<open>Procfs\<close>: \<^verbatim>\<open>exp3/exp3.1.c\<close>. Reads and writes keep the message buffer well formed for every sequence of calls
    and answers; round trip; the shared end-of-file flag; the ignored \<open>count\<close>.
  \<^item> \<open>Mapdrv\<close>: \<^verbatim>\<open>exp2/exp2.4/map_driver.c\<close> and its two test programs. The page loops (which need not
    end for every address, so they are partial functions, proved to return), the guards of \<open>mmap\<close>,
    faults, and that what one program writes is what the other prints.
  \<^item> \<open>Myfs_Tree\<close>: \<^verbatim>\<open>course_design/myfs_kernel.c\<close> and \<^verbatim>\<open>course_design/myfs_kernel_ubuntu.c\<close>, inodes, entries and mounting, on
    an explicit store of kernel objects. The functions of the VFS are the parameter \<open>vfs\<close> with the
    laws \<open>vfs_laws\<close>. Loading builds exactly the intended tree; creating an entry adds exactly it.
  \<^item> \<open>Myfs_File\<close>: the file operations of the same files, and the test programs \<^verbatim>\<open>course_design/test*.c\<close>.
    The kernel FIFO is the parameter \<open>kfifo\<close> with the laws \<open>kfifo_laws\<close>. Bytes are conserved in order
    through all files together; the result of \<open>open\<close> with its inverted permission check.
  \<^item> \<open>Myfs_Access\<close>: what the tree means for the programs that open its files by name. The store stays well
    typed (kinds, operations, owners, links) whatever the VFS answers; with the kernel's permission rules as the
    parameter \<open>access\<close>, nobody but root gets past the directories of mode 0744.
  \<^item> \<open>Myfs_Ubuntu\<close>: \<^verbatim>\<open>course_design/myfs_kernel_ubuntu.c\<close> translated once more, one step per statement, in the
    option monad; function by function it equals the bigger steps of \<open>Myfs_Tree\<close> and \<open>Myfs_File\<close>, but for two
    modes and the check in \<open>open\<close>.
  \<^item> \<open>Semaphore\<close>: \<^verbatim>\<open>exp1/exp1.4.c\<close> and \<^verbatim>\<open>exp3/exp3.2.c\<close>, all interleavings of two threads and \<open>main\<close>: mutual exclusion, no
    deadlock, termination with one result.
  \<^item> \<open>Pipes\<close>: \<^verbatim>\<open>exp1/exp1.5.c\<close>, all interleavings of a parent and two children: it finishes with both
    messages whole, in either order, and hangs if a fork fails.
  \<^item> \<open>Join\<close>: \<^verbatim>\<open>exp1/exp1.3.c\<close>, all interleavings of \<open>main\<close> and the thread it joins.
  \<^item> \<open>Tasklist\<close>: \<^verbatim>\<open>exp1/exp1_8.c\<close>, the walk along the kernel's circular task list.
  \<^item> \<open>Fork_Exec\<close>: \<^verbatim>\<open>exp1/exp1.1.c\<close>, \<^verbatim>\<open>exp1/exp1.2.1.c\<close>, \<^verbatim>\<open>exp1/exp1.2.2.c\<close>, \<^verbatim>\<open>exp2/exp2.1.1.c\<close>, \<^verbatim>\<open>exp2/exp2.1.2.c\<close>, with the buffer of
    \<open>stdout\<close>: what the programs write on a terminal and on a file.
  \<^item> \<open>Hello\<close>: \<^verbatim>\<open>exp1/exp1.6.c\<close> and \<^verbatim>\<open>exp4/exp4_2_evil.c\<close>, modules that only print; the log the latter forges is
    compared with every session of the driver in \<open>Blockdev\<close>.
  \<^item> \<open>Vectors\<close> and \<open>Word_List\<close>: the C++ programs \<^verbatim>\<open>exp2/exp2.2.cpp\<close>, whose loop either fills all vectors or
    ends in the exception, and \<^verbatim>\<open>exp2/exp2.3.cpp\<close>, a linked list on an explicit heap.

  \<^bold>\<open>Bounds and fuel.\<close> Machine integers are words of their width, or integers with the range stated
  where it matters. No fuel is used: loops are structural, have a termination proof, or are partial functions
  whose result is proved to exist. The step relations have a rank that bounds every run: 8 steps
  per increment and 27 more for the semaphore programs, 21 steps for the pipe program, 54 for the
  join program.

  \<^bold>\<open>Across the components\<close> (this theory): two modules loaded into one kernel and unloaded in either
  order leave it as it was.

  \<^bold>\<open>Not modelled.\<close> Of the kernel modules, most tables of operations and the licence macros are constants that
  appear as names. The comments, and the sleep loops at the end of the test programs of \<open>Mapdrv\<close>, carry
  no behaviour. Every function of every source file has a definition.
\<close>

section \<open>Modules in one kernel\<close>

interpretation procfs_chardev: module_pair initexp3_1 exitexp3_1 procfs_owned "\<lambda>_. True" "\<lambda>_. True"
    "device_init garbage" device_exit chardev_owned "\<lambda>_. True" "\<lambda>K. cdev_alloc_unused K \<and> garbage \<noteq> 0" for garbage
  by unfold_locales


text \<open>A kernel that hands out the character device again only after it was deleted.\<close>

definition tidy_kernel :: kernel where
  "tidy_kernel = granting_kernel\<lparr>cdev_alloc_ans := \<lambda>l. if RAddedCdev 0x50000 \<in># held l then NULL else 0x50000\<rparr>"


end
